(* ===== verification/Prelude.thy ===== *)
theory Prelude
  imports Main "HOL-Library.Sublist" "HOL-Library.AList" "HOL-Library.Word"
begin

text \<open>
  Prelude of the development: what the components of the server share.

  \<^item> The C++ failures a component can raise (\<open>cpp_exn\<close>) and the chaining of
    fallible operations (\<open>rbind\<close>).
  \<^item> The parts of the C++ standard library on \<open>std::string\<close> that the sources use:
    \<open>find\<close>, \<open>std::getline\<close> with a delimiter, \<open>operator>>\<close> on a stream, \<open>std::stoi\<close>,
    \<open>std::to_string\<close>, \<open>c_str\<close>. A \<open>std::string\<close> is a list of bytes, that is, of \<open>char\<close>.
  \<^item> Clock readings: \<open>std::chrono::steady_clock\<close> counts nanoseconds; a reading is an
    argument of the operation that takes it.
  \<^item> The theorem collections \<open>str_simps\<close> and \<open>map_simps\<close> that the component proofs use.
\<close>

named_theorems str_simps \<open>evaluation and shape of the string operations\<close>
named_theorems map_simps \<open>look-ups after updates of the components' tables\<close>

section \<open>Failures\<close>

text \<open>
  The exceptions the sources can raise, the two kinds of undefined behaviour that the
  models make explicit: a read past the end of a fixed array and a call through a null pointer,
  and a call that does not return because it waits on a condition variable.
\<close>

datatype cpp_exn =
    Invalid_argument
  | Out_of_range
  | Length_error
  | Runtime_error string
  | Type_error
  | Buffer_overread
  | Null_dereference
  | Blocked
  | Missing_return

type_synonym 'a result = "cpp_exn + 'a"

definition rbind :: "'a result \<Rightarrow> ('a \<Rightarrow> 'b result) \<Rightarrow> 'b result" where
  "rbind r f = (case r of Inl e \<Rightarrow> Inl e | Inr x \<Rightarrow> f x)"

definition is_ok :: "'a result \<Rightarrow> bool" where
  "is_ok r = (case r of Inl _ \<Rightarrow> False | Inr _ \<Rightarrow> True)"

section \<open>Clock\<close>

type_synonym time = int

abbreviation ns_per_ms :: int where "ns_per_ms \<equiv> 1000000"
abbreviation ns_per_sec :: int where "ns_per_sec \<equiv> 1000000000"

section \<open>Characters and C strings\<close>

definition is_space :: "char \<Rightarrow> bool" where
  "is_space c \<longleftrightarrow> (of_char c :: nat) = 32 \<or> (9 \<le> (of_char c :: nat) \<and> (of_char c :: nat) \<le> 13)"

definition is_digit :: "char \<Rightarrow> bool" where
  "is_digit c \<longleftrightarrow> 48 \<le> (of_char c :: nat) \<and> (of_char c :: nat) \<le> 57"

definition NUL :: char where "NUL = CHR 0x00"
definition CR :: char where "CR = CHR 0x0D"
definition LF :: char where "LF = CHR 0x0A"

definition CRLF :: string where "CRLF = [CR, LF]"

definition bytes :: "nat list \<Rightarrow> string" where
  "bytes ns = map char_of ns"

text \<open>\<open>s.c_str()\<close> handed to a C function, or a \<open>char*\<close> turned into a \<open>std::string\<close>:
  everything before the first NUL.\<close>

definition c_str :: "string \<Rightarrow> string" where
  "c_str s = takeWhile (\<lambda>c. c \<noteq> NUL) s"

section \<open>Searching\<close>

primrec find_char :: "char \<Rightarrow> string \<Rightarrow> nat option" where
  "find_char c [] = None"
| "find_char c (x # xs) = (if x = c then Some 0 else map_option Suc (find_char c xs))"

fun find_sub :: "string \<Rightarrow> string \<Rightarrow> nat option" where
  "find_sub p [] = (if p = [] then Some 0 else None)"
| "find_sub p (x # xs) =
     (if take (length p) (x # xs) = p then Some 0 else map_option Suc (find_sub p xs))"

definition contains_sub :: "string \<Rightarrow> string \<Rightarrow> bool" where
  "contains_sub p s \<longleftrightarrow> find_sub p s \<noteq> None"

section \<open>Streams\<close>

text \<open>The pieces successive calls of \<open>std::getline(ss, x, d)\<close> read until the stream fails.\<close>

function getlines :: "char \<Rightarrow> string \<Rightarrow> string list" where
  "getlines d [] = []"
| "getlines d (c # cs) =
     (takeWhile (\<lambda>x. x \<noteq> d) (c # cs)) #
     (case dropWhile (\<lambda>x. x \<noteq> d) (c # cs) of [] \<Rightarrow> [] | _ # r \<Rightarrow> getlines d r)"
  by pat_completeness auto
termination
proof (relation "measure (\<lambda>(d, s). length s)")
  fix d c :: char and cs r :: string and x
  assume "dropWhile (\<lambda>x. x \<noteq> d) (c # cs) = x # r"
  then have "length (x # r) \<le> length (c # cs)" by (metis length_dropWhile_le)
  then show "((d, r), d, c # cs) \<in> measure (\<lambda>(d, s). length s)" by simp
qed simp

text \<open>Pieces put together with a delimiter between them.\<close>

fun join :: "char \<Rightarrow> string list \<Rightarrow> string" where
  "join d [] = []"
| "join d [s] = s"
| "join d (s # t # r) = s @ d # join d (t # r)"

text \<open>\<open>iss >> word\<close>: skip white space, read up to the next white space.\<close>

definition read_word :: "string \<Rightarrow> string \<times> string" where
  "read_word s =
     (let r = dropWhile is_space s
      in (takeWhile (\<lambda>c. \<not> is_space c) r, dropWhile (\<lambda>c. \<not> is_space c) r))"

section \<open>Numbers\<close>

definition INT_MIN :: int where "INT_MIN = - 2147483648"
definition INT_MAX :: int where "INT_MAX = 2147483647"

text \<open>The value a 32-bit \<open>int\<close> keeps of a number.\<close>

definition wrap32 :: "int \<Rightarrow> int" where
  "wrap32 i = (i + 2147483648) mod 4294967296 - 2147483648"

definition digit_char :: "nat \<Rightarrow> char" where
  "digit_char d = char_of (48 + d)"

definition digit_val :: "char \<Rightarrow> nat" where
  "digit_val c = of_char c - 48"

fun nat_to_string :: "nat \<Rightarrow> string" where
  "nat_to_string n =
     (if n < 10 then [digit_char n] else nat_to_string (n div 10) @ [digit_char (n mod 10)])"

declare nat_to_string.simps [simp del]

text \<open>\<open>std::to_string\<close> on an integer.\<close>

definition to_string :: "int \<Rightarrow> string" where
  "to_string i = (if i < 0 then CHR ''-'' # nat_to_string (nat (- i)) else nat_to_string (nat i))"

definition digits_val :: "string \<Rightarrow> nat" where
  "digits_val ds = foldl (\<lambda>a c. 10 * a + digit_val c) 0 ds"

text \<open>The optional sign \<open>strtol\<close> accepts.\<close>

definition split_sign :: "string \<Rightarrow> bool \<times> string" where
  "split_sign s =
     (case s of [] \<Rightarrow> (False, [])
      | c # r \<Rightarrow> if c = CHR ''-'' then (True, r) else if c = CHR ''+'' then (False, r) else (False, s))"

text \<open>\<open>std::stoi(s)\<close>: leading white space, optional sign, the longest run of digits; what
  follows the digits is ignored.\<close>

definition stoi :: "string \<Rightarrow> int result" where
  "stoi s =
     (let (neg, r) = split_sign (dropWhile is_space s);
          ds = takeWhile is_digit r;
          v = (if neg then - int (digits_val ds) else int (digits_val ds))
      in if ds = [] then Inl Invalid_argument
         else if v < INT_MIN \<or> INT_MAX < v then Inl Out_of_range
         else Inr v)"

text \<open>A byte as the two hexadecimal digits that \<open>std::hex << std::setw(2) << std::setfill('0')\<close>
  prints.\<close>

definition hex_digit :: "nat \<Rightarrow> char" where
  "hex_digit d = (if d < 10 then char_of (48 + d) else char_of (87 + d))"

definition hex2 :: "nat \<Rightarrow> string" where
  "hex2 b = [hex_digit (b div 16), hex_digit (b mod 16)]"

section \<open>Lemmas\<close>

subsection \<open>Results\<close>

lemma rbind_simps [simp]:
  "rbind (Inl e) f = Inl e" "rbind (Inr x) f = f x"
  by (simp_all add: rbind_def)

lemma rbind_eq_InrE:
  assumes "rbind r f = Inr y"
  obtains x where "r = Inr x" "f x = Inr y"
  using assms by (cases r) auto

lemma is_ok_simps [simp]: "is_ok (Inr x)" "\<not> is_ok (Inl e)"
  by (simp_all add: is_ok_def)

subsection \<open>Search\<close>

lemma find_char_None_iff [str_simps]: "find_char c s = None \<longleftrightarrow> c \<notin> set s"
  by (induction s) auto

lemma find_char_append [str_simps]: "c \<notin> set a \<Longrightarrow> find_char c (a @ c # b) = Some (length a)"
  by (induction a) auto

lemma find_char_SomeD:
  "find_char c s = Some i \<Longrightarrow> i < length s \<and> s ! i = c \<and> c \<notin> set (take i s)"
  by (induction s arbitrary: i) (auto split: if_splits)

lemma find_char_split:
  assumes "find_char c s = Some i"
  shows "s = take i s @ c # drop (Suc i) s"
  using find_char_SomeD [OF assms] by (metis id_take_nth_drop)

lemma find_sub_SomeD:
  "find_sub p s = Some i \<Longrightarrow> i + length p \<le> length s \<and> take (length p) (drop i s) = p"
proof (induction p s arbitrary: i rule: find_sub.induct)
  case (1 p)
  then show ?case by (simp split: if_splits)
next
  case (2 p x xs)
  show ?case
  proof (cases "take (length p) (x # xs) = p")
    case True
    then have "length p \<le> length (x # xs)"
      by (metis length_take min.absorb_iff2 min.commute)
    with True 2 show ?thesis by simp
  next
    case False
    with 2 obtain j where "find_sub p xs = Some j" "i = Suc j" by auto
    with 2 False show ?thesis by simp
  qed
qed

lemma find_sub_split:
  assumes "find_sub p s = Some i"
  shows "s = take i s @ p @ drop (i + length p) s"
proof -
  have "take (length p) (drop i s) = p"
    using find_sub_SomeD [OF assms] by simp
  then have "drop i s = p @ drop (length p) (drop i s)"
    by (metis append_take_drop_id)
  then have "drop i s = p @ drop (i + length p) s"
    by (simp add: add.commute)
  then show ?thesis by (metis append_take_drop_id)
qed

lemma find_sub_skip:
  "c \<notin> set a \<Longrightarrow> find_sub (c # p) (a @ s) = map_option ((+) (length a)) (find_sub (c # p) s)"
proof (induction a)
  case (Cons x a)
  then have "x \<noteq> c" by auto
  with Cons show ?case by (simp add: option.map_comp o_def)
qed (cases "find_sub (c # p) s"; simp)

lemma find_sub_here: "p \<noteq> [] \<Longrightarrow> find_sub p (p @ s) = Some 0"
  by (cases p) simp_all

lemma find_sub_first:
  assumes "c \<notin> set a"
  shows "find_sub (c # p) (a @ (c # p) @ s) = Some (length a)"
  using find_sub_skip [OF assms, of p "(c # p) @ s"] find_sub_here [of "c # p" s]
  by (simp del: append_Cons)

subsection \<open>Lines ended by CR LF\<close>

definition crlf_lines :: "string list \<Rightarrow> string" where
  "crlf_lines ls = concat (map (\<lambda>l. l @ CRLF) ls)"

definition plain_line :: "string \<Rightarrow> bool" where
  "plain_line l \<longleftrightarrow> l \<noteq> [] \<and> CR \<notin> set l \<and> LF \<notin> set l"

lemma crlf_lines_simps [simp]:
  "crlf_lines [] = []" "crlf_lines (l # ls) = l @ CRLF @ crlf_lines ls"
  "crlf_lines (ls @ ms) = crlf_lines ls @ crlf_lines ms"
  by (simp_all add: crlf_lines_def)

lemma CR_neq_LF [simp]: "CR \<noteq> LF" "LF \<noteq> CR"
  by (simp_all add: CR_def LF_def)

text \<open>The first empty line ends the lines before it.\<close>

lemma find_blank_line:
  "\<forall>l \<in> set ls. plain_line l \<Longrightarrow> ls \<noteq> [] \<Longrightarrow>
   find_sub (CRLF @ CRLF) (crlf_lines ls @ CRLF @ body) = Some (length (crlf_lines ls) - 2)"
proof (induction ls)
  case (Cons l ls)
  have l: "CR \<notin> set l" "l \<noteq> []" using Cons.prems by (auto simp: plain_line_def)
  show ?case
  proof (cases ls)
    case Nil
    with find_sub_first [OF l(1), of "[LF, CR, LF]" body] show ?thesis by (simp add: CRLF_def)
  next
    case (Cons m ms)
    then obtain x xs where m: "m = x # xs" "x \<noteq> CR"
      using Cons.prems(1) by (cases m) (auto simp: plain_line_def)
    define rest where "rest = crlf_lines ls @ CRLF @ body"
    have hd: "\<exists>ys. rest = x # ys" using Cons m by (simp add: rest_def)
    have "find_sub (CRLF @ CRLF) rest = Some (length (crlf_lines ls) - 2)"
      unfolding rest_def using Cons.IH Cons.prems Cons by simp
    moreover have "2 \<le> length (crlf_lines ls)" using Cons by (simp add: CRLF_def)
    ultimately have "find_sub [CR, LF, CR, LF] (CR # LF # rest) = Some (length (crlf_lines ls))"
      using hd m by (auto simp: CRLF_def)
    with find_sub_skip [OF l(1), of "[LF, CR, LF]" "CR # LF # rest"] show ?thesis
      by (simp add: rest_def CRLF_def)
  qed
qed simp

subsection \<open>Pieces of a stream\<close>

lemma getlines_no_delim [str_simps]:
  "d \<notin> set s \<Longrightarrow> s \<noteq> [] \<Longrightarrow> getlines d s = [s]"
proof (cases s)
  case (Cons c cs)
  assume "d \<notin> set s"
  then have "takeWhile (\<lambda>x. x \<noteq> d) s = s" "dropWhile (\<lambda>x. x \<noteq> d) s = []"
    by (auto simp: takeWhile_eq_all_conv)
  with Cons show ?thesis by simp
qed simp

lemma getlines_append [str_simps]:
  assumes "d \<notin> set a"
  shows "getlines d (a @ d # r) = a # getlines d r"
proof -
  have *: "takeWhile (\<lambda>x. x \<noteq> d) (a @ d # r) = a" "dropWhile (\<lambda>x. x \<noteq> d) (a @ d # r) = d # r"
    using assms by (induction a) auto
  show ?thesis
  proof (cases "a @ d # r")
    case (Cons c cs)
    then show ?thesis using * by (metis (no_types, lifting) getlines.simps(2) list.case(2))
  qed simp
qed

lemma getlines_join [str_simps]:
  "\<forall>s \<in> set ss. d \<notin> set s \<and> s \<noteq> [] \<Longrightarrow> getlines d (join d ss) = ss"
  by (induction d ss rule: join.induct) (auto simp: getlines_append getlines_no_delim)

lemma read_word_word [str_simps]:
  assumes "w \<noteq> []" "\<forall>c \<in> set w. \<not> is_space c" "is_space sp"
  shows "read_word (w @ sp # r) = (w, sp # r)"
  using assms by (cases w) (auto simp: read_word_def takeWhile_append2 dropWhile_append2)

lemma read_word_last [str_simps]:
  assumes "w \<noteq> []" "\<forall>c \<in> set w. \<not> is_space c"
  shows "read_word w = (w, [])"
  using assms by (cases w) (auto simp: read_word_def takeWhile_eq_all_conv)

lemma read_word_skip [str_simps]: "is_space sp \<Longrightarrow> read_word (sp # r) = read_word r"
  by (simp add: read_word_def)

lemma read_word_no_space: "fst (read_word s) = w \<Longrightarrow> c \<in> set w \<Longrightarrow> \<not> is_space c"
  by (auto simp: read_word_def Let_def dest: set_takeWhileD)

subsection \<open>Numbers\<close>

lemma of_char_digit_char: "d < 10 \<Longrightarrow> of_char (digit_char d) = 48 + d"
  by (simp add: digit_char_def)

lemma digit_char_simps [simp]:
  assumes "d < 10"
  shows "is_digit (digit_char d)" "digit_val (digit_char d) = d" "\<not> is_space (digit_char d)"
  using assms by (simp_all add: is_digit_def digit_val_def is_space_def of_char_digit_char)

lemma digit_char_eval [simp]:
  "digit_char 0 = CHR ''0''" "digit_char (Suc 0) = CHR ''1''" "digit_char 1 = CHR ''1''"
  "digit_char 2 = CHR ''2''" "digit_char 3 = CHR ''3''" "digit_char 4 = CHR ''4''"
  "digit_char 5 = CHR ''5''" "digit_char 6 = CHR ''6''" "digit_char 7 = CHR ''7''"
  "digit_char 8 = CHR ''8''" "digit_char 9 = CHR ''9''"
  by (simp_all add: digit_char_def char_of_def bit_0)

lemma digit_not_sign: "is_digit c \<Longrightarrow> c \<noteq> CHR ''-'' \<and> c \<noteq> CHR ''+''"
  by (auto simp: is_digit_def)

lemma digits_val_snoc [simp]: "digits_val (ds @ [c]) = 10 * digits_val ds + digit_val c"
  by (simp add: digits_val_def)

lemma nat_to_string_digits: "\<forall>c \<in> set (nat_to_string n). is_digit c"
proof (induction n rule: nat_to_string.induct)
  case (1 n)
  then show ?case by (subst nat_to_string.simps) auto
qed

lemma nat_to_string_nonempty [simp]: "nat_to_string n \<noteq> []"
  by (subst nat_to_string.simps) simp

lemma digits_val_nat_to_string [simp]: "digits_val (nat_to_string n) = n"
proof (induction n rule: nat_to_string.induct)
  case (1 n)
  show ?case
  proof (cases "n < 10")
    case True
    then show ?thesis by (subst nat_to_string.simps) (simp add: digits_val_def)
  next
    case False
    with 1 show ?thesis by (subst nat_to_string.simps) simp
  qed
qed

lemma takeWhile_digits: "takeWhile is_digit (nat_to_string n) = nat_to_string n"
  using nat_to_string_digits by (simp add: takeWhile_eq_all_conv)

lemma digit_not_space: "is_digit c \<Longrightarrow> \<not> is_space c"
  by (auto simp: is_digit_def is_space_def)

lemma dropWhile_space_digits: "dropWhile is_space (nat_to_string n) = nat_to_string n"
  using nat_to_string_digits [of n]
  by (cases "nat_to_string n") (auto simp: digit_not_space)

lemma split_sign_digits: "split_sign (nat_to_string n) = (False, nat_to_string n)"
  using nat_to_string_digits [of n]
  by (cases "nat_to_string n") (auto simp: split_sign_def digit_not_sign)

lemma minus_not_space: "\<not> is_space (CHR ''-'')"
  by (simp add: is_space_def)

lemma stoi_to_string [simp]:
  assumes "INT_MIN \<le> i" "i \<le> INT_MAX"
  shows "stoi (to_string i) = Inr i"
proof (cases "i < 0")
  case True
  have "split_sign (CHR ''-'' # nat_to_string (nat (- i))) = (True, nat_to_string (nat (- i)))"
    by (simp add: split_sign_def)
  with True assms show ?thesis
    by (simp add: stoi_def to_string_def minus_not_space takeWhile_digits)
next
  case False
  with assms show ?thesis
    by (simp add: stoi_def to_string_def dropWhile_space_digits split_sign_digits takeWhile_digits)
qed

lemma wrap32_id: "INT_MIN \<le> i \<Longrightarrow> i \<le> INT_MAX \<Longrightarrow> wrap32 i = i"
  by (simp add: wrap32_def INT_MIN_def INT_MAX_def)

lemma wrap32_range: "INT_MIN \<le> wrap32 i \<and> wrap32 i \<le> INT_MAX"
  using pos_mod_bound [of 4294967296 "i + 2147483648"] pos_mod_sign [of 4294967296 "i + 2147483648"]
  by (simp add: wrap32_def INT_MIN_def INT_MAX_def)

lemma stoi_range: "stoi s = Inr v \<Longrightarrow> INT_MIN \<le> v \<and> v \<le> INT_MAX"
  by (auto simp: stoi_def Let_def split: prod.splits if_splits)

lemma length_hex2 [simp]: "length (hex2 b) = 2"
  by (simp add: hex2_def)

subsection \<open>Association lists\<close>

lemma map_of_AList_update [map_simps]: "map_of (AList.update k v al) = (map_of al)(k \<mapsto> v)"
  by (rule update_conv')

lemma distinct_AList_update [map_simps]:
  "distinct (map fst al) \<Longrightarrow> distinct (map fst (AList.update k v al))"
  by (rule distinct_update)

end
