(* ===== verification/Lru_Cache.thy ===== *)
theory Lru_Cache
  imports Prelude
begin

text \<open>
  The LRU cache, \<open>src/cache/lru_cache.h\<close>.

  The class keeps a doubly linked list of key-value nodes, most recently used first, and a
  hash table from keys to list iterators. A list iterator is the address of a node and stays
  valid while the node is spliced, so the model keeps node addresses: \<open>m_items\<close> is the order of
  the addresses, \<open>m_nodes\<close> what they hold, \<open>m_index\<close> the hash table and \<open>m_alloc\<close> the next
  address the allocator hands out. Every method runs under the cache's mutex and is one step.

  The interface that the cache adapter relies on is the locale \<open>kv_cache\<close>; its interpretation
  \<open>lru\<close> discharges the laws for this model. The refinement lemmas relate every operation to an
  operation on the plain recency list (\<open>spec_put\<close>, \<open>spec_get\<close>, \<open>spec_erase\<close>).
\<close>

section \<open>Model\<close>

record ('k, 'v) lru =
  m_capacity :: nat
  m_items :: "nat list"
  m_nodes :: "nat \<rightharpoonup> 'k \<times> 'v"
  m_index :: "'k \<rightharpoonup> nat"
  m_alloc :: nat

definition lru_init :: "nat \<Rightarrow> ('k, 'v) lru" where
  "lru_init cap = \<lparr>m_capacity = cap, m_items = [], m_nodes = Map.empty, m_index = Map.empty,
                   m_alloc = 0\<rparr>"

text \<open>\<open>m_items.splice(m_items.begin(), m_items, it)\<close>\<close>

definition lru_splice_front :: "nat \<Rightarrow> ('k, 'v) lru \<Rightarrow> ('k, 'v) lru" where
  "lru_splice_front n c = c\<lparr>m_items := n # remove1 n (m_items c)\<rparr>"

text \<open>Removal of the last node, from the table first and then from the list.\<close>

definition lru_evict :: "('k, 'v) lru \<Rightarrow> ('k, 'v) lru" where
  "lru_evict c =
     (let n = last (m_items c)
      in case m_nodes c n of
           None \<Rightarrow> c
         | Some kv \<Rightarrow> c\<lparr>m_index := (m_index c)(fst kv := None),
                        m_items := butlast (m_items c),
                        m_nodes := (m_nodes c)(n := None)\<rparr>)"

text \<open>\<open>emplace_front\<close> on the list, then \<open>emplace\<close> in the table, which keeps an entry that is
  already there.\<close>

definition lru_emplace :: "'k \<Rightarrow> 'v \<Rightarrow> ('k, 'v) lru \<Rightarrow> ('k, 'v) lru" where
  "lru_emplace k v c =
     (let n = m_alloc c
      in c\<lparr>m_items := n # m_items c,
           m_nodes := (m_nodes c)(n \<mapsto> (k, v)),
           m_index := (if m_index c k = None then (m_index c)(k \<mapsto> n) else m_index c),
           m_alloc := Suc n\<rparr>)"

definition lru_put :: "('k, 'v) lru \<Rightarrow> 'k \<Rightarrow> 'v \<Rightarrow> ('k, 'v) lru" where
  "lru_put c k v =
     (if m_capacity c = 0 then c
      else case m_index c k of
        Some n \<Rightarrow>
          lru_splice_front n
            (c\<lparr>m_nodes := (m_nodes c)(n := map_option (\<lambda>kv. (fst kv, v)) (m_nodes c n))\<rparr>)
      | None \<Rightarrow>
          lru_emplace k v (if m_capacity c \<le> length (m_items c) then lru_evict c else c))"

text \<open>\<open>get(key, value_out)\<close>: the result \<open>Some v\<close> is \<open>true\<close> with \<open>value_out\<close> set to \<open>v\<close>, the
  result \<open>None\<close> is \<open>false\<close> with \<open>value_out\<close> untouched.\<close>

definition lru_get :: "('k, 'v) lru \<Rightarrow> 'k \<Rightarrow> 'v option \<times> ('k, 'v) lru" where
  "lru_get c k =
     (case m_index c k of
        None \<Rightarrow> (None, c)
      | Some n \<Rightarrow> let c' = lru_splice_front n c in (map_option snd (m_nodes c' n), c'))"

definition lru_contains :: "('k, 'v) lru \<Rightarrow> 'k \<Rightarrow> bool" where
  "lru_contains c k \<longleftrightarrow> m_index c k \<noteq> None"

definition lru_erase :: "('k, 'v) lru \<Rightarrow> 'k \<Rightarrow> ('k, 'v) lru" where
  "lru_erase c k =
     (case m_index c k of
        None \<Rightarrow> c
      | Some n \<Rightarrow> c\<lparr>m_items := remove1 n (m_items c),
                    m_nodes := (m_nodes c)(n := None),
                    m_index := (m_index c)(k := None)\<rparr>)"

definition lru_clear :: "('k, 'v) lru \<Rightarrow> ('k, 'v) lru" where
  "lru_clear c = c\<lparr>m_items := [], m_nodes := Map.empty, m_index := Map.empty\<rparr>"

definition lru_size :: "('k, 'v) lru \<Rightarrow> nat" where
  "lru_size c = length (m_items c)"

lemmas lru_defs =
  lru_init_def lru_splice_front_def lru_evict_def lru_emplace_def lru_put_def lru_get_def
  lru_contains_def lru_erase_def lru_clear_def lru_size_def

subsection \<open>Sequences of calls\<close>

datatype ('k, 'v) lru_op = Put 'k 'v | Get 'k | Erase 'k | Clear

fun lru_step :: "('k, 'v) lru \<Rightarrow> ('k, 'v) lru_op \<Rightarrow> ('k, 'v) lru" where
  "lru_step c (Put k v) = lru_put c k v"
| "lru_step c (Get k) = snd (lru_get c k)"
| "lru_step c (Erase k) = lru_erase c k"
| "lru_step c Clear = lru_clear c"

definition lru_run :: "('k, 'v) lru_op list \<Rightarrow> ('k, 'v) lru \<Rightarrow> ('k, 'v) lru" where
  "lru_run ops c = foldl lru_step c ops"

section \<open>Specification: the recency list\<close>

type_synonym ('k, 'v) recency = "('k \<times> 'v) list"

definition drop_key :: "'k \<Rightarrow> ('k, 'v) recency \<Rightarrow> ('k, 'v) recency" where
  "drop_key k xs = filter (\<lambda>kv. fst kv \<noteq> k) xs"

definition spec_put :: "nat \<Rightarrow> 'k \<Rightarrow> 'v \<Rightarrow> ('k, 'v) recency \<Rightarrow> ('k, 'v) recency" where
  "spec_put cap k v xs =
     (if cap = 0 then xs
      else if map_of xs k = None then (k, v) # take (cap - 1) xs
      else (k, v) # drop_key k xs)"

definition spec_get :: "'k \<Rightarrow> ('k, 'v) recency \<Rightarrow> ('k, 'v) recency" where
  "spec_get k xs = (case map_of xs k of None \<Rightarrow> xs | Some v \<Rightarrow> (k, v) # drop_key k xs)"

fun spec_step :: "nat \<Rightarrow> ('k, 'v) recency \<Rightarrow> ('k, 'v) lru_op \<Rightarrow> ('k, 'v) recency" where
  "spec_step cap xs (Put k v) = spec_put cap k v xs"
| "spec_step cap xs (Get k) = spec_get k xs"
| "spec_step cap xs (Erase k) = drop_key k xs"
| "spec_step cap xs Clear = []"

text \<open>Abstraction and invariant.\<close>

definition lru_list :: "('k, 'v) lru \<Rightarrow> ('k, 'v) recency" where
  "lru_list c = map (\<lambda>n. the (m_nodes c n)) (m_items c)"

definition lru_lookup :: "('k, 'v) lru \<Rightarrow> 'k \<rightharpoonup> 'v" where
  "lru_lookup c = map_of (lru_list c)"

definition lru_inv :: "('k, 'v) lru \<Rightarrow> bool" where
  "lru_inv c \<longleftrightarrow>
     distinct (m_items c) \<and>
     dom (m_nodes c) = set (m_items c) \<and>
     (\<forall>k n. m_index c k = Some n \<longleftrightarrow> (\<exists>v. m_nodes c n = Some (k, v))) \<and>
     (\<forall>n \<in> set (m_items c). n < m_alloc c) \<and>
     length (m_items c) \<le> m_capacity c"

section \<open>The invariant\<close>

lemma lru_invD:
  assumes "lru_inv c"
  shows "distinct (m_items c)"
    and "dom (m_nodes c) = set (m_items c)"
    and "m_index c k = Some n \<longleftrightarrow> (\<exists>v. m_nodes c n = Some (k, v))"
    and "n \<in> set (m_items c) \<Longrightarrow> n < m_alloc c"
    and "length (m_items c) \<le> m_capacity c"
  using assms by (auto simp: lru_inv_def)

lemma lru_inv_nodes_alloc: "lru_inv c \<Longrightarrow> m_nodes c (m_alloc c) = None"
  by (metis domIff lru_invD(2,4) nat_less_le)

lemma lru_inv_index_unique:
  assumes "lru_inv c" "m_nodes c n = Some (k, v)" "m_nodes c n' = Some (k, v')"
  shows "n = n'"
  using assms lru_invD(3) [OF assms(1)] by (metis option.inject)

lemma lru_inv_index_node: "lru_inv c \<Longrightarrow> m_index c k = Some n \<Longrightarrow> \<exists>v. m_nodes c n = Some (k, v)"
  by (simp add: lru_invD(3))

lemma lru_inv_index_items: "lru_inv c \<Longrightarrow> m_index c k = Some n \<Longrightarrow> n \<in> set (m_items c)"
  using lru_invD(2,3) by fastforce

lemma lru_inv_init [simp]: "lru_inv (lru_init cap)"
  by (simp add: lru_inv_def lru_init_def)

lemma lru_init_capacity [simp]: "m_capacity (lru_init cap) = cap"
  by (simp add: lru_init_def)

lemma lru_splice_simps [simp]:
  "m_capacity (lru_splice_front n c) = m_capacity c"
  "m_nodes (lru_splice_front n c) = m_nodes c"
  "m_index (lru_splice_front n c) = m_index c"
  "m_alloc (lru_splice_front n c) = m_alloc c"
  "m_items (lru_splice_front n c) = n # remove1 n (m_items c)"
  by (simp_all add: lru_splice_front_def)

lemma lru_inv_splice:
  assumes "lru_inv c" "n \<in> set (m_items c)"
  shows "lru_inv (lru_splice_front n c)"
proof -
  have "length (n # remove1 n (m_items c)) = length (m_items c)"
    using assms(2) length_pos_if_in_set [OF assms(2)] by (simp add: length_remove1)
  with assms show ?thesis
    by (auto simp: lru_inv_def)
qed

lemma lru_inv_set_value:
  assumes "lru_inv c" "m_index c k = Some n"
  shows "lru_inv (c\<lparr>m_nodes := (m_nodes c)(n := map_option (\<lambda>kv. (fst kv, v)) (m_nodes c n))\<rparr>)"
  using assms lru_invD(3) [OF assms(1)] by (auto simp: lru_inv_def)

lemma lru_inv_erase:
  assumes "lru_inv c"
  shows "lru_inv (lru_erase c k)"
proof (cases "m_index c k")
  case None
  with assms show ?thesis by (simp add: lru_erase_def)
next
  case (Some n)
  with assms obtain v0 where nv: "m_nodes c n = Some (k, v0)" by (auto simp: lru_invD(3))
  from Some have eq: "lru_erase c k = c\<lparr>m_items := remove1 n (m_items c), m_nodes := (m_nodes c)(n := None),
      m_index := (m_index c)(k := None)\<rparr>"
    by (simp add: lru_erase_def)
  have idx: "((m_index c)(k := None)) k' = Some n' \<longleftrightarrow>
      (\<exists>v. ((m_nodes c)(n := None)) n' = Some (k', v))" for k' n'
    using nv by (auto simp: lru_invD(3) [OF assms] dest: lru_inv_index_unique [OF assms nv])
  show ?thesis
    unfolding lru_inv_def eq using assms idx
    by (auto simp: lru_invD length_remove1 dest: in_set_remove1 lru_invD(5))
qed

lemma lru_last_node:
  assumes "lru_inv c" "m_items c \<noteq> []"
  obtains k v where "m_nodes c (last (m_items c)) = Some (k, v)" "m_index c k = Some (last (m_items c))"
proof -
  have "last (m_items c) \<in> dom (m_nodes c)"
    using assms lru_invD(2) by (metis last_in_set)
  then obtain k v where "m_nodes c (last (m_items c)) = Some (k, v)" by auto
  moreover from this have "m_index c k = Some (last (m_items c))"
    by (simp add: lru_invD(3) [OF assms(1)])
  ultimately show thesis by (rule that)
qed

lemma remove1_last_distinct: "distinct xs \<Longrightarrow> xs \<noteq> [] \<Longrightarrow> remove1 (last xs) xs = butlast xs"
  by (induction xs) auto

text \<open>Evicting is erasing the key of the last node.\<close>

lemma lru_evict_eq_erase:
  assumes "lru_inv c" "m_items c \<noteq> []"
  obtains k v where "m_nodes c (last (m_items c)) = Some (k, v)" "lru_evict c = lru_erase c k"
proof -
  from lru_last_node [OF assms] obtain k v where
    nv: "m_nodes c (last (m_items c)) = Some (k, v)" "m_index c k = Some (last (m_items c))" .
  moreover have "remove1 (last (m_items c)) (m_items c) = butlast (m_items c)"
    using assms by (simp add: lru_invD(1) remove1_last_distinct)
  ultimately have "lru_evict c = lru_erase c k"
    by (simp add: lru_evict_def lru_erase_def)
  with nv(1) that show thesis by blast
qed

lemma lru_inv_evict: "lru_inv c \<Longrightarrow> m_items c \<noteq> [] \<Longrightarrow> lru_inv (lru_evict c)"
  by (metis lru_evict_eq_erase lru_inv_erase)

lemma lru_inv_emplace:
  assumes "lru_inv c" "m_index c k = None" "length (m_items c) < m_capacity c"
  shows "lru_inv (lru_emplace k v c)"
proof -
  have "m_alloc c \<notin> set (m_items c)" using assms(1) lru_invD(4) by blast
  moreover have "\<nexists>n v. m_nodes c n = Some (k, v)"
    using assms(1,2) lru_invD(3) by (metis option.distinct(1))
  moreover have "m_nodes c (m_alloc c) = None" using assms(1) by (rule lru_inv_nodes_alloc)
  ultimately show ?thesis
    using assms by (auto simp: lru_inv_def lru_emplace_def Let_def less_Suc_eq)
qed

lemma lru_evict_capacity [simp]: "m_capacity (lru_evict c) = m_capacity c"
  by (simp add: lru_evict_def Let_def split: option.splits)

lemma length_lru_evict:
  assumes "lru_inv c" "m_items c \<noteq> []"
  shows "length (m_items (lru_evict c)) = length (m_items c) - 1"
proof -
  from lru_last_node [OF assms] obtain k v where "m_nodes c (last (m_items c)) = Some (k, v)" .
  then show ?thesis by (simp add: lru_evict_def)
qed

lemma lru_evict_index_None:
  "m_index c k = None \<Longrightarrow> m_index (lru_evict c) k = None"
  by (auto simp: lru_evict_def Let_def split: option.splits)

lemma lru_inv_make_room:
  assumes "lru_inv c" "m_capacity c \<noteq> 0"
  defines "c' \<equiv> if m_capacity c \<le> length (m_items c) then lru_evict c else c"
  shows "lru_inv c' \<and> length (m_items c') < m_capacity c'"
proof (cases "m_capacity c \<le> length (m_items c)")
  case True
  with assms(2) have ne: "m_items c \<noteq> []" by auto
  have "length (m_items (lru_evict c)) < m_capacity c"
    using length_lru_evict [OF assms(1) ne] lru_invD(5) [OF assms(1)] assms(2) by simp
  with True show ?thesis
    using lru_inv_evict [OF assms(1) ne] by (simp add: c'_def)
qed (use assms in \<open>simp add: c'_def\<close>)

lemma lru_inv_put:
  assumes "lru_inv c"
  shows "lru_inv (lru_put c k v)"
proof (cases "m_capacity c = 0")
  case True
  with assms show ?thesis by (simp add: lru_put_def)
next
  case False
  show ?thesis
  proof (cases "m_index c k")
    case None
    with False assms lru_inv_make_room [OF assms False] show ?thesis
      by (auto simp: lru_put_def intro!: lru_inv_emplace lru_evict_index_None)
  next
    case (Some n)
    with False assms show ?thesis
      by (auto simp: lru_put_def lru_inv_index_items intro!: lru_inv_splice lru_inv_set_value)
  qed
qed

lemma lru_inv_get: "lru_inv c \<Longrightarrow> lru_inv (snd (lru_get c k))"
  by (auto simp: lru_get_def Let_def lru_inv_index_items lru_inv_splice split: option.splits)

lemma lru_inv_clear: "lru_inv c \<Longrightarrow> lru_inv (lru_clear c)"
  by (simp add: lru_inv_def lru_clear_def)

lemmas lru_inv_ops [simp, intro] =
  lru_inv_put lru_inv_get lru_inv_erase lru_inv_clear

lemma lru_capacity_ops [simp]:
  "m_capacity (lru_put c k v) = m_capacity c"
  "m_capacity (snd (lru_get c k)) = m_capacity c"
  "m_capacity (lru_erase c k) = m_capacity c"
  "m_capacity (lru_clear c) = m_capacity c"
  by (auto simp: lru_put_def lru_emplace_def lru_get_def lru_erase_def lru_clear_def Let_def
      split: option.splits)

section \<open>Refinement\<close>

lemma distinct_lru_keys:
  assumes "lru_inv c"
  shows "distinct (map fst (lru_list c))"
proof -
  have "inj_on (\<lambda>n. fst (the (m_nodes c n))) (set (m_items c))"
  proof (rule inj_onI)
    fix x y
    assume "x \<in> set (m_items c)" "y \<in> set (m_items c)"
      and eq: "fst (the (m_nodes c x)) = fst (the (m_nodes c y))"
    then obtain p q where "m_nodes c x = Some p" "m_nodes c y = Some q"
      using assms lru_invD(2) by blast
    with eq assms show "x = y" by (metis lru_inv_index_unique option.sel prod.collapse)
  qed
  with assms show ?thesis
    by (simp add: lru_list_def lru_invD(1) distinct_map o_def)
qed

lemma map_of_lru_list:
  assumes "lru_inv c"
  shows "map_of (lru_list c) k = (case m_index c k of None \<Rightarrow> None | Some n \<Rightarrow> map_option snd (m_nodes c n))"
proof -
  have keys: "distinct (map fst (lru_list c))" using assms by (rule distinct_lru_keys)
  show ?thesis
  proof (cases "m_index c k")
    case None
    have "k \<notin> fst ` set (lru_list c)"
    proof
      assume "k \<in> fst ` set (lru_list c)"
      then obtain n where "n \<in> set (m_items c)" "fst (the (m_nodes c n)) = k"
        by (auto simp: lru_list_def)
      with assms have "m_index c k = Some n"
        using lru_invD(2,3) by (metis domD option.sel prod.collapse)
      with None show False by simp
    qed
    with None show ?thesis by (simp add: map_of_eq_None_iff)
  next
    case (Some n)
    with assms obtain v where nv: "m_nodes c n = Some (k, v)" by (auto simp: lru_invD(3))
    have "n \<in> set (m_items c)" using assms Some by (rule lru_inv_index_items)
    with nv have "(k, v) \<in> set (lru_list c)" by (force simp: lru_list_def)
    with keys Some nv show ?thesis by simp
  qed
qed

lemma lru_list_remove:
  assumes "lru_inv c" "m_index c k = Some n"
  shows "map (\<lambda>x. the (m_nodes c x)) (remove1 n (m_items c)) = drop_key k (lru_list c)"
proof -
  have "x \<noteq> n \<longleftrightarrow> fst (the (m_nodes c x)) \<noteq> k" if "x \<in> set (m_items c)" for x
  proof -
    from that assms(1) obtain p where "m_nodes c x = Some p" using lru_invD(2) by blast
    with assms show ?thesis
      using lru_invD(3) [OF assms(1)] by (metis option.inject option.sel prod.collapse fst_conv)
  qed
  then have "filter (\<lambda>x. x \<noteq> n) (m_items c) = filter (\<lambda>x. fst (the (m_nodes c x)) \<noteq> k) (m_items c)"
    by (rule filter_cong [OF refl])
  with assms(1) show ?thesis
    by (simp add: lru_list_def drop_key_def filter_map o_def lru_invD(1)
        distinct_remove1_removeAll removeAll_filter_not_eq eq_commute)
qed

lemma lru_list_erase:
  assumes "lru_inv c"
  shows "lru_list (lru_erase c k) = drop_key k (lru_list c)"
proof (cases "m_index c k")
  case None
  with map_of_lru_list [OF assms] have "map_of (lru_list c) k = None" by simp
  then have "\<forall>kv \<in> set (lru_list c). fst kv \<noteq> k" by (auto simp: map_of_eq_None_iff)
  then have "drop_key k (lru_list c) = lru_list c" by (simp add: drop_key_def)
  with None show ?thesis by (simp add: lru_erase_def)
next
  case (Some n)
  have "n \<notin> set (remove1 n (m_items c))" using lru_invD(1) [OF assms] by simp
  then have "map (\<lambda>x. the (((m_nodes c)(n := None)) x)) (remove1 n (m_items c))
      = map (\<lambda>x. the (m_nodes c x)) (remove1 n (m_items c))"
    by (intro map_cong refl) auto
  with Some lru_list_remove [OF assms Some] show ?thesis
    by (simp add: lru_erase_def lru_list_def)
qed

lemma lru_list_evict:
  assumes "lru_inv c" "m_items c \<noteq> []"
  shows "lru_list (lru_evict c) = butlast (lru_list c)"
proof -
  from lru_last_node [OF assms] obtain k v where
    nv: "m_nodes c (last (m_items c)) = Some (k, v)" by blast
  have "last (m_items c) \<notin> set (butlast (m_items c))"
    using lru_invD(1) [OF assms(1)] assms(2)
    by (metis append_butlast_last_id distinct_append disjoint_insert(1) list.simps(15) Int_iff
        empty_iff list.set_intros(1))
  then have "map (\<lambda>x. the (((m_nodes c)(last (m_items c) := None)) x)) (butlast (m_items c))
      = map (\<lambda>x. the (m_nodes c x)) (butlast (m_items c))"
    by (intro map_cong refl) auto
  with nv show ?thesis by (simp add: lru_evict_def lru_list_def map_butlast)
qed

lemma lru_list_emplace:
  assumes "lru_inv c"
  shows "lru_list (lru_emplace k v c) = (k, v) # lru_list c"
proof -
  have "m_alloc c \<notin> set (m_items c)" using assms lru_invD(4) by blast
  then show ?thesis by (auto simp: lru_list_def lru_emplace_def Let_def intro!: map_cong)
qed

lemma length_lru_list: "length (lru_list c) = length (m_items c)"
  by (simp add: lru_list_def)

lemma lru_list_put:
  assumes "lru_inv c"
  shows "lru_list (lru_put c k v) = spec_put (m_capacity c) k v (lru_list c)"
proof (cases "m_capacity c = 0")
  case True
  then show ?thesis by (simp add: lru_put_def spec_put_def)
next
  case cap: False
  show ?thesis
  proof (cases "m_index c k")
    case None
    with map_of_lru_list [OF assms] have miss: "map_of (lru_list c) k = None" by simp
    show ?thesis
    proof (cases "m_capacity c \<le> length (m_items c)")
      case True
      with cap have ne: "m_items c \<noteq> []" by auto
      have "length (lru_list c) = m_capacity c"
        using True lru_invD(5) [OF assms] by (simp add: length_lru_list)
      with True None cap ne miss assms show ?thesis
        by (simp add: lru_put_def spec_put_def lru_list_emplace lru_inv_evict lru_list_evict
            butlast_conv_take)
    next
      case False
      with None cap miss assms show ?thesis
        by (simp add: lru_put_def spec_put_def lru_list_emplace length_lru_list)
    qed
  next
    case (Some n)
    then obtain v0 where nv: "m_nodes c n = Some (k, v0)" using assms by (auto simp: lru_invD(3))
    with Some map_of_lru_list [OF assms] have hit: "map_of (lru_list c) k = Some v0" by simp
    have "n \<notin> set (remove1 n (m_items c))" using lru_invD(1) [OF assms] by simp
    then have "map (\<lambda>x. the (((m_nodes c)(n \<mapsto> (k, v))) x)) (remove1 n (m_items c))
        = map (\<lambda>x. the (m_nodes c x)) (remove1 n (m_items c))"
      by (intro map_cong refl) auto
    with Some cap nv hit lru_list_remove [OF assms Some] show ?thesis
      by (simp add: lru_put_def spec_put_def lru_list_def)
  qed
qed

lemma lru_list_get:
  assumes "lru_inv c"
  shows "lru_list (snd (lru_get c k)) = spec_get k (lru_list c)"
    and "fst (lru_get c k) = map_of (lru_list c) k"
proof -
  have "lru_list (snd (lru_get c k)) = spec_get k (lru_list c) \<and>
        fst (lru_get c k) = map_of (lru_list c) k"
  proof (cases "m_index c k")
    case None
    with assms show ?thesis by (simp add: lru_get_def spec_get_def map_of_lru_list)
  next
    case (Some n)
    then obtain v where nv: "m_nodes c n = Some (k, v)" using assms by (auto simp: lru_invD(3))
    with Some assms lru_list_remove [OF assms Some] show ?thesis
      by (simp add: lru_get_def spec_get_def map_of_lru_list) (simp add: lru_list_def)
  qed
  then show "lru_list (snd (lru_get c k)) = spec_get k (lru_list c)"
    and "fst (lru_get c k) = map_of (lru_list c) k" by blast+
qed

lemma lru_list_clear: "lru_list (lru_clear c) = []"
  by (simp add: lru_list_def lru_clear_def)

lemmas lru_refine = lru_list_put lru_list_get lru_list_erase lru_list_clear

lemma lru_step_refines:
  assumes "lru_inv c"
  shows "lru_list (lru_step c opn) = spec_step (m_capacity c) (lru_list c) opn"
    and "lru_inv (lru_step c opn)" and "m_capacity (lru_step c opn) = m_capacity c"
  using assms by (cases opn; simp add: lru_refine)+

lemma lru_run_refines_from:
  "lru_inv c \<Longrightarrow> lru_inv (lru_run ops c) \<and>
     lru_list (lru_run ops c) = foldl (spec_step (m_capacity c)) (lru_list c) ops"
  by (induction ops arbitrary: c) (auto simp: lru_run_def lru_step_refines)

section \<open>The interface of a bounded key-value cache\<close>

lemma map_of_drop_key: "map_of (drop_key k xs) = (map_of xs)(k := None)"
  by (induction xs) (auto simp: drop_key_def fun_eq_iff)

lemma map_of_take_le: "distinct (map fst xs) \<Longrightarrow> map_of (take n xs) \<subseteq>\<^sub>m map_of xs"
  by (metis append_take_drop_id distinct_append map_append map_le_def map_of_append
      map_add_comm map_add_dom_app_simps(1) dom_map_of_conv_image_fst list.set_map)

locale kv_cache =
  fixes inv :: "'c \<Rightarrow> bool"
    and lookup :: "'c \<Rightarrow> 'k \<rightharpoonup> 'v"
    and stores :: "'c \<Rightarrow> bool"
    and put :: "'c \<Rightarrow> 'k \<Rightarrow> 'v \<Rightarrow> 'c"
    and get :: "'c \<Rightarrow> 'k \<Rightarrow> 'v option \<times> 'c"
    and erase :: "'c \<Rightarrow> 'k \<Rightarrow> 'c"
    and contains :: "'c \<Rightarrow> 'k \<Rightarrow> bool"
    and clear :: "'c \<Rightarrow> 'c"
  assumes inv_put: "inv c \<Longrightarrow> inv (put c k v)"
    and inv_get: "inv c \<Longrightarrow> inv (snd (get c k))"
    and inv_erase: "inv c \<Longrightarrow> inv (erase c k)"
    and inv_clear: "inv c \<Longrightarrow> inv (clear c)"
    and put_same: "inv c \<Longrightarrow> stores c \<Longrightarrow> lookup (put c k v) k = Some v"
    and put_le: "inv c \<Longrightarrow> lookup (put c k v) k' = Some w \<Longrightarrow>
                  (if k' = k \<and> stores c then w = v else lookup c k' = Some w)"
    and get_value: "inv c \<Longrightarrow> fst (get c k) = lookup c k"
    and get_same: "inv c \<Longrightarrow> lookup (snd (get c k)) = lookup c"
    and erase_lookup: "inv c \<Longrightarrow> lookup (erase c k) = (lookup c)(k := None)"
    and contains_iff: "inv c \<Longrightarrow> contains c k \<longleftrightarrow> lookup c k \<noteq> None"
    and clear_lookup: "inv c \<Longrightarrow> lookup (clear c) = Map.empty"
begin

text \<open>A cache in front of a store \<open>M\<close> is coherent when every entry it holds is the store's. The
  operations keep coherence when the store is updated alongside.\<close>

lemma coherent_put:
  assumes "inv c" "stores c" "lookup c \<subseteq>\<^sub>m M"
  shows "lookup (put c k v) \<subseteq>\<^sub>m M(k \<mapsto> v)"
proof (unfold map_le_def, intro ballI)
  fix a
  assume "a \<in> dom (lookup (put c k v))"
  then obtain w where w: "lookup (put c k v) a = Some w" by auto
  from put_le [OF assms(1) w] assms(2,3) w
  show "lookup (put c k v) a = (M(k \<mapsto> v)) a" by (auto simp: map_le_def dom_def split: if_splits)
qed

lemma coherent_backfill:
  assumes "inv c" "lookup c \<subseteq>\<^sub>m M" "M k = Some v"
  shows "lookup (put c k v) \<subseteq>\<^sub>m M"
proof (unfold map_le_def, intro ballI)
  fix a
  assume "a \<in> dom (lookup (put c k v))"
  then obtain w where w: "lookup (put c k v) a = Some w" by auto
  from put_le [OF assms(1) w] assms(2,3) w
  show "lookup (put c k v) a = M a" by (auto simp: map_le_def dom_def split: if_splits)
qed

lemma coherent_get: "inv c \<Longrightarrow> lookup c \<subseteq>\<^sub>m M \<Longrightarrow> lookup (snd (get c k)) \<subseteq>\<^sub>m M"
  by (simp add: get_same)

lemma coherent_erase: "inv c \<Longrightarrow> lookup c \<subseteq>\<^sub>m M \<Longrightarrow> lookup (erase c k) \<subseteq>\<^sub>m M(k := None)"
  by (auto simp: erase_lookup map_le_def)

lemma coherent_clear: "inv c \<Longrightarrow> lookup (clear c) \<subseteq>\<^sub>m M"
  by (simp add: clear_lookup)

lemma coherent_hit: "inv c \<Longrightarrow> lookup c \<subseteq>\<^sub>m M \<Longrightarrow> fst (get c k) = Some v \<Longrightarrow> M k = Some v"
  by (metis domI get_value map_le_def)

end

lemma lru_put_le:
  assumes "lru_inv c" "lru_lookup (lru_put c k v) k' = Some w"
  shows "if k' = k \<and> m_capacity c \<noteq> 0 then w = v else lru_lookup c k' = Some w"
proof (cases "m_capacity c = 0 \<or> map_of (lru_list c) k \<noteq> None")
  case True
  with assms show ?thesis
    by (auto simp: lru_lookup_def lru_list_put spec_put_def map_of_drop_key split: if_splits)
next
  case False
  have "distinct (map fst (lru_list c))" using assms(1) by (rule distinct_lru_keys)
  with False assms show ?thesis
    using map_of_take_le [of "lru_list c" "m_capacity c - 1"]
    by (auto simp: lru_lookup_def lru_list_put spec_put_def map_le_def dom_def split: if_splits)
qed

interpretation lru: kv_cache lru_inv lru_lookup "\<lambda>c. m_capacity c \<noteq> 0"
  lru_put lru_get lru_erase lru_contains lru_clear
proof
  fix c :: "('k, 'v) lru" and k k' v w
  assume inv: "lru_inv c"
  show "lru_inv (lru_put c k v)" "lru_inv (snd (lru_get c k))"
    "lru_inv (lru_erase c k)" "lru_inv (lru_clear c)"
    using inv by blast+
  show "m_capacity c \<noteq> 0 \<Longrightarrow> lru_lookup (lru_put c k v) k = Some v"
    using inv by (simp add: lru_lookup_def lru_list_put spec_put_def)
  show "lru_lookup (lru_put c k v) k' = Some w \<Longrightarrow>
      if k' = k \<and> m_capacity c \<noteq> 0 then w = v else lru_lookup c k' = Some w"
    by (rule lru_put_le [OF inv])
  show "fst (lru_get c k) = lru_lookup c k"
    using inv by (simp add: lru_lookup_def lru_list_get)
  show "lru_lookup (snd (lru_get c k)) = lru_lookup c"
    using inv by (auto simp: lru_lookup_def lru_list_get spec_get_def map_of_drop_key fun_eq_iff
        split: option.splits)
  show "lru_lookup (lru_erase c k) = (lru_lookup c)(k := None)"
    using inv by (simp add: lru_lookup_def lru_list_erase map_of_drop_key)
  show "lru_contains c k \<longleftrightarrow> lru_lookup c k \<noteq> None"
    using inv lru_inv_index_node [OF inv, of k]
    by (cases "m_index c k") (auto simp: lru_contains_def lru_lookup_def map_of_lru_list)
  show "lru_lookup (lru_clear c) = Map.empty"
    by (simp add: lru_lookup_def lru_list_clear)
qed

section \<open>Retention: what recency order guarantees\<close>

text \<open>\<open>recent S k v xs\<close>: the entry \<open>(k, v)\<close> is in the recency list and only keys of \<open>S\<close> were used
  after it.\<close>

definition recent :: "'k set \<Rightarrow> 'k \<Rightarrow> 'v \<Rightarrow> ('k, 'v) recency \<Rightarrow> bool" where
  "recent S k v xs \<longleftrightarrow>
     (\<exists>ys zs. xs = ys @ (k, v) # zs \<and> distinct (map fst xs) \<and> fst ` set ys \<subseteq> S)"

fun uses_only :: "'k set \<Rightarrow> 'k \<Rightarrow> ('k, 'v) lru_op \<Rightarrow> bool" where
  "uses_only S k (Put k' v') \<longleftrightarrow> k' \<in> S"
| "uses_only S k (Get k') \<longleftrightarrow> k' \<in> S"
| "uses_only S k (Erase k') \<longleftrightarrow> k' \<noteq> k"
| "uses_only S k Clear \<longleftrightarrow> False"

lemma recentI: "xs = ys @ (k, v) # zs \<Longrightarrow> distinct (map fst xs) \<Longrightarrow> fst ` set ys \<subseteq> S \<Longrightarrow> recent S k v xs"
  by (auto simp: recent_def)

lemma recent_map_of: "recent S k v xs \<Longrightarrow> map_of xs k = Some v"
  unfolding recent_def by (elim exE conjE) (rule map_of_is_SomeI, auto)

lemma drop_key_append: "drop_key k (xs @ ys) = drop_key k xs @ drop_key k ys"
  by (simp add: drop_key_def)

lemma set_drop_key: "set (drop_key k xs) = {kv \<in> set xs. fst kv \<noteq> k}"
  by (auto simp: drop_key_def)

lemma distinct_drop_key: "distinct (map fst xs) \<Longrightarrow> distinct (map fst (drop_key k xs))"
  by (simp add: drop_key_def distinct_map_filter)

lemma recent_drop_key:
  assumes "recent S k v xs" "k' \<noteq> k"
  shows "recent S k v (drop_key k' xs)"
proof -
  from assms(1) obtain ys zs where
    xs: "xs = ys @ (k, v) # zs" "distinct (map fst xs)" "fst ` set ys \<subseteq> S"
    by (auto simp: recent_def)
  show ?thesis
  proof (rule recentI)
    show "drop_key k' xs = drop_key k' ys @ (k, v) # drop_key k' zs"
      using xs(1) assms(2) by (simp add: drop_key_def)
    show "distinct (map fst (drop_key k' xs))" using xs(2) by (rule distinct_drop_key)
    show "fst ` set (drop_key k' ys) \<subseteq> S" using xs(3) by (auto simp: set_drop_key)
  qed
qed

lemma recent_use:
  assumes "recent S k v xs" "k' \<in> S" "k \<notin> S"
  shows "recent S k v ((k', v') # drop_key k' xs)"
proof -
  have "recent S k v (drop_key k' xs)" using assms by (metis recent_drop_key)
  then obtain ys zs where
    xs: "drop_key k' xs = ys @ (k, v) # zs" "distinct (map fst (drop_key k' xs))" "fst ` set ys \<subseteq> S"
    by (auto simp: recent_def)
  have "k' \<notin> fst ` set (drop_key k' xs)" by (auto simp: set_drop_key)
  with xs assms(2) show ?thesis
    by (intro recentI [where ys = "(k', v') # ys" and zs = zs]) auto
qed

lemma recent_insert:
  assumes "recent S k v xs" "k' \<in> S" "k \<notin> S" "map_of xs k' = None" "finite S" "card S < cap"
  shows "recent S k v ((k', v') # take (cap - 1) xs)"
proof -
  from assms(1) obtain ys zs where
    xs: "xs = ys @ (k, v) # zs" "distinct (map fst xs)" "fst ` set ys \<subseteq> S"
    by (auto simp: recent_def)
  have k': "k' \<notin> fst ` set xs" using assms(4) by (simp add: map_of_eq_None_iff)
  have "fst ` set ys \<subseteq> S - {k'}" using xs(1,3) k' by auto
  then have "card (fst ` set ys) \<le> card S - 1"
    using assms(2,5) by (metis card_Diff_singleton card_mono finite_Diff)
  moreover have "card (fst ` set ys) = length ys"
    using xs(1,2) by (metis distinct_append distinct_card length_map list.set_map map_append)
  moreover have "0 < card S" using assms(2,5) by (auto simp: card_gt_0_iff)
  ultimately have len: "length ys < cap - 1" using assms(6) by simp
  have "take (cap - 1) xs = ys @ (k, v) # take (cap - 2 - length ys) zs"
    using len xs(1) by (simp add: take_Cons' numeral_2_eq_2)
  moreover have "distinct (map fst ((k', v') # take (cap - 1) xs))"
    using xs(2) k' by (auto simp: take_map [symmetric] dest: in_set_takeD)
  ultimately show ?thesis
    using xs(3) assms(2)
    by (intro recentI [where ys = "(k', v') # ys" and zs = "take (cap - 2 - length ys) zs"]) auto
qed

lemma recent_step:
  assumes "recent S k v xs" "uses_only S k opn" "k \<notin> S" "finite S" "card S < cap"
  shows "recent S k v (spec_step cap xs opn)"
  using assms
  by (cases opn)
    (auto simp: spec_put_def spec_get_def recent_use recent_insert [unfolded One_nat_def] recent_drop_key split: option.splits)

lemma recent_run:
  assumes "recent S k v xs" "\<forall>opn \<in> set ops. uses_only S k opn" "k \<notin> S" "finite S" "card S < cap"
  shows "recent S k v (foldl (spec_step cap) xs ops)"
  using assms by (induction ops arbitrary: xs) (auto intro: recent_step)

lemma recent_put:
  assumes "lru_inv c" "m_capacity c \<noteq> 0"
  shows "recent S k v (lru_list (lru_put c k v))"
proof -
  have "lru_inv (lru_put c k v)" using assms(1) by blast
  then have "distinct (map fst (lru_list (lru_put c k v)))" by (rule distinct_lru_keys)
  moreover obtain zs where "lru_list (lru_put c k v) = [] @ (k, v) # zs"
    using assms by (cases "map_of (lru_list c) k = None") (auto simp: lru_list_put spec_put_def)
  ultimately show ?thesis by (auto simp: recent_def intro: exI [of _ "[]"])
qed

section \<open>Properties\<close>


text \<open>Least-recently-used retention: after \<open>put(k, v)\<close>, as long as the later calls use fewer
  distinct other keys than the capacity and neither erase \<open>k\<close> nor clear the cache, \<open>get(k)\<close> still
  returns \<open>v\<close>.\<close>

theorem lru_retention:
  assumes "lru_inv c" "finite S" "card S < m_capacity c" "k \<notin> S"
    and "\<forall>opn \<in> set ops. uses_only S k opn"
  shows "fst (lru_get (lru_run ops (lru_put c k v)) k) = Some v"
proof -
  have inv: "lru_inv (lru_put c k v)" using assms(1) by blast
  have "m_capacity c \<noteq> 0" using assms(3) by simp
  then have "recent S k v (lru_list (lru_put c k v))" using assms(1) by (intro recent_put)
  then have "recent S k v (lru_list (lru_run ops (lru_put c k v)))"
    using lru_run_refines_from [OF inv, of ops] recent_run [OF _ assms(5,4,2,3)] by simp
  moreover have "lru_inv (lru_run ops (lru_put c k v))"
    using lru_run_refines_from [OF inv] by blast
  ultimately show ?thesis using lru_list_get(2) recent_map_of by metis
qed

theorem lru_retention_witness:
  "fst (lru_get (lru_run [Put 2 ''b'', Get 3, Put 3 ''c'', Erase 2, Put 2 ''d'']
      (lru_put (lru_init 3) (1::nat) ''a'')) 1) = Some ''a''"
  by (rule lru_retention [where S = "{2, 3}"]) simp_all

end
