(* ===== verification/Redis_Client.thy ===== *)
theory Redis_Client
  imports Prelude
begin

text \<open>
  The Redis client, \<open>src/cache/redis_client.h\<close> and \<open>src/cache/redis_client.cpp\<close>.

  hiredis and the server behind it are not part of the repository: \<open>redisConnect\<close> is a
  \<open>connect_outcome\<close> given to the constructor, and \<open>redisCommand\<close> is a parameter
  \<open>srv :: redis_cmd \<Rightarrow> 'r \<Rightarrow> redis_reply option \<times> 'r\<close> of the operations, over a state \<open>'r\<close> of the
  other side; \<open>None\<close> is the null reply. What \<open>srv\<close> is documented to do is the predicate
  \<open>redis_server\<close>: the four commands read and write one table.
\<close>

section \<open>Model\<close>

datatype redis_cmd = SET string string | GET string | DEL string | EXISTS string

datatype redis_reply =
    Reply_Status string
  | Reply_String string
  | Reply_Nil
  | Reply_Integer int
  | Reply_Error string

datatype connect_outcome = Ctx_null | Ctx_err | Ctx_ok

type_synonym 'r redis_srv = "redis_cmd \<Rightarrow> 'r \<Rightarrow> redis_reply option \<times> 'r"

record redis_client =
  m_ctx :: bool
  m_connected :: bool

text \<open>The constructor: a context with an error is freed and set to null.\<close>

definition redis_connect :: "connect_outcome \<Rightarrow> redis_client" where
  "redis_connect out =
     (case out of
        Ctx_null \<Rightarrow> \<lparr>m_ctx = False, m_connected = False\<rparr>
      | Ctx_err \<Rightarrow> \<lparr>m_ctx = False, m_connected = False\<rparr>
      | Ctx_ok \<Rightarrow> \<lparr>m_ctx = True, m_connected = True\<rparr>)"

definition redis_destroy :: "redis_client \<Rightarrow> redis_client" where
  "redis_destroy c = (if m_ctx c then c\<lparr>m_ctx := False, m_connected := False\<rparr> else c)"

definition isConnected :: "redis_client \<Rightarrow> bool" where
  "isConnected c = m_connected c"

definition redis_set :: "'r redis_srv \<Rightarrow> redis_client \<Rightarrow> string \<Rightarrow> string \<Rightarrow> 'r \<Rightarrow> bool \<times> 'r" where
  "redis_set srv c key val r =
     (if \<not> m_connected c \<or> \<not> m_ctx c then (False, r)
      else case srv (SET (c_str key) (c_str val)) r of
        (None, r') \<Rightarrow> (False, r')
      | (Some rep, r') \<Rightarrow> (rep = Reply_Status ''OK'', r'))"

text \<open>\<open>get(key, value)\<close> with the caller's variable: success, the variable afterwards, the server.\<close>

definition redis_get :: "'r redis_srv \<Rightarrow> redis_client \<Rightarrow> string \<Rightarrow> string \<Rightarrow> 'r \<Rightarrow> bool \<times> string \<times> 'r" where
  "redis_get srv c key val r =
     (if \<not> m_connected c \<or> \<not> m_ctx c then (False, val, r)
      else case srv (GET (c_str key)) r of
        (None, r') \<Rightarrow> (False, val, r')
      | (Some rep, r') \<Rightarrow>
          (case rep of
             Reply_String s \<Rightarrow> (True, c_str s, r')
           | Reply_Nil \<Rightarrow> (False, [], r')
           | _ \<Rightarrow> (False, val, r')))"

definition redis_del :: "'r redis_srv \<Rightarrow> redis_client \<Rightarrow> string \<Rightarrow> 'r \<Rightarrow> bool \<times> 'r" where
  "redis_del srv c key r =
     (if \<not> m_connected c \<or> \<not> m_ctx c then (False, r)
      else case srv (DEL (c_str key)) r of
        (None, r') \<Rightarrow> (False, r')
      | (Some rep, r') \<Rightarrow> (case rep of Reply_Integer i \<Rightarrow> (0 < i, r') | _ \<Rightarrow> (False, r')))"

definition redis_exists :: "'r redis_srv \<Rightarrow> redis_client \<Rightarrow> string \<Rightarrow> 'r \<Rightarrow> bool \<times> 'r" where
  "redis_exists srv c key r =
     (if \<not> m_connected c \<or> \<not> m_ctx c then (False, r)
      else case srv (EXISTS (c_str key)) r of
        (None, r') \<Rightarrow> (False, r')
      | (Some rep, r') \<Rightarrow> (case rep of Reply_Integer i \<Rightarrow> (i = 1, r') | _ \<Rightarrow> (False, r')))"

lemmas redis_defs =
  redis_connect_def redis_destroy_def isConnected_def redis_set_def redis_get_def redis_del_def
  redis_exists_def

section \<open>A server that keeps one table\<close>

text \<open>The documented effect of the commands: \<open>tab\<close> reads the table out of the server's state.\<close>

definition redis_server :: "'r redis_srv \<Rightarrow> ('r \<Rightarrow> string \<rightharpoonup> string) \<Rightarrow> bool" where
  "redis_server srv tab \<longleftrightarrow>
     (\<forall>r k v. fst (srv (SET k v) r) = Some (Reply_Status ''OK'') \<and>
              tab (snd (srv (SET k v) r)) = (tab r)(k \<mapsto> v)) \<and>
     (\<forall>r k. fst (srv (GET k) r) =
              Some (case tab r k of None \<Rightarrow> Reply_Nil | Some v \<Rightarrow> Reply_String v) \<and>
            tab (snd (srv (GET k) r)) = tab r) \<and>
     (\<forall>r k. fst (srv (DEL k) r) = Some (Reply_Integer (if tab r k = None then 0 else 1)) \<and>
            tab (snd (srv (DEL k) r)) = (tab r)(k := None)) \<and>
     (\<forall>r k. fst (srv (EXISTS k) r) = Some (Reply_Integer (if tab r k = None then 0 else 1)) \<and>
            tab (snd (srv (EXISTS k) r)) = tab r)"

text \<open>A concrete server, for evaluation.\<close>

fun table_server :: "(string \<rightharpoonup> string) redis_srv" where
  "table_server (SET k v) r = (Some (Reply_Status ''OK''), r(k \<mapsto> v))"
| "table_server (GET k) r =
     (Some (case r k of None \<Rightarrow> Reply_Nil | Some v \<Rightarrow> Reply_String v), r)"
| "table_server (DEL k) r =
     (Some (Reply_Integer (if r k = None then 0 else 1)), r(k := None))"
| "table_server (EXISTS k) r = (Some (Reply_Integer (if r k = None then 0 else 1)), r)"

lemma redis_server_table_server [simp]: "redis_server table_server (\<lambda>r. r)"
  by (simp add: redis_server_def)

section \<open>Lemmas\<close>

lemma c_str_no_NUL [str_simps]: "NUL \<notin> set s \<Longrightarrow> c_str s = s"
  by (auto simp: c_str_def takeWhile_eq_all_conv)

lemma redis_not_connected:
  assumes "\<not> m_connected c \<or> \<not> m_ctx c"
  shows "redis_set srv c k v r = (False, r)" "redis_get srv c k w r = (False, w, r)"
    "redis_del srv c k r = (False, r)" "redis_exists srv c k r = (False, r)"
  using assms by (auto simp: redis_defs)

lemma redis_connect_flags: "m_connected (redis_connect out) \<longleftrightarrow> m_ctx (redis_connect out)"
  by (cases out) (simp_all add: redis_connect_def)

locale connected_redis =
  fixes srv :: "'r redis_srv" and tab :: "'r \<Rightarrow> string \<rightharpoonup> string" and c :: redis_client
  assumes server: "redis_server srv tab" and conn: "m_connected c" "m_ctx c"
begin

lemma srv_SET: "\<exists>r'. srv (SET k v) r = (Some (Reply_Status ''OK''), r') \<and> tab r' = (tab r)(k \<mapsto> v)"
  using server unfolding redis_server_def by (metis prod.collapse)

lemma srv_GET:
  "\<exists>r'. srv (GET k) r = (Some (case tab r k of None \<Rightarrow> Reply_Nil | Some v \<Rightarrow> Reply_String v), r') \<and>
        tab r' = tab r"
  using server unfolding redis_server_def by (metis prod.collapse)

lemma srv_DEL:
  "\<exists>r'. srv (DEL k) r = (Some (Reply_Integer (if tab r k = None then 0 else 1)), r') \<and>
        tab r' = (tab r)(k := None)"
  using server unfolding redis_server_def by (metis prod.collapse)

lemma srv_EXISTS:
  "\<exists>r'. srv (EXISTS k) r = (Some (Reply_Integer (if tab r k = None then 0 else 1)), r') \<and>
        tab r' = tab r"
  using server unfolding redis_server_def by (metis prod.collapse)

lemma set_effect:
  "\<exists>r'. redis_set srv c k v r = (True, r') \<and> tab r' = (tab r)(c_str k \<mapsto> c_str v)"
  using srv_SET [of "c_str k" "c_str v" r] conn by (auto simp: redis_set_def)

lemma get_effect:
  "\<exists>r'. tab r' = tab r \<and>
        redis_get srv c k w r =
          (case tab r (c_str k) of None \<Rightarrow> (False, [], r') | Some v \<Rightarrow> (True, c_str v, r'))"
  using srv_GET [of "c_str k" r] conn by (auto simp: redis_get_def split: option.splits)

lemma del_effect:
  "\<exists>r'. redis_del srv c k r = (tab r (c_str k) \<noteq> None, r') \<and> tab r' = (tab r)(c_str k := None)"
  using srv_DEL [of "c_str k" r] conn by (auto simp: redis_del_def)

lemma exists_effect:
  "\<exists>r'. redis_exists srv c k r = (tab r (c_str k) \<noteq> None, r') \<and> tab r' = tab r"
  using srv_EXISTS [of "c_str k" r] conn by (auto simp: redis_exists_def)

end

interpretation live_redis: connected_redis table_server "\<lambda>r. r" "redis_connect Ctx_ok"
  by unfold_locales (simp_all add: redis_connect_def)

end
