(* ===== verification/Cache_Adapter.thy ===== *)
theory Cache_Adapter
  imports Lru_Cache Redis_Client
begin

text \<open>
  The cache adapter, \<open>src/cache/cache_adapter.h\<close> and \<open>src/cache/cache_adapter.cpp\<close>: one entry
  point over the LRU cache, the Redis client, or both. The two \<open>unique_ptr\<close> members are options,
  the state of the Redis server is threaded through, and the caller's \<open>value_out\<close> is an argument
  and a result.

  The locale \<open>adapter_stack\<close> states what the combined mode needs of its two layers; inside it every
  operation is shown to behave as the same operation on the server's table alone.
\<close>

section \<open>Model\<close>

datatype cache_mode = LRU_ONLY | REDIS_ONLY | LRU_REDIS

record cache_adapter =
  m_mode :: cache_mode
  m_lru :: "(string, string) lru option"
  m_redis :: "redis_client option"

definition mode_has_lru :: "cache_mode \<Rightarrow> bool" where
  "mode_has_lru m \<longleftrightarrow> m = LRU_ONLY \<or> m = LRU_REDIS"

definition mode_has_redis :: "cache_mode \<Rightarrow> bool" where
  "mode_has_redis m \<longleftrightarrow> m = REDIS_ONLY \<or> m = LRU_REDIS"

text \<open>\<open>init(mode, lru_capacity)\<close>; \<open>out\<close> is what connecting to Redis gave. A layer the mode does not
  use keeps what an earlier \<open>init\<close> left there.\<close>

definition adapter_init :: "cache_mode \<Rightarrow> nat \<Rightarrow> connect_outcome \<Rightarrow> cache_adapter \<Rightarrow> cache_adapter" where
  "adapter_init mode cap out a =
     a\<lparr>m_mode := mode,
       m_lru := (if mode_has_lru mode then Some (lru_init cap) else m_lru a),
       m_redis := (if mode_has_redis mode then Some (redis_connect out) else m_redis a)\<rparr>"

text \<open>The layer a call goes through, under the guard \<open>(m_mode == ...) && m_lru\<close>.\<close>

definition lru_layer :: "cache_adapter \<Rightarrow> (string, string) lru option" where
  "lru_layer a = (if mode_has_lru (m_mode a) then m_lru a else None)"

definition redis_layer :: "cache_adapter \<Rightarrow> redis_client option" where
  "redis_layer a = (if mode_has_redis (m_mode a) then m_redis a else None)"

text \<open>The second half of \<open>get\<close>: Redis, with the back-fill of the LRU layer on a hit.\<close>

definition adapter_get_redis ::
  "'r redis_srv \<Rightarrow> cache_adapter \<Rightarrow> string \<Rightarrow> string \<Rightarrow> 'r \<Rightarrow> bool \<times> string \<times> cache_adapter \<times> 'r" where
  "adapter_get_redis srv a key val r =
     (case redis_layer a of
        None \<Rightarrow> (False, val, a, r)
      | Some rc \<Rightarrow>
          (case redis_get srv rc key val r of
             (True, v, r') \<Rightarrow>
               (True, v,
                (if m_mode a = LRU_REDIS
                 then a\<lparr>m_lru := map_option (\<lambda>l. lru_put l key v) (m_lru a)\<rparr> else a), r')
           | (False, v, r') \<Rightarrow> (False, v, a, r')))"

definition adapter_get ::
  "'r redis_srv \<Rightarrow> cache_adapter \<Rightarrow> string \<Rightarrow> string \<Rightarrow> 'r \<Rightarrow> bool \<times> string \<times> cache_adapter \<times> 'r" where
  "adapter_get srv a key val r =
     (case lru_layer a of
        None \<Rightarrow> adapter_get_redis srv a key val r
      | Some l \<Rightarrow>
          (case lru_get l key of
             (Some v, l') \<Rightarrow> (True, v, a\<lparr>m_lru := Some l'\<rparr>, r)
           | (None, l') \<Rightarrow> adapter_get_redis srv (a\<lparr>m_lru := Some l'\<rparr>) key val r))"

definition adapter_set ::
  "'r redis_srv \<Rightarrow> cache_adapter \<Rightarrow> string \<Rightarrow> string \<Rightarrow> 'r \<Rightarrow> cache_adapter \<times> 'r" where
  "adapter_set srv a key val r =
     (let a' = (case lru_layer a of None \<Rightarrow> a | Some l \<Rightarrow> a\<lparr>m_lru := Some (lru_put l key val)\<rparr>)
      in case redis_layer a' of
           None \<Rightarrow> (a', r)
         | Some rc \<Rightarrow> (a', snd (redis_set srv rc key val r)))"

definition adapter_erase :: "'r redis_srv \<Rightarrow> cache_adapter \<Rightarrow> string \<Rightarrow> 'r \<Rightarrow> cache_adapter \<times> 'r" where
  "adapter_erase srv a key r =
     (let a' = (case lru_layer a of None \<Rightarrow> a | Some l \<Rightarrow> a\<lparr>m_lru := Some (lru_erase l key)\<rparr>)
      in case redis_layer a' of
           None \<Rightarrow> (a', r)
         | Some rc \<Rightarrow> (a', snd (redis_del srv rc key r)))"

definition adapter_contains :: "'r redis_srv \<Rightarrow> cache_adapter \<Rightarrow> string \<Rightarrow> 'r \<Rightarrow> bool \<times> 'r" where
  "adapter_contains srv a key r =
     (if (case lru_layer a of None \<Rightarrow> False | Some l \<Rightarrow> lru_contains l key) then (True, r)
      else case redis_layer a of
             None \<Rightarrow> (False, r)
           | Some rc \<Rightarrow> redis_exists srv rc key r)"

text \<open>\<open>clear()\<close> empties the LRU layer whatever the mode, and leaves Redis alone.\<close>

definition adapter_clear :: "cache_adapter \<Rightarrow> cache_adapter" where
  "adapter_clear a = a\<lparr>m_lru := map_option lru_clear (m_lru a)\<rparr>"

lemmas adapter_defs =
  adapter_get_redis_def adapter_get_def adapter_set_def adapter_erase_def adapter_contains_def
  adapter_clear_def lru_layer_def redis_layer_def mode_has_lru_def mode_has_redis_def

subsection \<open>Sequences of calls and what the caller sees\<close>

datatype cache_call =
  Call_get string | Call_set string string | Call_erase string | Call_contains string | Call_clear

datatype cache_obs = Obs_none | Obs_value "string option" | Obs_bool bool

fun adapter_call ::
  "'r redis_srv \<Rightarrow> cache_call \<Rightarrow> cache_adapter \<times> 'r \<Rightarrow> cache_obs \<times> cache_adapter \<times> 'r" where
  "adapter_call srv (Call_get k) (a, r) =
     (case adapter_get srv a k [] r of
        (hit, v, a', r') \<Rightarrow> (Obs_value (if hit then Some v else None), a', r'))"
| "adapter_call srv (Call_set k v) (a, r) = (Obs_none, adapter_set srv a k v r)"
| "adapter_call srv (Call_erase k) (a, r) = (Obs_none, adapter_erase srv a k r)"
| "adapter_call srv (Call_contains k) (a, r) =
     (case adapter_contains srv a k r of (b, r') \<Rightarrow> (Obs_bool b, a, r'))"
| "adapter_call srv Call_clear (a, r) = (Obs_none, adapter_clear a, r)"

fun adapter_run ::
  "'r redis_srv \<Rightarrow> cache_call list \<Rightarrow> cache_adapter \<times> 'r \<Rightarrow> cache_obs list" where
  "adapter_run srv [] s = []"
| "adapter_run srv (x # xs) s = (case adapter_call srv x s of (ob, s') \<Rightarrow> ob # adapter_run srv xs s')"

section \<open>Specification: the table alone\<close>

fun table_call :: "cache_call \<Rightarrow> (string \<rightharpoonup> string) \<Rightarrow> cache_obs \<times> (string \<rightharpoonup> string)" where
  "table_call (Call_get k) t = (Obs_value (t k), t)"
| "table_call (Call_set k v) t = (Obs_none, t(k \<mapsto> v))"
| "table_call (Call_erase k) t = (Obs_none, t(k := None))"
| "table_call (Call_contains k) t = (Obs_bool (t k \<noteq> None), t)"
| "table_call Call_clear t = (Obs_none, t)"

fun table_run :: "cache_call list \<Rightarrow> (string \<rightharpoonup> string) \<Rightarrow> cache_obs list" where
  "table_run [] t = []"
| "table_run (x # xs) t = (case table_call x t of (ob, t') \<Rightarrow> ob # table_run xs t')"

text \<open>Keys and values travel through \<open>c_str()\<close>, so the specification is about those without NUL.\<close>

fun call_plain :: "cache_call \<Rightarrow> bool" where
  "call_plain (Call_get k) \<longleftrightarrow> NUL \<notin> set k"
| "call_plain (Call_set k v) \<longleftrightarrow> NUL \<notin> set k \<and> NUL \<notin> set v"
| "call_plain (Call_erase k) \<longleftrightarrow> NUL \<notin> set k"
| "call_plain (Call_contains k) \<longleftrightarrow> NUL \<notin> set k"
| "call_plain Call_clear \<longleftrightarrow> True"

definition plain_table :: "(string \<rightharpoonup> string) \<Rightarrow> bool" where
  "plain_table t \<longleftrightarrow> (\<forall>v \<in> ran t. NUL \<notin> set v)"

text \<open>The invariant of the combined mode: every entry of the LRU layer is the server's.\<close>

definition coherent :: "('r \<Rightarrow> string \<rightharpoonup> string) \<Rightarrow> cache_adapter \<Rightarrow> 'r \<Rightarrow> bool" where
  "coherent tab a r \<longleftrightarrow>
     m_mode a = LRU_REDIS \<and>
     (\<exists>l. m_lru a = Some l \<and> lru_inv l \<and> lru_lookup l \<subseteq>\<^sub>m tab r) \<and>
     (\<exists>rc. m_redis a = Some rc \<and> m_connected rc \<and> m_ctx rc) \<and>
     plain_table (tab r)"

section \<open>Coherence is kept, and hides the LRU layer\<close>

lemma lru_coherent_put:
  assumes "lru_inv l" "lru_lookup l \<subseteq>\<^sub>m M"
  shows "lru_lookup (lru_put l k v) \<subseteq>\<^sub>m M(k \<mapsto> v)"
proof (cases "m_capacity l = 0")
  case True
  with assms(1) have "lru_lookup l = Map.empty"
    using lru_invD(5) [OF assms(1)] by (simp add: lru_lookup_def lru_list_def)
  with True show ?thesis by (simp add: lru_put_def)
next
  case False
  with assms show ?thesis by (intro lru.coherent_put)
qed

lemma plain_table_upd: "plain_table t \<Longrightarrow> NUL \<notin> set v \<Longrightarrow> plain_table (t(k \<mapsto> v))"
  by (auto simp: plain_table_def ran_def)

lemma plain_table_del: "plain_table t \<Longrightarrow> plain_table (t(k := None))"
  by (auto simp: plain_table_def ran_def)

lemma plain_table_c_str: "plain_table t \<Longrightarrow> t k = Some v \<Longrightarrow> c_str v = v"
  by (auto simp: plain_table_def ran_def intro: c_str_no_NUL)

locale adapter_stack =
  fixes srv :: "'r redis_srv" and tab :: "'r \<Rightarrow> string \<rightharpoonup> string"
  assumes srv_table: "redis_server srv tab"
begin

text \<open>Each call refines the same call on the table.\<close>

definition refines :: "cache_obs \<times> cache_adapter \<times> 'r \<Rightarrow> cache_obs \<times> (string \<rightharpoonup> string) \<Rightarrow> bool" where
  "refines s t \<longleftrightarrow>
     fst s = fst t \<and> tab (snd (snd s)) = snd t \<and> coherent tab (fst (snd s)) (snd (snd s))"

lemma coherentE:
  assumes "coherent tab a r"
  obtains l rc where "m_mode a = LRU_REDIS" "m_lru a = Some l" "lru_inv l" "lru_lookup l \<subseteq>\<^sub>m tab r"
    "m_redis a = Some rc" "connected_redis srv tab rc" "plain_table (tab r)"
  using assms srv_table by (auto simp: coherent_def connected_redis_def)

lemma coherentI:
  assumes "m_mode a = LRU_REDIS" "m_lru a = Some l" "lru_inv l" "lru_lookup l \<subseteq>\<^sub>m tab r"
    "m_redis a = Some rc" "connected_redis srv tab rc" "plain_table (tab r)"
  shows "coherent tab a r"
  using assms by (auto simp: coherent_def connected_redis_def)

lemma call_get_refines:
  assumes "coherent tab a r" "NUL \<notin> set k"
  shows "refines (adapter_call srv (Call_get k) (a, r)) (table_call (Call_get k) (tab r))"
proof -
  from assms(1) obtain l rc where co: "m_mode a = LRU_REDIS" "m_lru a = Some l" "lru_inv l"
    "lru_lookup l \<subseteq>\<^sub>m tab r" "m_redis a = Some rc" "connected_redis srv tab rc" "plain_table (tab r)"
    by (rule coherentE)
  obtain got l' where gl: "lru_get l k = (got, l')" by fastforce
  with co(3) have l': "lru_inv l'" "lru_lookup l' = lru_lookup l" "got = lru_lookup l k"
    using lru.inv_get [OF co(3), of k] lru.get_same [OF co(3), of k] lru.get_value [OF co(3), of k]
    by simp_all
  show ?thesis
  proof (cases got)
    case (Some v)
    then have "tab r k = Some v" using l'(3) co(4) by (metis domI map_le_def)
    with Some co gl l' show ?thesis
      by (auto simp: refines_def adapter_defs intro: coherentI)
  next
    case None
    obtain r' where r': "tab r' = tab r"
      "redis_get srv rc k [] r =
         (case tab r k of None \<Rightarrow> (False, [], r') | Some v \<Rightarrow> (True, v, r'))"
      using connected_redis.get_effect [OF co(6), of r k "[]"] assms(2) plain_table_c_str [OF co(7)]
      by (auto simp: c_str_no_NUL split: option.splits)
    show ?thesis
    proof (cases "tab r k")
      case None
      with \<open>got = None\<close> co gl l' r' show ?thesis
        by (auto simp: refines_def adapter_defs intro!: coherentI)
    next
      case (Some v)
      then have "lru_lookup (lru_put l' k v) \<subseteq>\<^sub>m tab r'"
        using l' co(4) r'(1) by (auto intro: lru.coherent_backfill)
      with \<open>got = None\<close> Some co gl l' r' show ?thesis
        by (auto simp: refines_def adapter_defs intro!: coherentI)
    qed
  qed
qed

lemma call_set_refines:
  assumes "coherent tab a r" "NUL \<notin> set k" "NUL \<notin> set v"
  shows "refines (adapter_call srv (Call_set k v) (a, r)) (table_call (Call_set k v) (tab r))"
proof -
  from assms(1) obtain l rc where co: "m_mode a = LRU_REDIS" "m_lru a = Some l" "lru_inv l"
    "lru_lookup l \<subseteq>\<^sub>m tab r" "m_redis a = Some rc" "connected_redis srv tab rc" "plain_table (tab r)"
    by (rule coherentE)
  obtain r' where "redis_set srv rc k v r = (True, r')" "tab r' = (tab r)(k \<mapsto> v)"
    using connected_redis.set_effect [OF co(6), of k v r] assms by (auto simp: c_str_no_NUL)
  with co assms(3) show ?thesis
    by (auto simp: refines_def adapter_defs lru_coherent_put plain_table_upd intro!: coherentI)
qed

lemma call_erase_refines:
  assumes "coherent tab a r" "NUL \<notin> set k"
  shows "refines (adapter_call srv (Call_erase k) (a, r)) (table_call (Call_erase k) (tab r))"
proof -
  from assms(1) obtain l rc where co: "m_mode a = LRU_REDIS" "m_lru a = Some l" "lru_inv l"
    "lru_lookup l \<subseteq>\<^sub>m tab r" "m_redis a = Some rc" "connected_redis srv tab rc" "plain_table (tab r)"
    by (rule coherentE)
  obtain b r' where "redis_del srv rc k r = (b, r')" "tab r' = (tab r)(k := None)"
    using connected_redis.del_effect [OF co(6), of k r] assms by (auto simp: c_str_no_NUL)
  with co show ?thesis
    by (auto simp: refines_def adapter_defs lru.coherent_erase plain_table_del intro!: coherentI)
qed

lemma call_contains_refines:
  assumes "coherent tab a r" "NUL \<notin> set k"
  shows "refines (adapter_call srv (Call_contains k) (a, r)) (table_call (Call_contains k) (tab r))"
proof -
  from assms(1) obtain l rc where co: "m_mode a = LRU_REDIS" "m_lru a = Some l" "lru_inv l"
    "lru_lookup l \<subseteq>\<^sub>m tab r" "m_redis a = Some rc" "connected_redis srv tab rc" "plain_table (tab r)"
    by (rule coherentE)
  obtain r' where r': "redis_exists srv rc k r = (tab r k \<noteq> None, r')" "tab r' = tab r"
    using connected_redis.exists_effect [OF co(6), of k r] assms by (auto simp: c_str_no_NUL)
  have coh: "coherent tab a r'" using co r'(2) by (auto intro: coherentI)
  show ?thesis
  proof (cases "lru_contains l k")
    case True
    then have "lru_lookup l k \<noteq> None" using co(3) by (simp add: lru.contains_iff)
    then have "tab r k \<noteq> None" using co(4) by (metis domIff map_le_def)
    with True co assms(1) show ?thesis by (simp add: refines_def adapter_defs)
  next
    case False
    with co r' coh show ?thesis by (simp add: refines_def adapter_defs)
  qed
qed

lemma call_clear_refines:
  assumes "coherent tab a r"
  shows "refines (adapter_call srv Call_clear (a, r)) (table_call Call_clear (tab r))"
proof -
  from assms(1) obtain l rc where co: "m_mode a = LRU_REDIS" "m_lru a = Some l" "lru_inv l"
    "lru_lookup l \<subseteq>\<^sub>m tab r" "m_redis a = Some rc" "connected_redis srv tab rc" "plain_table (tab r)"
    by (rule coherentE)
  then show ?thesis
    by (auto simp: refines_def adapter_defs lru.coherent_clear intro!: coherentI)
qed

lemma call_refines:
  "coherent tab a r \<Longrightarrow> call_plain x \<Longrightarrow> refines (adapter_call srv x (a, r)) (table_call x (tab r))"
  by (cases x) (auto simp only: call_plain.simps intro: call_get_refines call_set_refines call_erase_refines
      call_contains_refines call_clear_refines)

lemma run_refines:
  "coherent tab a r \<Longrightarrow> \<forall>x \<in> set xs. call_plain x \<Longrightarrow> adapter_run srv xs (a, r) = table_run xs (tab r)"
proof (induction xs arbitrary: a r)
  case (Cons x xs)
  from Cons.prems have "refines (adapter_call srv x (a, r)) (table_call x (tab r))"
    by (intro call_refines) auto
  with Cons show ?case
    by (cases "adapter_call srv x (a, r)"; cases "table_call x (tab r)") (auto simp: refines_def)
qed simp

end

interpretation table_stack: adapter_stack table_server "\<lambda>r. r"
  by unfold_locales simp

section \<open>Properties\<close>

text \<open>C11. The combined mode is transparent: over a Redis server that keeps one table, whatever
  sequence of \<open>get\<close>, \<open>set\<close>, \<open>erase\<close>, \<open>contains\<close> and \<open>clear\<close> (without NUL bytes) is run from a
  coherent state, the caller sees exactly what the server's table alone would show. The LRU layer,
  its evictions and the back-fill after a miss never change an answer.\<close>

theorem adapter_transparent:
  assumes "redis_server srv tab" "coherent tab a r" "\<forall>x \<in> set xs. call_plain x"
  shows "adapter_run srv xs (a, r) = table_run xs (tab r)"
  using assms by (intro adapter_stack.run_refines adapter_stack.intro)

theorem adapter_transparent_witness:
  "adapter_run table_server
     [Call_set ''k'' ''v'', Call_set ''k2'' ''w'', Call_clear, Call_get ''k'', Call_erase ''k2'',
      Call_contains ''k2'', Call_get ''k2'']
     (adapter_init LRU_REDIS 1 Ctx_ok \<lparr>m_mode = LRU_ONLY, m_lru = None, m_redis = None\<rparr>, Map.empty) =
   [Obs_none, Obs_none, Obs_none, Obs_value (Some ''v''), Obs_none, Obs_bool False, Obs_value None]"
proof -
  have "coherent (\<lambda>r. r)
      (adapter_init LRU_REDIS 1 Ctx_ok \<lparr>m_mode = LRU_ONLY, m_lru = None, m_redis = None\<rparr>) Map.empty"
    by (simp add: coherent_def adapter_init_def mode_has_lru_def mode_has_redis_def redis_connect_def
        plain_table_def lru_lookup_def lru_list_def) (simp add: lru_init_def)
  then show ?thesis
    by (subst adapter_transparent [where tab = "\<lambda>r. r"]) (simp_all add: NUL_def)
qed

end
