(* ===== verification/Timer_Manager.thy ===== *)
theory Timer_Manager
  imports Prelude
begin

text \<open>
  Timers: \<open>src/timer/timer.h\<close>, \<open>timer.cpp\<close>, \<open>timer_manager.h\<close>, \<open>timer_manager.cpp\<close>.

  A timer node is immutable and shared between the heap and the id table; \<open>tick\<close> compares the two
  by pointer. A \<open>timer_ref\<close> is the node's address with its contents, and the comparison is on the
  address. The heap is a \<open>std::priority_queue\<close> ordered by expiry; the model is a list kept in expiry
  order, a new entry going behind those of equal expiry, so that the top is replaced only by a
  strictly earlier entry, as in the library's sift-up. A callback is a value of type \<open>'cb\<close> (an empty
  \<open>std::function\<close> is \<open>None\<close>), run on a state \<open>'s\<close> that does not contain the manager: \<open>tick\<close> holds the
  manager's mutex while it runs callbacks. The clock is a function \<open>clk\<close> from the number of the
  reading to its value; the \<open>i\<close>-th round of the loop takes the readings \<open>2 i\<close> and \<open>2 i + 1\<close>.

  The loop of \<open>tick\<close> need not end when timers repeat, so it is a \<^theory_text>\<open>partial_function\<close> whose value
  \<open>None\<close> is not returning; \<open>tick_returns\<close> and \<open>tick_fires\<close> show where it returns.
  The locale \<open>timer_service\<close> is what the session and token managers use of a timer manager.
\<close>

section \<open>Model\<close>

record 'cb timer_node =
  m_fd :: int
  m_callback :: "'cb option"
  m_expire :: time
  m_repeat :: bool
  m_interval_ms :: int

type_synonym 'cb timer_ref = "nat \<times> 'cb timer_node"

definition TimerNode :: "int \<Rightarrow> 'cb option \<Rightarrow> int \<Rightarrow> bool \<Rightarrow> time \<Rightarrow> 'cb timer_node" where
  "TimerNode fd cb timeout_ms rep now =
     \<lparr>m_fd = fd, m_callback = cb, m_expire = now + timeout_ms * ns_per_ms, m_repeat = rep,
      m_interval_ms = timeout_ms\<rparr>"

definition node_isExpired :: "'cb timer_node \<Rightarrow> time \<Rightarrow> bool" where
  "node_isExpired t now \<longleftrightarrow> m_expire t \<le> now"

definition runCallback :: "('cb \<Rightarrow> 's \<Rightarrow> 's) \<Rightarrow> 'cb timer_node \<Rightarrow> 's \<Rightarrow> 's" where
  "runCallback run t s = (case m_callback t of None \<Rightarrow> s | Some cb \<Rightarrow> run cb s)"

record 'cb timer_manager =
  m_timer_heap :: "'cb timer_ref list"
  m_timer_map :: "int \<rightharpoonup> 'cb timer_ref"
  m_timer_alloc :: nat

definition tm_init :: "'cb timer_manager" where
  "tm_init = \<lparr>m_timer_heap = [], m_timer_map = Map.empty, m_timer_alloc = 0\<rparr>"

fun heap_push :: "'cb timer_ref \<Rightarrow> 'cb timer_ref list \<Rightarrow> 'cb timer_ref list" where
  "heap_push t [] = [t]"
| "heap_push t (u # us) =
     (if m_expire (snd t) < m_expire (snd u) then t # u # us else u # heap_push t us)"

definition heap_pop :: "'cb timer_ref list \<Rightarrow> 'cb timer_ref list" where
  "heap_pop h = tl h"

text \<open>A new node in the table and in the heap.\<close>

definition tm_insert :: "'cb timer_node \<Rightarrow> 'cb timer_manager \<Rightarrow> 'cb timer_manager" where
  "tm_insert t m =
     (let ref = (m_timer_alloc m, t)
      in m\<lparr>m_timer_map := (m_timer_map m)(m_fd t \<mapsto> ref),
           m_timer_heap := heap_push ref (m_timer_heap m),
           m_timer_alloc := Suc (m_timer_alloc m)\<rparr>)"

definition addTimer ::
  "'cb timer_manager \<Rightarrow> int \<Rightarrow> 'cb option \<Rightarrow> int \<Rightarrow> bool \<Rightarrow> time \<Rightarrow> 'cb timer_manager" where
  "addTimer m tid cb timeout_ms rep now = tm_insert (TimerNode tid cb timeout_ms rep now) m"

text \<open>\<open>m_timer_map.count(fd) && m_timer_map[fd] == timer\<close>\<close>

definition live :: "'cb timer_manager \<Rightarrow> 'cb timer_ref \<Rightarrow> bool" where
  "live m t \<longleftrightarrow> (case m_timer_map m (m_fd (snd t)) of None \<Rightarrow> False | Some u \<Rightarrow> fst u = fst t)"

text \<open>One round of the loop, for an expired top \<open>t\<close>; \<open>now\<close> is the reading a repeated node takes.\<close>

definition tick_round ::
  "('cb \<Rightarrow> 's \<Rightarrow> 's) \<Rightarrow> time \<Rightarrow> 'cb timer_ref \<Rightarrow> 'cb timer_manager \<Rightarrow> 's \<Rightarrow> 'cb timer_manager \<times> 's" where
  "tick_round run now t m s =
     (let (m', s') =
        (if live m t then
           (if m_repeat (snd t) then
              (tm_insert (TimerNode (m_fd (snd t)) (m_callback (snd t)) (m_interval_ms (snd t)) True now) m,
               runCallback run (snd t) s)
            else (m\<lparr>m_timer_map := (m_timer_map m)(m_fd (snd t) := None)\<rparr>, runCallback run (snd t) s))
         else (m, s))
      in (m'\<lparr>m_timer_heap := heap_pop (m_timer_heap m')\<rparr>, s'))"

partial_function (option) tick_loop ::
  "('cb \<Rightarrow> 's \<Rightarrow> 's) \<Rightarrow> (nat \<Rightarrow> time) \<Rightarrow> nat \<Rightarrow> 'cb timer_manager \<Rightarrow> 's \<Rightarrow>
     ('cb timer_manager \<times> 's) option" where
  "tick_loop run clk i m s =
     (case m_timer_heap m of
        [] \<Rightarrow> Some (m, s)
      | t # _ \<Rightarrow>
          if node_isExpired (snd t) (clk (2 * i))
          then tick_loop run clk (Suc i) (fst (tick_round run (clk (2 * i + 1)) t m s))
                 (snd (tick_round run (clk (2 * i + 1)) t m s))
          else Some (m, s))"

definition tick ::
  "('cb \<Rightarrow> 's \<Rightarrow> 's) \<Rightarrow> (nat \<Rightarrow> time) \<Rightarrow> 'cb timer_manager \<Rightarrow> 's \<Rightarrow> ('cb timer_manager \<times> 's) option" where
  "tick run clk m s = tick_loop run clk 0 m s"

definition tm_isExpired :: "'cb timer_manager \<Rightarrow> int \<Rightarrow> time \<Rightarrow> bool" where
  "tm_isExpired m tid now =
     (case m_timer_map m tid of None \<Rightarrow> True | Some t \<Rightarrow> node_isExpired (snd t) now)"

section \<open>The invariant\<close>

abbreviation expire :: "'cb timer_ref \<Rightarrow> time" where "expire t \<equiv> m_expire (snd t)"

definition tm_inv :: "'cb timer_manager \<Rightarrow> bool" where
  "tm_inv m \<longleftrightarrow>
     sorted (map expire (m_timer_heap m)) \<and>
     distinct (map fst (m_timer_heap m)) \<and>
     (\<forall>t \<in> set (m_timer_heap m). fst t < m_timer_alloc m) \<and>
     (\<forall>tid t. m_timer_map m tid = Some t \<longrightarrow> t \<in> set (m_timer_heap m) \<and> m_fd (snd t) = tid)"

lemma tm_inv_init [simp]: "tm_inv tm_init"
  by (simp add: tm_inv_def tm_init_def)

lemma set_heap_push [simp]: "set (heap_push t h) = insert t (set h)"
  by (induction h) auto

lemma sorted_heap_push: "sorted (map expire h) \<Longrightarrow> sorted (map expire (heap_push t h))"
  by (induction h) (auto simp: less_imp_le not_less intro: order_trans)

lemma distinct_heap_push:
  "distinct (map fst h) \<Longrightarrow> fst t \<notin> fst ` set h \<Longrightarrow> distinct (map fst (heap_push t h))"
  by (induction h) auto

lemma heap_push_top: "h \<noteq> [] \<Longrightarrow> expire (hd h) \<le> expire t \<Longrightarrow> heap_push t h = hd h # heap_push t (tl h)"
  by (cases h) auto

lemma tm_inv_insert: "tm_inv m \<Longrightarrow> tm_inv (tm_insert t m)"
  by (fastforce simp: tm_inv_def tm_insert_def Let_def sorted_heap_push intro!: distinct_heap_push)

lemma tm_inv_addTimer [simp]: "tm_inv m \<Longrightarrow> tm_inv (addTimer m tid cb ms rep now)"
  by (simp add: addTimer_def tm_inv_insert)

lemma tm_init_simps [simp]: "m_timer_heap tm_init = []" "m_timer_map tm_init = Map.empty"
  by (simp_all add: tm_init_def)

lemma TimerNode_simps [simp]:
  "m_fd (TimerNode fd cb ms rep now) = fd" "m_callback (TimerNode fd cb ms rep now) = cb"
  "m_expire (TimerNode fd cb ms rep now) = now + ms * ns_per_ms"
  "m_repeat (TimerNode fd cb ms rep now) = rep" "m_interval_ms (TimerNode fd cb ms rep now) = ms"
  by (simp_all add: TimerNode_def)

lemma addTimer_simps [simp]:
  "m_timer_map (addTimer m tid cb ms rep now) =
     (m_timer_map m)(tid \<mapsto> (m_timer_alloc m, TimerNode tid cb ms rep now))"
  "set (m_timer_heap (addTimer m tid cb ms rep now)) =
     insert (m_timer_alloc m, TimerNode tid cb ms rep now) (set (m_timer_heap m))"
  by (simp_all add: addTimer_def tm_insert_def Let_def)

lemma tm_inv_live: "tm_inv m \<Longrightarrow> live m t \<Longrightarrow> t \<in> set (m_timer_heap m) \<Longrightarrow> m_timer_map m (m_fd (snd t)) = Some t"
  by (auto simp: tm_inv_def live_def distinct_map inj_on_def split: option.splits)

lemma tm_inv_map_live: "tm_inv m \<Longrightarrow> m_timer_map m tid = Some t \<Longrightarrow> live m t \<and> t \<in> set (m_timer_heap m) \<and> m_fd (snd t) = tid"
  by (cases t) (auto simp: tm_inv_def live_def)

section \<open>The loop, without repeating timers\<close>

text \<open>What the loop pops: the longest prefix of the heap that is expired at the readings it takes.\<close>

fun popped :: "(nat \<Rightarrow> time) \<Rightarrow> nat \<Rightarrow> 'cb timer_ref list \<Rightarrow> 'cb timer_ref list" where
  "popped clk i [] = []"
| "popped clk i (t # h) = (if expire t \<le> clk (2 * i) then t # popped clk (Suc i) h else [])"

definition fire_all :: "('cb \<Rightarrow> 's \<Rightarrow> 's) \<Rightarrow> 'cb timer_ref list \<Rightarrow> 's \<Rightarrow> 's" where
  "fire_all run ts s = foldl (\<lambda>s t. runCallback run (snd t) s) s ts"

definition forget :: "'cb timer_ref list \<Rightarrow> (int \<rightharpoonup> 'cb timer_ref) \<Rightarrow> (int \<rightharpoonup> 'cb timer_ref)" where
  "forget ts f = (\<lambda>tid. if \<exists>t \<in> set ts. m_fd (snd t) = tid then None else f tid)"

lemma forget_simps [simp]:
  "forget [] f = f" "forget (t # ts) f = forget ts (f(m_fd (snd t) := None))"
  by (auto simp: forget_def fun_eq_iff)

lemma forget_keep: "\<forall>t \<in> set ts. m_fd (snd t) \<noteq> tid \<Longrightarrow> forget ts f tid = f tid"
  by (auto simp: forget_def)

lemma fire_all_simps [simp]:
  "fire_all run [] s = s" "fire_all run (t # ts) s = fire_all run ts (runCallback run (snd t) s)"
  by (simp_all add: fire_all_def)

abbreviation once :: "'cb timer_manager \<Rightarrow> bool" where
  "once m \<equiv> \<forall>t \<in> set (m_timer_heap m). \<not> m_repeat (snd t)"

lemma tick_round_once:
  assumes "m_timer_heap m = t # h" "\<not> m_repeat (snd t)"
  shows "tick_round run now t m s =
    (m\<lparr>m_timer_heap := h, m_timer_map := (if live m t then (m_timer_map m)(m_fd (snd t) := None) else m_timer_map m)\<rparr>,
     if live m t then runCallback run (snd t) s else s)"
  using assms by (simp add: tick_round_def heap_pop_def)

lemma live_after:
  assumes "distinct (map fst (t # h))" "live m t" "u \<in> set h"
  shows "live (m\<lparr>m_timer_heap := h, m_timer_map := (m_timer_map m)(m_fd (snd t) := None)\<rparr>) u \<longleftrightarrow> live m u"
proof -
  have "fst u \<noteq> fst t" using assms(1,3) by (metis distinct.simps(2) image_eqI list.set_map list.simps(9))
  with assms(2) show ?thesis by (auto simp: live_def split: option.splits)
qed

lemma live_heap_irrelevant [simp]: "live (m\<lparr>m_timer_heap := h\<rparr>) u = live m u"
  by (simp add: live_def)

lemma popped_set: "set (popped clk i h) \<subseteq> set h"
  by (induction h arbitrary: i) auto

lemma tick_loop_once:
  assumes "once m" "distinct (map fst (m_timer_heap m))"
  shows "tick_loop run clk i m s =
    (let p = popped clk i (m_timer_heap m); f = filter (live m) p
     in Some (m\<lparr>m_timer_heap := drop (length p) (m_timer_heap m), m_timer_map := forget f (m_timer_map m)\<rparr>,
              fire_all run f s))"
  using assms
proof (induction "m_timer_heap m" arbitrary: i m s)
  case Nil
  then show ?case by (subst tick_loop.simps) (simp add: fire_all_def forget_def flip: Nil.hyps)
next
  case (Cons t h)
  show ?case
  proof (cases "expire t \<le> clk (2 * i)")
    case False
    with Cons.hyps(2) show ?thesis
      by (subst tick_loop.simps)
        (auto simp: node_isExpired_def fire_all_def forget_def simp flip: Cons.hyps(2))
  next
    case True
    define m1 where "m1 = fst (tick_round run (clk (2 * i + 1)) t m s)"
    define s1 where "s1 = snd (tick_round run (clk (2 * i + 1)) t m s)"
    have heap: "m_timer_heap m = t # h" using Cons.hyps(2) by simp
    with Cons.prems(1) have nr: "\<not> m_repeat (snd t)" by simp
    have rnd: "m1 = m\<lparr>m_timer_heap := h,
        m_timer_map := (if live m t then (m_timer_map m)(m_fd (snd t) := None) else m_timer_map m)\<rparr>"
      "s1 = (if live m t then runCallback run (snd t) s else s)"
      unfolding m1_def s1_def tick_round_once [OF heap nr] by simp_all
    have d: "distinct (map fst (t # h))" using Cons by metis
    have lv: "filter (live m1) (popped clk (Suc i) h) = filter (live m) (popped clk (Suc i) h)"
    proof (rule filter_cong [OF refl])
      fix u
      assume "u \<in> set (popped clk (Suc i) h)"
      then have "u \<in> set h" using popped_set by fastforce
      with live_after [OF d] show "live m1 u = live m u"
        by (cases "live m t") (simp_all add: rnd(1) live_def)
    qed
    have step: "tick_loop run clk i m s = tick_loop run clk (Suc i) m1 s1"
      using True
      by (subst tick_loop.simps) (simp add: node_isExpired_def m1_def s1_def flip: Cons.hyps(2))
    have "tick_loop run clk (Suc i) m1 s1 =
        (let p = popped clk (Suc i) h; f = filter (live m) p
         in Some (m1\<lparr>m_timer_heap := drop (length p) h, m_timer_map := forget f (m_timer_map m1)\<rparr>,
              fire_all run f s1))"
      using Cons.hyps(1) [of m1 "Suc i" s1] Cons.prems d lv
      by (simp add: rnd(1) Let_def flip: Cons.hyps(2))
    with step True show ?thesis
      by (cases "live m t") (simp_all add: heap rnd Let_def)
  qed
qed

lemma popped_prefix: "popped clk i h = take (length (popped clk i h)) h"
  by (induction h arbitrary: i) auto

lemma popped_expired: "t \<in> set (popped clk i h) \<Longrightarrow> \<exists>j. expire t \<le> clk (2 * j)"
proof (induction h arbitrary: i)
  case (Cons u h)
  then show ?case by (cases "t = u") (auto split: if_splits)
qed simp

lemma popped_complete:
  assumes "mono clk" "sorted (map expire h)" "t \<in> set h" "expire t \<le> clk (2 * i)"
  shows "t \<in> set (popped clk i h)"
  using assms(2-)
proof (induction h arbitrary: i)
  case (Cons u h)
  have "clk (2 * i) \<le> clk (2 * Suc i)" using assms(1) by (simp add: monoD)
  moreover have "expire u \<le> clk (2 * i)" using Cons.prems by auto
  ultimately show ?case using Cons by auto
qed simp

section \<open>The loop returns\<close>

definition before :: "time \<Rightarrow> 'cb timer_ref list \<Rightarrow> nat" where
  "before T h = length (filter (\<lambda>t. expire t < T) h)"

lemma before_push: "before T (heap_push t h) = before T h + (if expire t < T then 1 else 0)"
  by (induction h) (auto simp: before_def)

lemma tick_loop_returns:
  assumes "sorted (map expire (m_timer_heap m))"
    and "\<forall>t \<in> set (m_timer_heap m). m_repeat (snd t) \<longrightarrow> 1 \<le> m_interval_ms (snd t)"
    and "\<forall>i. lo \<le> clk i \<and> clk i < lo + ns_per_ms"
  shows "\<exists>m' s'. tick_loop run clk i m s = Some (m', s')"
  using assms(1,2)
proof (induction "before (lo + ns_per_ms) (m_timer_heap m)" arbitrary: i m s)
  case less: (0 m i s)
  show ?case
  proof (cases "m_timer_heap m")
    case Nil
    then show ?thesis by (subst tick_loop.simps) simp
  next
    case (Cons t h)
    with less(1) have "\<not> expire t < lo + ns_per_ms" by (auto simp: before_def split: if_splits)
    with assms(3) have "\<not> node_isExpired (snd t) (clk (2 * i))"
      by (metis node_isExpired_def order_le_less_trans)
    with Cons show ?thesis by (subst tick_loop.simps) simp
  qed
next
  case (Suc n m i s)
  show ?case
  proof (cases "m_timer_heap m")
    case Nil
    then show ?thesis by (subst tick_loop.simps) simp
  next
    case heap: (Cons t h)
    show ?thesis
    proof (cases "node_isExpired (snd t) (clk (2 * i))")
      case False
      with heap show ?thesis by (subst tick_loop.simps) simp
    next
      case True
      define m1 where "m1 = fst (tick_round run (clk (2 * i + 1)) t m s)"
      have early: "expire t < lo + ns_per_ms"
        using True assms(3) by (metis node_isExpired_def order_le_less_trans)
      have h: "before (lo + ns_per_ms) h = n" "sorted (map expire h)"
        using Suc.hyps(2) Suc.prems(1) early heap by (simp_all add: before_def)
      let ?new = "(m_timer_alloc m, TimerNode (m_fd (snd t)) (m_callback (snd t)) (m_interval_ms (snd t)) True (clk (2 * i + 1)))"
      have late: "\<not> expire ?new < lo + ns_per_ms" if "m_repeat (snd t)"
      proof -
        have "1 \<le> m_interval_ms (snd t)" using that Suc.prems(2) heap by simp
        then have "ns_per_ms \<le> m_interval_ms (snd t) * ns_per_ms" by simp
        with assms(3) [rule_format, of "2 * i + 1"] show ?thesis by (simp add: TimerNode_def)
      qed
      have m1: "m_timer_heap m1 = (if live m t \<and> m_repeat (snd t) then heap_push ?new h else h)"
        using heap early late
        by (auto simp: m1_def tick_round_def tm_insert_def Let_def heap_pop_def)
      have "before (lo + ns_per_ms) (m_timer_heap m1) = n"
        using m1 h late by (auto simp: before_push)
      moreover have "sorted (map expire (m_timer_heap m1))"
        using m1 h by (auto simp: sorted_heap_push)
      moreover have "\<forall>u \<in> set (m_timer_heap m1). m_repeat (snd u) \<longrightarrow> 1 \<le> m_interval_ms (snd u)"
        using m1 Suc.prems(2) heap by (auto simp: TimerNode_def)
      ultimately have "\<exists>m' s'. tick_loop run clk (Suc i) m1 (snd (tick_round run (clk (2 * i + 1)) t m s)) = Some (m', s')"
        using Suc.hyps(1) by blast
      with True heap show ?thesis by (subst tick_loop.simps) (simp add: m1_def)
    qed
  qed
qed

section \<open>The interface the session and token managers use\<close>

definition deadline :: "'cb timer_manager \<Rightarrow> int \<Rightarrow> time option" where
  "deadline m tid = map_option expire (m_timer_map m tid)"

locale timer_service =
  fixes tinv :: "'m \<Rightarrow> bool"
    and due :: "'m \<Rightarrow> int \<Rightarrow> time option"
    and add :: "'m \<Rightarrow> int \<Rightarrow> 'cb option \<Rightarrow> int \<Rightarrow> bool \<Rightarrow> time \<Rightarrow> 'm"
    and expired :: "'m \<Rightarrow> int \<Rightarrow> time \<Rightarrow> bool"
  assumes tinv_add: "tinv m \<Longrightarrow> tinv (add m tid cb ms rep now)"
    and due_add: "due (add m tid cb ms rep now) = (due m)(tid \<mapsto> now + ms * ns_per_ms)"
    and expired_iff: "expired m tid now \<longleftrightarrow> (case due m tid of None \<Rightarrow> True | Some d \<Rightarrow> d \<le> now)"
begin

lemma armed_until: "expired (add m tid cb ms rep t0) tid now \<longleftrightarrow> t0 + ms * ns_per_ms \<le> now"
  by (simp add: expired_iff due_add)

lemma add_other: "tid \<noteq> tid' \<Longrightarrow> expired (add m tid cb ms rep t0) tid' now = expired m tid' now"
  by (simp add: expired_iff due_add)

lemma expired_mono: "expired m tid now \<Longrightarrow> now \<le> now' \<Longrightarrow> expired m tid now'"
  by (auto simp: expired_iff split: option.splits)

end

interpretation tm: timer_service tm_inv deadline addTimer tm_isExpired
proof
  show "deadline (addTimer m tid cb ms rep now) = (deadline m)(tid \<mapsto> now + ms * ns_per_ms)"
    for m :: "'cb timer_manager" and tid cb ms rep now
    by (auto simp: deadline_def addTimer_def tm_insert_def Let_def TimerNode_def)
  show "tm_isExpired m tid now \<longleftrightarrow> (case deadline m tid of None \<Rightarrow> True | Some d \<Rightarrow> d \<le> now)"
    for m :: "'cb timer_manager" and tid now
    by (auto simp: tm_isExpired_def deadline_def node_isExpired_def split: option.splits)
qed simp

text \<open>One call of \<open>tick\<close> without repeating timers.\<close>

lemma tick_once:
  assumes "tm_inv m" "once m" "mono clk"
  shows "\<exists>m' fired. tick run clk m s = Some (m', fire_all run fired s) \<and>
     distinct fired \<and> sorted (map expire fired) \<and>
     (\<forall>t \<in> set fired. m_timer_map m (m_fd (snd t)) = Some t \<and> (\<exists>j. expire t \<le> clk j)) \<and>
     (\<forall>tid t. m_timer_map m tid = Some t \<and> expire t \<le> clk 0 \<longrightarrow> t \<in> set fired) \<and>
     m_timer_map m' = forget fired (m_timer_map m) \<and> tm_inv m' \<and> set (m_timer_heap m') \<subseteq> set (m_timer_heap m)"
proof -
  let ?h = "m_timer_heap m"
  let ?p = "popped clk 0 ?h" and ?f = "filter (live m) (popped clk 0 ?h)"
  let ?m' = "m\<lparr>m_timer_heap := drop (length ?p) ?h, m_timer_map := forget ?f (m_timer_map m)\<rparr>"
  have inv: "sorted (map expire ?h)" "distinct (map fst ?h)" using assms(1) by (auto simp: tm_inv_def)
  have split: "?h = ?p @ drop (length ?p) ?h" by (metis append_take_drop_id popped_prefix)
  have "tick run clk m s = Some (?m', fire_all run ?f s)"
    using tick_loop_once [OF assms(2) inv(2), of run clk 0 s] by (simp add: tick_def Let_def)
  moreover have "distinct ?f"
    using inv(2) by (metis split distinct_append distinct_filter distinct_map)
  moreover have "sorted (map expire ?f)"
    using inv(1) by (metis split map_append sorted_append sorted_filter)
  moreover have "\<forall>t \<in> set ?f. m_timer_map m (m_fd (snd t)) = Some t \<and> (\<exists>j. expire t \<le> clk j)"
    using popped_set [of clk 0 ?h] popped_expired [of _ clk 0 ?h] tm_inv_live [OF assms(1)]
    by (fastforce simp: subset_iff)
  moreover have "\<forall>tid t. m_timer_map m tid = Some t \<and> expire t \<le> clk 0 \<longrightarrow> t \<in> set ?f"
    using tm_inv_map_live [OF assms(1)] popped_complete [OF assms(3) inv(1), where i = 0] by fastforce
  moreover have "tm_inv ?m'"
  proof -
    have "t \<in> set (drop (length ?p) ?h)" if "forget ?f (m_timer_map m) tid = Some t" for tid t
    proof -
      from that have t: "m_timer_map m tid = Some t" "\<forall>u \<in> set ?f. m_fd (snd u) \<noteq> tid"
        by (auto simp: forget_def split: if_splits)
      with tm_inv_map_live [OF assms(1)] have "t \<in> set ?h" "t \<notin> set ?p" by fastforce+
      then show ?thesis by (metis Un_iff set_append split)
    qed
    then show ?thesis
      using assms(1) inv
      by (auto simp: tm_inv_def sorted_wrt_drop drop_map [symmetric] forget_def split: if_splits
          dest: in_set_dropD)
  qed
  ultimately show ?thesis
    by (intro exI [of _ ?m'] exI [of _ ?f]) (simp add: set_drop_subset)
qed

section \<open>Properties\<close>

text \<open>C16. On a manager without repeating timers and with a clock that does not run backwards,
  \<open>tick\<close> returns; it runs exactly the callbacks of timers that are the current ones of their id and
  are expired, in order of expiry and each once: every current timer expired at the first reading
  runs, and whatever runs was expired at some reading. Exactly the ids that ran leave the table,
  so a timer replaced by a later \<open>addTimer\<close> never runs, and the invariant is kept.\<close>

theorem tick_fires:
  assumes "tm_inv m" "once m" "mono clk"
  shows "\<exists>m' fired. tick run clk m s = Some (m', fire_all run fired s) \<and>
     distinct fired \<and> sorted (map expire fired) \<and>
     (\<forall>t \<in> set fired. m_timer_map m (m_fd (snd t)) = Some t \<and> (\<exists>j. expire t \<le> clk j)) \<and>
     (\<forall>tid t. m_timer_map m tid = Some t \<and> expire t \<le> clk 0 \<longrightarrow> t \<in> set fired) \<and>
     m_timer_map m' = forget fired (m_timer_map m) \<and> tm_inv m'"
  using tick_once [OF assms, of run s] by blast

theorem tick_fires_witness:
  "let m = addTimer (addTimer (addTimer tm_init 7 (Some ''old'') 5 False 0) 7 (Some ''new'') 9 False 0)
             8 (Some ''late'') 50 False 0;
       clk = (\<lambda>i. 20 * ns_per_ms + int i)
   in \<exists>m' fired. tick (\<lambda>cb s. s @ [cb]) clk m [] = Some (m', fire_all (\<lambda>cb s. s @ [cb]) fired []) \<and>
     distinct fired \<and> sorted (map expire fired) \<and>
     (\<forall>t \<in> set fired. m_timer_map m (m_fd (snd t)) = Some t \<and> (\<exists>j. expire t \<le> clk j)) \<and>
     (\<forall>tid t. m_timer_map m tid = Some t \<and> expire t \<le> clk 0 \<longrightarrow> t \<in> set fired) \<and>
     m_timer_map m' = forget fired (m_timer_map m) \<and> tm_inv m'"
  unfolding Let_def
  by (rule tick_fires)
(simp_all add: mono_def)



text \<open>A connection whose timer is refreshed is not timed out by the timer it replaced: after
  \<open>addTimer(id, \<dots>, timeout)\<close> at \<open>now\<close>, a \<open>tick\<close> whose readings stay before \<open>now + timeout\<close> leaves the
  new timer in place and unexpired.\<close>

theorem refresh_defers:
  assumes "tm_inv m" "once m" "mono clk" "\<forall>i. clk i < now + ms * ns_per_ms"
  shows "\<exists>m' s'. tick run clk (addTimer m tid cb ms False now) s = Some (m', s') \<and>
     m_timer_map m' tid = m_timer_map (addTimer m tid cb ms False now) tid \<and>
     \<not> tm_isExpired m' tid (clk i)"
proof -
  let ?m = "addTimer m tid cb ms False now"
  have add: "m_timer_map ?m tid = Some (m_timer_alloc m, TimerNode tid cb ms False now)"
    by (simp add: addTimer_def tm_insert_def Let_def TimerNode_def)
  have "once ?m"
    using assms(2) by (simp add: addTimer_def tm_insert_def Let_def TimerNode_def)
  from tick_loop_once [OF this, of run clk 0 s]
  obtain m' s' where t: "tick run clk ?m s = Some (m', s')"
    "m_timer_map m' = forget (filter (live ?m) (popped clk 0 (m_timer_heap ?m))) (m_timer_map ?m)"
    using assms(1) tm_inv_addTimer [of m tid cb ms False now] by (auto simp: tick_def Let_def tm_inv_def)
  have "m_fd (snd u) \<noteq> tid" if "u \<in> set (popped clk 0 (m_timer_heap ?m))" "live ?m u" for u
  proof
    assume "m_fd (snd u) = tid"
    moreover have "u \<in> set (m_timer_heap ?m)" using that popped_set by fastforce
    ultimately have "u = (m_timer_alloc m, TimerNode tid cb ms False now)"
      using tm_inv_live [OF _ that(2)] assms(1) add by simp
    with popped_expired [OF that(1)] assms(4) show False by (auto simp: TimerNode_def) (metis not_less)
  qed
  then have "m_timer_map m' tid = m_timer_map ?m tid" unfolding t(2) by (intro forget_keep) auto
  with t add assms(4) [rule_format, of i] show ?thesis
    by (auto simp: tm_isExpired_def node_isExpired_def TimerNode_def)
qed

theorem refresh_defers_witness:
  "\<exists>m' s'. tick (\<lambda>cb s. s @ [cb]) (\<lambda>_. 6 * ns_per_ms)
       (addTimer (addTimer tm_init 7 (Some ''close'') 5 False 0) 7 (Some ''close'') 5 False (4 * ns_per_ms)) []
       = Some (m', s') \<and>
     m_timer_map m' 7 = m_timer_map
       (addTimer (addTimer tm_init 7 (Some ''close'') 5 False 0) 7 (Some ''close'') 5 False (4 * ns_per_ms)) 7 \<and>
     \<not> tm_isExpired m' 7 (6 * ns_per_ms)"
  by (rule refresh_defers [where i = 0, where clk = "\<lambda>_. 6 * ns_per_ms"])
    (simp_all add: mono_def)

end
