(* ===== verification/Timed_Table.thy ===== *)
theory Timed_Table
  imports Timer_Manager
begin

text \<open>
  What the session manager and the token manager have in common: a table of live keys, a table
  from keys to timer ids, a timer manager of their own and a seed for fresh timer ids.

  \<open>timed_inv\<close> says that every live key has an armed timer of its own below the seed,
  \<open>timed_deadline\<close> is the time from which a key counts as expired. The lemmas say what arming a
  fresh timer for a key, re-arming the timer of a key and forgetting a key do to both; they rest
  on the facts \<open>tm\<close> about the timer manager only.
\<close>

definition timed_inv :: "('k \<Rightarrow> bool) \<Rightarrow> ('k \<rightharpoonup> int) \<Rightarrow> 'c timer_manager \<Rightarrow> int \<Rightarrow> bool" where
  "timed_inv alive timers tmgr seed \<longleftrightarrow>
     tm_inv tmgr \<and> 0 < seed \<and>
     (\<forall>k. alive k \<longrightarrow> (\<exists>t. timers k = Some t \<and> 0 < t \<and> t < seed \<and> deadline tmgr t \<noteq> None)) \<and>
     (\<forall>k k'. alive k \<longrightarrow> alive k' \<longrightarrow> timers k = timers k' \<longrightarrow> k = k')"

definition timed_deadline :: "('k \<rightharpoonup> int) \<Rightarrow> 'c timer_manager \<Rightarrow> 'k \<Rightarrow> time option" where
  "timed_deadline timers tmgr k = Option.bind (timers k) (deadline tmgr)"

lemma timed_inv_tm:
  "timed_inv alive timers tmgr seed \<Longrightarrow> tm_inv tmgr"
  "timed_inv alive timers tmgr seed \<Longrightarrow> 0 < seed"
  by (simp_all add: timed_inv_def)

lemma timed_invE:
  assumes "timed_inv alive timers tmgr seed" "alive k"
  obtains t d where "timers k = Some t" "0 < t" "t < seed" "deadline tmgr t = Some d"
  using assms unfolding timed_inv_def by blast

lemma timed_inv_inj:
  "timed_inv alive timers tmgr seed \<Longrightarrow> alive k \<Longrightarrow> alive k' \<Longrightarrow> timers k = timers k' \<Longrightarrow> k = k'"
  unfolding timed_inv_def by blast

lemma timed_inv_init: "0 < seed \<Longrightarrow> timed_inv (\<lambda>_. False) Map.empty tm_init seed"
  by (simp add: timed_inv_def)

text \<open>Fewer live keys, and the same timers for them.\<close>

lemma timed_inv_frame:
  assumes "timed_inv alive timers tmgr seed" "\<And>k. alive' k \<Longrightarrow> alive k"
    and "\<And>k. alive' k \<Longrightarrow> timers' k = timers k"
  shows "timed_inv alive' timers' tmgr seed"
  using assms unfolding timed_inv_def by metis

text \<open>A fresh timer for the key \<open>k\<close>.\<close>

lemma timed_inv_fresh:
  assumes "timed_inv alive timers tmgr seed" "\<And>x. alive' x \<longleftrightarrow> x = k \<or> alive x"
  shows "timed_inv alive' (timers(k \<mapsto> seed)) (addTimer tmgr seed cb ms rep now) (seed + 1)"
  unfolding timed_inv_def
proof (intro conjI allI impI)
  show "tm_inv (addTimer tmgr seed cb ms rep now)" using timed_inv_tm [OF assms(1)] by simp
  show "0 < seed + 1" using timed_inv_tm [OF assms(1)] by simp
  fix x assume x: "alive' x"
  show "\<exists>t. (timers(k \<mapsto> seed)) x = Some t \<and> 0 < t \<and> t < seed + 1 \<and>
      deadline (addTimer tmgr seed cb ms rep now) t \<noteq> None"
  proof (cases "x = k")
    case True
    then show ?thesis using timed_inv_tm [OF assms(1)] by (simp add: tm.due_add)
  next
    case False
    with x assms(2) have "alive x" by simp
    with assms(1) obtain t d where "timers x = Some t" "0 < t" "t < seed" "deadline tmgr t = Some d"
      by (rule timed_invE)
    with False show ?thesis by (simp add: tm.due_add)
  qed
next
  fix x y assume "alive' x" "alive' y" "(timers(k \<mapsto> seed)) x = (timers(k \<mapsto> seed)) y"
  moreover have "alive z \<Longrightarrow> timers z \<noteq> Some seed" for z
    using assms(1) by (metis less_irrefl option.inject timed_invE)
  ultimately show "x = y"
    using timed_inv_inj [OF assms(1)] assms(2) by (auto split: if_splits)
qed

text \<open>The timer of the live key \<open>k\<close> armed anew.\<close>

lemma timed_inv_rearm:
  assumes "timed_inv alive timers tmgr seed"
  shows "timed_inv alive timers (addTimer tmgr t cb ms rep now) seed"
proof -
  have "alive x \<Longrightarrow> \<exists>t'. timers x = Some t' \<and> 0 < t' \<and> t' < seed \<and>
      deadline (addTimer tmgr t cb ms rep now) t' \<noteq> None" for x
    by (erule timed_invE [OF assms]) (simp add: tm.due_add)
  with assms show ?thesis unfolding timed_inv_def by simp
qed

lemma timed_deadline_fresh:
  assumes "timed_inv alive timers tmgr seed"
  shows "timed_deadline (timers(k \<mapsto> seed)) (addTimer tmgr seed cb ms rep now) k =
      Some (now + ms * ns_per_ms)"
    and "alive x \<Longrightarrow> x \<noteq> k \<Longrightarrow>
      timed_deadline (timers(k \<mapsto> seed)) (addTimer tmgr seed cb ms rep now) x = timed_deadline timers tmgr x"
proof -
  show "timed_deadline (timers(k \<mapsto> seed)) (addTimer tmgr seed cb ms rep now) k =
      Some (now + ms * ns_per_ms)"
    by (simp add: timed_deadline_def tm.due_add)
  assume "alive x" "x \<noteq> k"
  with assms obtain t d where "timers x = Some t" "t < seed" by (metis timed_invE)
  with \<open>x \<noteq> k\<close> show "timed_deadline (timers(k \<mapsto> seed)) (addTimer tmgr seed cb ms rep now) x =
      timed_deadline timers tmgr x"
    by (simp add: timed_deadline_def tm.due_add)
qed

lemma timed_deadline_rearm:
  assumes "timed_inv alive timers tmgr seed" "alive k" "timers k = Some t"
  shows "timed_deadline timers (addTimer tmgr t cb ms rep now) k = Some (now + ms * ns_per_ms)"
    and "alive x \<Longrightarrow> x \<noteq> k \<Longrightarrow>
      timed_deadline timers (addTimer tmgr t cb ms rep now) x = timed_deadline timers tmgr x"
proof -
  show "timed_deadline timers (addTimer tmgr t cb ms rep now) k = Some (now + ms * ns_per_ms)"
    using assms(3) by (simp add: timed_deadline_def tm.due_add)
  assume "alive x" "x \<noteq> k"
  with assms have "timers x \<noteq> Some t" by (metis timed_inv_inj)
  then show "timed_deadline timers (addTimer tmgr t cb ms rep now) x = timed_deadline timers tmgr x"
    by (auto simp: timed_deadline_def tm.due_add split: Option.bind_splits)
qed

lemma timed_expired_iff:
  assumes "timed_inv alive timers tmgr seed" "alive k"
  shows "tm_isExpired tmgr (case timers k of None \<Rightarrow> 0 | Some t \<Rightarrow> t) now \<longleftrightarrow>
    (\<exists>d. timed_deadline timers tmgr k = Some d \<and> d \<le> now)"
  by (rule timed_invE [OF assms]) (simp add: timed_deadline_def tm.expired_iff)

end
