(* ===== verification/Session_Manager.thy ===== *)
theory Session_Manager
  imports Timed_Table
begin

text \<open>
  Sessions: \<open>src/session/session_manager.h\<close> and \<open>session_manager.cpp\<close>.

  The manager keeps the sessions, the id of the timer of each session and a timer manager of its
  own; \<open>timer_seed\<close> is the next timer id. The closure a timer gets is \<open>Clean_session id\<close>. Clock
  readings and the text of the thread id are arguments. \<open>m_session_timers[id]\<close> inserts the value \<open>0\<close>
  for an unknown id, so \<open>isSessionIdExpired\<close> changes the state.

  The invariant and the deadlines are those of \<open>Timed_Table\<close>.
\<close>

section \<open>Model\<close>

datatype session_cb = Clean_session string

record session =
  sess_data :: "string \<rightharpoonup> string"
  expireTime :: time

record session_manager =
  m_sessions :: "string \<rightharpoonup> session"
  m_session_timers :: "string \<rightharpoonup> int"
  m_session_tm :: "session_cb timer_manager"
  session_timer_seed :: int

definition session_init :: session_manager where
  "session_init = \<lparr>m_sessions = Map.empty, m_session_timers = Map.empty, m_session_tm = tm_init,
                   session_timer_seed = 1000000\<rparr>"

definition session_id_text :: "time \<Rightarrow> string \<Rightarrow> string" where
  "session_id_text now tid = ''sess_'' @ to_string now @ ''_'' @ tid"

text \<open>Readings: \<open>t1\<close> for the id, \<open>t2\<close> for \<open>expireTime\<close>, \<open>t3\<close> in the timer node.\<close>

definition createSession ::
  "session_manager \<Rightarrow> int \<Rightarrow> time \<Rightarrow> time \<Rightarrow> time \<Rightarrow> string \<Rightarrow> string \<times> session_manager" where
  "createSession sm timeout_ms t1 t2 t3 tid =
     (let sid = session_id_text t1 tid;
          sess = \<lparr>sess_data = Map.empty, expireTime = t2 + timeout_ms * ns_per_ms\<rparr>;
          timer_id = session_timer_seed sm
      in (sid, sm\<lparr>m_sessions := (m_sessions sm)(sid \<mapsto> sess),
                  session_timer_seed := timer_id + 1,
                  m_session_timers := (m_session_timers sm)(sid \<mapsto> timer_id),
                  m_session_tm := addTimer (m_session_tm sm) timer_id (Some (Clean_session sid))
                                    timeout_ms False t3\<rparr>))"

definition session_exists :: "session_manager \<Rightarrow> string \<Rightarrow> bool" where
  "session_exists sm sid \<longleftrightarrow> m_sessions sm sid \<noteq> None"

definition isSessionIdValid :: "session_manager \<Rightarrow> string \<Rightarrow> bool" where
  "isSessionIdValid sm sid = session_exists sm sid"

definition isSessionIdExpired :: "session_manager \<Rightarrow> string \<Rightarrow> time \<Rightarrow> bool \<times> session_manager" where
  "isSessionIdExpired sm sid now =
     (let t = (case m_session_timers sm sid of None \<Rightarrow> 0 | Some t \<Rightarrow> t)
      in (tm_isExpired (m_session_tm sm) t now,
          sm\<lparr>m_session_timers := (m_session_timers sm)(sid \<mapsto> t)\<rparr>))"

definition session_set :: "session_manager \<Rightarrow> string \<Rightarrow> string \<Rightarrow> string \<Rightarrow> session_manager" where
  "session_set sm sid key val =
     (case m_sessions sm sid of
        None \<Rightarrow> sm
      | Some s \<Rightarrow> sm\<lparr>m_sessions := (m_sessions sm)(sid \<mapsto> s\<lparr>sess_data := (sess_data s)(key \<mapsto> val)\<rparr>)\<rparr>)"

definition session_get :: "session_manager \<Rightarrow> string \<Rightarrow> string \<Rightarrow> string" where
  "session_get sm sid key =
     (case m_sessions sm sid of
        None \<Rightarrow> []
      | Some s \<Rightarrow> (case sess_data s key of None \<Rightarrow> [] | Some v \<Rightarrow> v))"

definition removeSession :: "session_manager \<Rightarrow> string \<Rightarrow> session_manager" where
  "removeSession sm sid =
     sm\<lparr>m_sessions := (m_sessions sm)(sid := None),
        m_session_timers := (m_session_timers sm)(sid := None)\<rparr>"

definition session_refresh :: "session_manager \<Rightarrow> string \<Rightarrow> int \<Rightarrow> time \<Rightarrow> time \<Rightarrow> session_manager" where
  "session_refresh sm sid timeout_ms t1 t2 =
     (case m_sessions sm sid of
        None \<Rightarrow> sm
      | Some s \<Rightarrow>
          (let sm' = sm\<lparr>m_sessions := (m_sessions sm)(sid \<mapsto> s\<lparr>expireTime := t1 + timeout_ms * ns_per_ms\<rparr>)\<rparr>
           in case m_session_timers sm' sid of
                None \<Rightarrow> sm'
              | Some timer_id \<Rightarrow>
                  sm'\<lparr>m_session_tm := addTimer (m_session_tm sm') timer_id (Some (Clean_session sid))
                                        timeout_ms False t2\<rparr>))"

definition cleanSession :: "session_manager \<Rightarrow> string \<Rightarrow> session_manager" where
  "cleanSession sm sid = removeSession sm sid"

subsection \<open>Sequences of calls\<close>

datatype session_op =
    S_create int time time time string
  | S_expired string time
  | S_set string string string
  | S_remove string
  | S_refresh string int time time

fun session_step :: "session_manager \<Rightarrow> session_op \<Rightarrow> session_manager" where
  "session_step sm (S_create ms t1 t2 t3 tid) = snd (createSession sm ms t1 t2 t3 tid)"
| "session_step sm (S_expired sid now) = snd (isSessionIdExpired sm sid now)"
| "session_step sm (S_set sid k v) = session_set sm sid k v"
| "session_step sm (S_remove sid) = removeSession sm sid"
| "session_step sm (S_refresh sid ms t1 t2) = session_refresh sm sid ms t1 t2"

definition session_run :: "session_op list \<Rightarrow> session_manager \<Rightarrow> session_manager" where
  "session_run ops sm = foldl session_step sm ops"

section \<open>The invariant\<close>

text \<open>Every session has a timer of its own, armed and numbered below the seed.\<close>

definition session_inv :: "session_manager \<Rightarrow> bool" where
  "session_inv sm \<longleftrightarrow>
     timed_inv (session_exists sm) (m_session_timers sm) (m_session_tm sm) (session_timer_seed sm)"

definition session_deadline :: "session_manager \<Rightarrow> string \<Rightarrow> time option" where
  "session_deadline sm = timed_deadline (m_session_timers sm) (m_session_tm sm)"

lemma session_inv_init [simp]: "session_inv session_init"
proof -
  have "session_exists session_init = (\<lambda>_. False)"
    by (simp add: fun_eq_iff session_exists_def session_init_def)
  then show ?thesis by (simp add: session_inv_def session_init_def timed_inv_init)
qed

lemma session_inv_create: "session_inv sm \<Longrightarrow> session_inv (snd (createSession sm ms t1 t2 t3 tid))"
  unfolding session_inv_def
  by (simp add: createSession_def Let_def, erule timed_inv_fresh) (simp add: session_exists_def)

text \<open>Operations that do not touch the timer manager.\<close>

lemma session_inv_frame:
  assumes "session_inv sm" "m_session_tm sm' = m_session_tm sm"
    "session_timer_seed sm' = session_timer_seed sm"
    and "\<And>x. session_exists sm' x \<Longrightarrow> session_exists sm x"
    and "\<And>x. session_exists sm' x \<Longrightarrow> m_session_timers sm' x = m_session_timers sm x"
  shows "session_inv sm'"
  unfolding session_inv_def assms(2,3)
  by (rule timed_inv_frame [OF assms(1) [unfolded session_inv_def]]) (use assms in simp_all)

lemma session_inv_expired:
  assumes "session_inv sm"
  shows "session_inv (snd (isSessionIdExpired sm sid now))"
proof (rule session_inv_frame [OF assms])
  fix x assume "session_exists (snd (isSessionIdExpired sm sid now)) x"
  then have "session_exists sm x" by (simp add: isSessionIdExpired_def session_exists_def Let_def)
  then obtain t where "m_session_timers sm x = Some t"
    using assms unfolding session_inv_def by (metis timed_invE)
  then show "m_session_timers (snd (isSessionIdExpired sm sid now)) x = m_session_timers sm x"
    by (auto simp: isSessionIdExpired_def Let_def)
qed (simp_all add: isSessionIdExpired_def session_exists_def Let_def)

lemma session_inv_set: "session_inv sm \<Longrightarrow> session_inv (session_set sm sid k v)"
  by (rule session_inv_frame [of sm])
    (auto simp: session_set_def session_exists_def split: option.splits if_splits)

lemma session_inv_remove: "session_inv sm \<Longrightarrow> session_inv (removeSession sm sid)"
  by (rule session_inv_frame [of sm]) (auto simp: removeSession_def session_exists_def split: if_splits)

lemma session_inv_refresh:
  assumes "session_inv sm"
  shows "session_inv (session_refresh sm sid ms t1 t2)"
proof -
  have "session_exists (session_refresh sm sid ms t1 t2) = session_exists sm"
    "m_session_timers (session_refresh sm sid ms t1 t2) = m_session_timers sm"
    "session_timer_seed (session_refresh sm sid ms t1 t2) = session_timer_seed sm"
    by (auto simp: fun_eq_iff session_exists_def session_refresh_def Let_def split: option.splits)
  moreover have "m_session_tm (session_refresh sm sid ms t1 t2) = m_session_tm sm \<or>
      (\<exists>t. m_session_tm (session_refresh sm sid ms t1 t2) =
        addTimer (m_session_tm sm) t (Some (Clean_session sid)) ms False t2)"
    by (auto simp: session_refresh_def Let_def split: option.splits)
  ultimately show ?thesis using assms timed_inv_rearm unfolding session_inv_def by metis
qed

lemma session_inv_step: "session_inv sm \<Longrightarrow> session_inv (session_step sm opn)"
  by (cases opn) (simp_all add: session_inv_create session_inv_expired session_inv_set
      session_inv_remove session_inv_refresh)

lemma session_inv_run: "session_inv sm \<Longrightarrow> session_inv (session_run ops sm)"
  by (induction ops arbitrary: sm) (simp_all add: session_run_def session_inv_step)

section \<open>What other sessions do not disturb\<close>

fun spares :: "string \<Rightarrow> session_op \<Rightarrow> bool" where
  "spares sid (S_create ms t1 t2 t3 tid) \<longleftrightarrow> session_id_text t1 tid \<noteq> sid"
| "spares sid (S_expired sid' now) \<longleftrightarrow> True"
| "spares sid (S_set sid' k v) \<longleftrightarrow> sid' \<noteq> sid"
| "spares sid (S_remove sid') \<longleftrightarrow> sid' \<noteq> sid"
| "spares sid (S_refresh sid' ms t1 t2) \<longleftrightarrow> sid' \<noteq> sid"

lemma session_step_keeps:
  assumes "m_sessions sm sid = Some s" "spares sid opn"
  shows "m_sessions (session_step sm opn) sid = Some s"
  using assms
  by (cases opn) (auto simp: createSession_def isSessionIdExpired_def session_set_def
      removeSession_def session_refresh_def Let_def split: option.splits)

lemma session_deadline_keeps:
  assumes "session_inv sm" "m_sessions sm sid = Some s" "spares sid opn"
  shows "session_deadline (session_step sm opn) sid = session_deadline sm sid"
proof -
  have live: "session_exists sm sid" using assms(2) by (simp add: session_exists_def)
  note inv = assms(1) [unfolded session_inv_def]
  show ?thesis
  proof (cases opn)
    case (S_create ms t1 t2 t3 tid)
    with assms(3) timed_deadline_fresh(2) [OF inv live] show ?thesis
      by (simp add: session_deadline_def createSession_def Let_def)
  next
    case (S_expired x now)
    moreover from inv live obtain t where "m_session_timers sm sid = Some t" by (metis timed_invE)
    ultimately show ?thesis
      by (auto simp: session_deadline_def isSessionIdExpired_def timed_deadline_def Let_def)
  next
    case (S_refresh x ms t1 t2)
    with assms(3) timed_deadline_rearm(2) [OF inv _ _ live, of x] show ?thesis
      by (auto simp: session_deadline_def session_refresh_def session_exists_def Let_def
          split: option.splits)
  qed (use assms(3) in \<open>auto simp: session_deadline_def session_set_def removeSession_def
      timed_deadline_def split: option.splits\<close>)
qed

lemma session_run_spares:
  assumes "session_inv sm" "m_sessions sm sid = Some s" "\<forall>opn \<in> set ops. spares sid opn"
  shows "m_sessions (session_run ops sm) sid = Some s \<and>
    session_deadline (session_run ops sm) sid = session_deadline sm sid"
  using assms
proof (induction ops arbitrary: sm)
  case (Cons x xs)
  have "session_run (x # xs) sm = session_run xs (session_step sm x)" by (simp add: session_run_def)
  with Cons show ?case by (simp add: session_inv_step session_step_keeps session_deadline_keeps)
qed (simp add: session_run_def)

lemma session_expired_iff:
  assumes "session_inv sm" "m_sessions sm sid = Some s"
  shows "fst (isSessionIdExpired sm sid now) \<longleftrightarrow> (\<exists>d. session_deadline sm sid = Some d \<and> d \<le> now)"
  using timed_expired_iff [OF assms(1) [unfolded session_inv_def], of sid now] assms(2)
  by (simp add: isSessionIdExpired_def Let_def session_exists_def session_deadline_def)

lemma createSession_data:
  "m_sessions (snd (createSession sm ms t1 t2 t3 tid)) (fst (createSession sm ms t1 t2 t3 tid)) =
     Some \<lparr>sess_data = Map.empty, expireTime = t2 + ms * ns_per_ms\<rparr>"
  by (simp add: createSession_def Let_def)

lemma createSession_deadline:
  assumes "session_inv sm"
  shows "session_deadline (snd (createSession sm ms t1 t2 t3 tid)) (fst (createSession sm ms t1 t2 t3 tid)) =
     Some (t3 + ms * ns_per_ms)"
  using timed_deadline_fresh(1) [OF assms [unfolded session_inv_def]]
  by (simp add: createSession_def session_deadline_def Let_def)

lemma refresh_effect:
  assumes "session_inv sm" "m_sessions sm sid = Some s"
  shows "session_deadline (session_refresh sm sid ms t1 t2) sid = Some (t2 + ms * ns_per_ms)"
    and "m_sessions (session_refresh sm sid ms t1 t2) sid = Some (s\<lparr>expireTime := t1 + ms * ns_per_ms\<rparr>)"
proof -
  note inv = assms(1) [unfolded session_inv_def]
  have live: "session_exists sm sid" using assms(2) by (simp add: session_exists_def)
  from inv live obtain t where t: "m_session_timers sm sid = Some t" by (metis timed_invE)
  show "session_deadline (session_refresh sm sid ms t1 t2) sid = Some (t2 + ms * ns_per_ms)"
    using timed_deadline_rearm(1) [OF inv live t] t assms(2)
    by (simp add: session_refresh_def session_deadline_def)
  show "m_sessions (session_refresh sm sid ms t1 t2) sid = Some (s\<lparr>expireTime := t1 + ms * ns_per_ms\<rparr>)"
    using t assms(2) by (simp add: session_refresh_def)
qed

fun not_removed :: "string \<Rightarrow> session_op \<Rightarrow> bool" where
  "not_removed sid (S_remove sid') \<longleftrightarrow> sid' \<noteq> sid"
| "not_removed sid _ \<longleftrightarrow> True"

lemma session_step_stays:
  "session_exists sm sid \<Longrightarrow> not_removed sid opn \<Longrightarrow> session_exists (session_step sm opn) sid"
  by (cases opn) (auto simp: session_exists_def createSession_def isSessionIdExpired_def
      session_set_def removeSession_def session_refresh_def Let_def split: option.splits)

section \<open>Properties\<close>



text \<open>Refreshing: \<open>refresh(id, timeout)\<close> at clock \<open>t2\<close> on an existing session keeps its data and
  moves its expiry to exactly \<open>t2 + timeout\<close>.\<close>

theorem session_refresh_extends:
  assumes "session_inv sm" "session_exists sm sid"
  shows "session_get (session_refresh sm sid ms t1 t2) sid key = session_get sm sid key \<and>
    (fst (isSessionIdExpired (session_refresh sm sid ms t1 t2) sid now) \<longleftrightarrow> t2 + ms * ns_per_ms \<le> now)"
proof -
  from assms(2) obtain s where s: "m_sessions sm sid = Some s" by (auto simp: session_exists_def)
  note eff = refresh_effect [OF assms(1) s, of ms t1 t2]
  show ?thesis
    using s eff session_expired_iff [OF session_inv_refresh [OF assms(1), of sid ms t1 t2] eff(2)]
    by (simp add: session_get_def)
qed

theorem session_refresh_extends_witness:
  "let sm = snd (createSession session_init 10 7 8 8 ''42''); sid = fst (createSession session_init 10 7 8 8 ''42'')
   in session_get (session_refresh sm sid 10 20 20) sid ''k'' = session_get sm sid ''k'' \<and>
      (fst (isSessionIdExpired (session_refresh sm sid 10 20 20) sid 30) \<longleftrightarrow> 20 + 10 * ns_per_ms \<le> (30::int))"
  unfolding Let_def
  by (rule session_refresh_extends)
    (simp_all add: session_inv_create session_exists_def createSession_data)

text \<open>Nothing but an explicit \<open>removeSession\<close> of the same id ever takes a session out of the
  manager: \<open>SessionManager\<close> never calls \<open>tick\<close> on its timer manager, so the \<open>cleanSession\<close> callback it
  registers is not run and an expired session stays valid for \<open>isSessionIdValid\<close>.\<close>

theorem session_never_reclaimed:
  assumes "session_exists sm sid" "\<forall>opn \<in> set ops. not_removed sid opn"
  shows "isSessionIdValid (session_run ops sm) sid"
  using assms
  by (induction ops arbitrary: sm)
    (simp_all add: session_run_def session_step_stays isSessionIdValid_def)

theorem session_never_reclaimed_witness:
  "isSessionIdValid
     (session_run [S_expired (fst (createSession session_init 1 7 8 8 ''42'')) (10 ^ 30)]
        (snd (createSession session_init 1 7 8 8 ''42'')))
     (fst (createSession session_init 1 7 8 8 ''42''))"
  by (rule session_never_reclaimed) (simp_all add: session_exists_def createSession_data)

end
