(* ===== verification/Crypto_Utils.thy ===== *)
theory Crypto_Utils
  imports Prelude
begin

text \<open>
  \<open>src/util/crypto_utils.cpp\<close>: the three wrappers around OpenSSL.

  OpenSSL is not part of the repository. Its functions are the fields of \<open>openssl\<close>: \<open>HMAC\<close> with
  SHA-256 (key, data, digest bytes), \<open>EVP_EncodeBlock\<close> (the characters it writes before the closing
  NUL) and \<open>SHA1\<close>. What the sources rely on is \<open>openssl_ok\<close>: a digest is bytes, of 32 and 20 bytes,
  and base64 text has four characters of the base64 alphabet for every three bytes begun.
\<close>

record openssl =
  HMAC_sha256 :: "string \<Rightarrow> string \<Rightarrow> nat list"
  EVP_EncodeBlock :: "string \<Rightarrow> string"
  SHA1 :: "string \<Rightarrow> string"

definition b64_alphabet :: string where
  "b64_alphabet = ''ABCDEFGHIJKLMNOPQRSTUVWXYZabcdefghijklmnopqrstuvwxyz0123456789+/''"

definition openssl_ok :: "openssl \<Rightarrow> bool" where
  "openssl_ok ssl \<longleftrightarrow>
     (\<forall>k d. length (HMAC_sha256 ssl k d) = 32 \<and> (\<forall>b \<in> set (HMAC_sha256 ssl k d). b < 256)) \<and>
     (\<forall>s. length (EVP_EncodeBlock ssl s) = 4 * ((length s + 2) div 3) \<and>
          set (EVP_EncodeBlock ssl s) \<subseteq> insert (CHR ''='') (set b64_alphabet)) \<and>
     (\<forall>s. length (SHA1 ssl s) = 20)"

text \<open>\<open>CryptoUtils::hmacSha256(data, key)\<close>: the digest in lower-case hexadecimal.\<close>

definition hmacSha256 :: "openssl \<Rightarrow> string \<Rightarrow> string \<Rightarrow> string" where
  "hmacSha256 ssl data key = concat (map hex2 (HMAC_sha256 ssl key data))"

text \<open>The size of the buffer \<open>base64Encode\<close> allocates, and the text it builds from the first
  \<open>out_len\<close> bytes of what \<open>EVP_EncodeBlock\<close> wrote there.\<close>

definition base64_buffer :: "string \<Rightarrow> nat" where
  "base64_buffer input = 4 * ((length input + 2) div 3) + 1"

definition base64Encode :: "openssl \<Rightarrow> string \<Rightarrow> string" where
  "base64Encode ssl input =
     (let out = EVP_EncodeBlock ssl input @ [NUL]; out_len = length (EVP_EncodeBlock ssl input)
      in take out_len out)"

definition sha1 :: "openssl \<Rightarrow> string \<Rightarrow> string" where
  "sha1 ssl input = SHA1 ssl input"

section \<open>Lemmas\<close>

lemma base64Encode_eq [simp]: "base64Encode ssl s = EVP_EncodeBlock ssl s"
  by (simp add: base64Encode_def)

lemma base64_no_dot: "openssl_ok ssl \<Longrightarrow> CHR ''.'' \<notin> set (EVP_EncodeBlock ssl s)"
  by (auto simp: openssl_ok_def b64_alphabet_def)

lemma base64_fits:
  "openssl_ok ssl \<Longrightarrow> length (EVP_EncodeBlock ssl s @ [NUL]) = base64_buffer s"
  by (simp add: openssl_ok_def base64_buffer_def)

lemma length_hmacSha256: "openssl_ok ssl \<Longrightarrow> length (hmacSha256 ssl d k) = 64"
  by (simp add: hmacSha256_def length_concat openssl_ok_def sum_list_triv o_def)

section \<open>A concrete instance, for evaluation\<close>

definition b64_char :: "nat \<Rightarrow> char" where
  "b64_char n = b64_alphabet ! (n mod 64)"

fun b64_encode :: "nat list \<Rightarrow> string" where
  "b64_encode [] = []"
| "b64_encode [a] = [b64_char (a div 4), b64_char (16 * (a mod 4)), CHR ''='', CHR ''='']"
| "b64_encode [a, b] =
     [b64_char (a div 4), b64_char (16 * (a mod 4) + b div 16), b64_char (4 * (b mod 16)), CHR ''='']"
| "b64_encode (a # b # c # r) =
     [b64_char (a div 4), b64_char (16 * (a mod 4) + b div 16), b64_char (4 * (b mod 16) + c div 64),
      b64_char c] @ b64_encode r"

text \<open>Base64 itself, with stand-ins of the right sizes for the two digests.\<close>

definition demo_ssl :: openssl where
  "demo_ssl = \<lparr>HMAC_sha256 = (\<lambda>k d. (length k + length d) mod 256 # replicate 31 0),
              EVP_EncodeBlock = (\<lambda>s. b64_encode (map of_char s)),
              SHA1 = (\<lambda>s. take 20 (s @ replicate 20 NUL))\<rparr>"

lemma length_b64_encode: "length (b64_encode xs) = 4 * ((length xs + 2) div 3)"
proof (induction xs rule: b64_encode.induct)
  case (4 a b c r)
  have "(length (a # b # c # r) + 2) div 3 = Suc ((length r + 2) div 3)"
    using div_add_self2 [of 3 "length r + 2"] by (simp add: add.commute)
  with 4 show ?case by simp
qed simp_all

lemma b64_char_alphabet: "b64_char n \<in> set b64_alphabet"
proof -
  have "length b64_alphabet = 64" by (simp add: b64_alphabet_def)
  then show ?thesis by (simp add: b64_char_def)
qed

lemma set_b64_encode: "set (b64_encode xs) \<subseteq> insert (CHR ''='') (set b64_alphabet)"
  by (induction xs rule: b64_encode.induct) (simp_all add: b64_char_alphabet)

lemma openssl_ok_demo [simp]: "openssl_ok demo_ssl"
  using set_b64_encode by (auto simp: openssl_ok_def demo_ssl_def length_b64_encode)

end
