(* ===== verification/Token_Manager.thy ===== *)
theory Token_Manager
  imports Timed_Table Crypto_Utils
begin

text \<open>
  Signed tokens: \<open>src/token/token_manager.h\<close> and \<open>token_manager.cpp\<close>.

  A token is \<open>base64(raw) "." hex(HMAC(base64(raw)))\<close> with
  \<open>raw = token_<clock>_<thread>_<user>\<close>; the manager keeps the user and the timer of every token it
  handed out. OpenSSL is the parameter \<open>ssl\<close> of the operations (see \<open>Crypto_Utils\<close>), clock readings
  and the text of the thread id are arguments. As for sessions, \<open>m_token_timers[token]\<close> inserts \<open>0\<close> for
  an unknown token, so the reading operations return the state as well.
\<close>

section \<open>Model\<close>

datatype token_cb = Clean_token string

record token_manager =
  m_token_username :: "string \<rightharpoonup> string"
  m_token_timers :: "string \<rightharpoonup> int"
  m_token_tm :: "token_cb timer_manager"
  token_timer_seed :: int

definition token_init :: token_manager where
  "token_init = \<lparr>m_token_username = Map.empty, m_token_timers = Map.empty, m_token_tm = tm_init,
                 token_timer_seed = 1000000\<rparr>"

definition secret_key :: string where
  "secret_key = ''my_server_secret_key''"

definition token_text :: "openssl \<Rightarrow> time \<Rightarrow> string \<Rightarrow> string \<Rightarrow> string" where
  "token_text ssl now tid username =
     (let token_raw = ''token_'' @ to_string now @ ''_'' @ tid @ ''_'' @ username;
          token_base64 = base64Encode ssl token_raw;
          token_signature = hmacSha256 ssl token_base64 secret_key
      in token_base64 @ ''.'' @ token_signature)"

text \<open>Readings: \<open>t1\<close> for the text, \<open>t2\<close> in the timer node.\<close>

definition createToken ::
  "openssl \<Rightarrow> token_manager \<Rightarrow> string \<Rightarrow> int \<Rightarrow> time \<Rightarrow> time \<Rightarrow> string \<Rightarrow> string \<times> token_manager" where
  "createToken ssl m username timeout_ms t1 t2 tid =
     (let token = token_text ssl t1 tid username;
          timer_id = token_timer_seed m
      in (token, m\<lparr>m_token_username := (m_token_username m)(token \<mapsto> username),
                   m_token_timers := (m_token_timers m)(token \<mapsto> timer_id),
                   token_timer_seed := timer_id + 1,
                   m_token_tm := addTimer (m_token_tm m) timer_id (Some (Clean_token token))
                                   timeout_ms False t2\<rparr>))"

definition token_exist :: "token_manager \<Rightarrow> string \<Rightarrow> bool" where
  "token_exist m token \<longleftrightarrow> m_token_username m token \<noteq> None"

definition isTokenValid :: "openssl \<Rightarrow> token_manager \<Rightarrow> string \<Rightarrow> bool" where
  "isTokenValid ssl m token =
     (case find_char (CHR ''.'') token of
        None \<Rightarrow> False
      | Some pos \<Rightarrow>
          (let token_base64 = take pos token; token_signature = drop (pos + 1) token
           in if hmacSha256 ssl token_base64 secret_key \<noteq> token_signature then False
              else if \<not> token_exist m token then False
              else True))"

definition isTokenExpired :: "token_manager \<Rightarrow> string \<Rightarrow> time \<Rightarrow> bool \<times> token_manager" where
  "isTokenExpired m token now =
     (let t = (case m_token_timers m token of None \<Rightarrow> 0 | Some t \<Rightarrow> t)
      in (tm_isExpired (m_token_tm m) t now,
          m\<lparr>m_token_timers := (m_token_timers m)(token \<mapsto> t)\<rparr>))"

definition removeToken :: "openssl \<Rightarrow> token_manager \<Rightarrow> string \<Rightarrow> token_manager" where
  "removeToken ssl m token =
     (if \<not> isTokenValid ssl m token then m
      else m\<lparr>m_token_username := (m_token_username m)(token := None),
             m_token_timers := (m_token_timers m)(token := None)\<rparr>)"

definition getUsername :: "openssl \<Rightarrow> token_manager \<Rightarrow> string \<Rightarrow> time \<Rightarrow> string \<times> token_manager" where
  "getUsername ssl m token now =
     (if \<not> isTokenValid ssl m token then ([], m)
      else (let (expired, m') = isTokenExpired m token now
            in if expired then ([], m')
               else (case m_token_username m' token of None \<Rightarrow> ([], m') | Some u \<Rightarrow> (u, m'))))"

definition refreshToken ::
  "openssl \<Rightarrow> token_manager \<Rightarrow> string \<Rightarrow> int \<Rightarrow> time \<Rightarrow> time \<Rightarrow> token_manager" where
  "refreshToken ssl m token timeout_ms t1 t2 =
     (if \<not> isTokenValid ssl m token then m
      else (let (expired, m') = isTokenExpired m token t1
            in if expired then m'
               else (case m_token_timers m' token of
                       None \<Rightarrow> m'
                     | Some timer_id \<Rightarrow>
                         m'\<lparr>m_token_tm := addTimer (m_token_tm m') timer_id (Some (Clean_token token))
                                            timeout_ms False t2\<rparr>)))"

definition cleanToken :: "openssl \<Rightarrow> token_manager \<Rightarrow> string \<Rightarrow> token_manager" where
  "cleanToken ssl m token = removeToken ssl m token"

subsection \<open>Sequences of calls\<close>

datatype token_op =
    T_create string int time time string
  | T_expired string time
  | T_remove string
  | T_username string time
  | T_refresh string int time time

fun token_step :: "openssl \<Rightarrow> token_manager \<Rightarrow> token_op \<Rightarrow> token_manager" where
  "token_step ssl m (T_create u ms t1 t2 tid) = snd (createToken ssl m u ms t1 t2 tid)"
| "token_step ssl m (T_expired tok now) = snd (isTokenExpired m tok now)"
| "token_step ssl m (T_remove tok) = removeToken ssl m tok"
| "token_step ssl m (T_username tok now) = snd (getUsername ssl m tok now)"
| "token_step ssl m (T_refresh tok ms t1 t2) = refreshToken ssl m tok ms t1 t2"

definition token_run :: "openssl \<Rightarrow> token_op list \<Rightarrow> token_manager \<Rightarrow> token_manager" where
  "token_run ssl ops m = foldl (token_step ssl) m ops"

section \<open>The invariant\<close>

text \<open>Every token has an armed timer of its own, and its text was signed here.\<close>

definition signed :: "openssl \<Rightarrow> string \<Rightarrow> bool" where
  "signed ssl token \<longleftrightarrow>
     (\<exists>raw. token = base64Encode ssl raw @ ''.'' @ hmacSha256 ssl (base64Encode ssl raw) secret_key)"

definition token_inv :: "openssl \<Rightarrow> token_manager \<Rightarrow> bool" where
  "token_inv ssl m \<longleftrightarrow>
     timed_inv (token_exist m) (m_token_timers m) (m_token_tm m) (token_timer_seed m) \<and>
     (\<forall>tok. token_exist m tok \<longrightarrow> signed ssl tok)"

definition token_deadline :: "token_manager \<Rightarrow> string \<Rightarrow> time option" where
  "token_deadline m = timed_deadline (m_token_timers m) (m_token_tm m)"

lemma token_inv_timed: "token_inv ssl m \<Longrightarrow>
    timed_inv (token_exist m) (m_token_timers m) (m_token_tm m) (token_timer_seed m)"
  by (simp add: token_inv_def)

lemma token_inv_init [simp]: "token_inv ssl token_init"
proof -
  have "token_exist token_init = (\<lambda>_. False)"
    by (simp add: fun_eq_iff token_exist_def token_init_def)
  then show ?thesis by (simp add: token_inv_def token_init_def timed_inv_init)
qed

lemma signed_token_text: "signed ssl (token_text ssl now tid u)"
  by (auto simp: signed_def token_text_def Let_def)

text \<open>A signed token passes the checks of format and signature: base64 text has no dot, so the
  first dot is the separator.\<close>

lemma valid_iff_exist:
  assumes "openssl_ok ssl" "signed ssl token"
  shows "isTokenValid ssl m token \<longleftrightarrow> token_exist m token"
proof -
  from assms(2) obtain raw where
    raw: "token = base64Encode ssl raw @ CHR ''.'' # hmacSha256 ssl (base64Encode ssl raw) secret_key"
    by (auto simp: signed_def)
  then have "find_char (CHR ''.'') token = Some (length (base64Encode ssl raw))"
    using base64_no_dot [OF assms(1), of raw] by (simp add: find_char_append)
  then show ?thesis using raw by (simp add: isTokenValid_def Let_def)
qed

lemma valid_exist: "isTokenValid ssl m token \<Longrightarrow> token_exist m token"
  by (simp add: isTokenValid_def Let_def split: option.splits if_splits)

text \<open>On a known token the look-up of its timer inserts nothing.\<close>

lemma isTokenExpired_known:
  assumes "token_inv ssl m" "token_exist m token"
  shows "isTokenExpired m token now = (\<exists>d. token_deadline m token = Some d \<and> d \<le> now, m)"
proof -
  note inv = token_inv_timed [OF assms(1)]
  obtain t where "m_token_timers m token = Some t" using inv assms(2) by (metis timed_invE)
  moreover from this have "(m_token_timers m)(token \<mapsto> t) = m_token_timers m" by (simp add: fun_upd_idem)
  ultimately show ?thesis
    using timed_expired_iff [OF inv assms(2), of now]
    by (simp add: isTokenExpired_def Let_def token_deadline_def)
qed

lemma refreshToken_known:
  assumes "token_inv ssl m" "isTokenValid ssl m token"
  obtains t where "m_token_timers m token = Some t"
    "refreshToken ssl m token ms t1 t2 =
       (if \<exists>d. token_deadline m token = Some d \<and> d \<le> t1 then m
        else m\<lparr>m_token_tm := addTimer (m_token_tm m) t (Some (Clean_token token)) ms False t2\<rparr>)"
proof -
  note ex = valid_exist [OF assms(2)]
  obtain t where t: "m_token_timers m token = Some t"
    using token_inv_timed [OF assms(1)] ex by (metis timed_invE)
  show thesis
    by (rule that [OF t])
      (auto simp: refreshToken_def assms(2) isTokenExpired_known [OF assms(1) ex] t)
qed

lemma token_inv_create:
  assumes "token_inv ssl m"
  shows "token_inv ssl (snd (createToken ssl m u ms t1 t2 tid))"
proof -
  have "timed_inv (token_exist (snd (createToken ssl m u ms t1 t2 tid)))
      ((m_token_timers m)(token_text ssl t1 tid u \<mapsto> token_timer_seed m))
      (addTimer (m_token_tm m) (token_timer_seed m) (Some (Clean_token (token_text ssl t1 tid u))) ms False t2)
      (token_timer_seed m + 1)"
    by (rule timed_inv_fresh [OF token_inv_timed [OF assms]])
      (simp add: createToken_def token_exist_def Let_def)
  moreover have "token_exist (snd (createToken ssl m u ms t1 t2 tid)) x \<Longrightarrow> signed ssl x" for x
    using assms signed_token_text
    by (auto simp: createToken_def Let_def token_inv_def token_exist_def split: if_splits)
  ultimately show ?thesis by (simp add: token_inv_def createToken_def Let_def)
qed

lemma token_inv_expired:
  assumes "token_inv ssl m"
  shows "token_inv ssl (snd (isTokenExpired m token now))"
proof (cases "token_exist m token")
  case True
  with assms show ?thesis by (simp add: isTokenExpired_known)
next
  case False
  have ex: "token_exist (snd (isTokenExpired m token now)) = token_exist m"
    by (simp add: isTokenExpired_def token_exist_def fun_eq_iff Let_def)
  have "timed_inv (token_exist m) (m_token_timers (snd (isTokenExpired m token now)))
      (m_token_tm m) (token_timer_seed m)"
    by (rule timed_inv_frame [OF token_inv_timed [OF assms]])
      (use False in \<open>auto simp: isTokenExpired_def Let_def\<close>)
  with assms ex show ?thesis by (simp add: token_inv_def) (simp add: isTokenExpired_def Let_def)
qed

lemma token_inv_remove:
  assumes "token_inv ssl m"
  shows "token_inv ssl (removeToken ssl m token)"
proof -
  have "timed_inv (token_exist (removeToken ssl m token)) (m_token_timers (removeToken ssl m token))
      (m_token_tm m) (token_timer_seed m)"
    by (rule timed_inv_frame [OF token_inv_timed [OF assms]])
      (auto simp: removeToken_def token_exist_def split: if_splits)
  with assms show ?thesis
    by (auto simp: token_inv_def removeToken_def token_exist_def split: if_splits)
qed

lemma token_inv_username: "token_inv ssl m \<Longrightarrow> token_inv ssl (snd (getUsername ssl m token now))"
  using token_inv_expired [of ssl m token now]
  by (auto simp: getUsername_def split: prod.splits option.splits)

lemma token_inv_refresh:
  assumes "token_inv ssl m"
  shows "token_inv ssl (refreshToken ssl m token ms t1 t2)"
proof (cases "isTokenValid ssl m token")
  case True
  show ?thesis
  proof (rule refreshToken_known [OF assms True, of ms t1 t2])
    fix t assume "refreshToken ssl m token ms t1 t2 =
       (if \<exists>d. token_deadline m token = Some d \<and> d \<le> t1 then m
        else m\<lparr>m_token_tm := addTimer (m_token_tm m) t (Some (Clean_token token)) ms False t2\<rparr>)"
    moreover have "token_exist (m\<lparr>m_token_tm := x\<rparr>) = token_exist m" for x
      by (simp add: token_exist_def fun_eq_iff)
    ultimately show ?thesis
      using assms timed_inv_rearm [OF token_inv_timed [OF assms]] by (simp add: token_inv_def)
  qed
next
  case False
  then show ?thesis by (simp add: refreshToken_def assms)
qed

lemma token_inv_step: "token_inv ssl m \<Longrightarrow> token_inv ssl (token_step ssl m opn)"
  by (cases opn) (simp_all add: token_inv_create token_inv_expired token_inv_remove
      token_inv_username token_inv_refresh)

lemma token_inv_run: "token_inv ssl m \<Longrightarrow> token_inv ssl (token_run ssl ops m)"
  by (induction ops arbitrary: m) (simp_all add: token_run_def token_inv_step)

section \<open>What a step does to one token\<close>

fun creates :: "openssl \<Rightarrow> string \<Rightarrow> token_op \<Rightarrow> bool" where
  "creates ssl tok (T_create u ms t1 t2 tid) \<longleftrightarrow> tok = token_text ssl t1 tid u"
| "creates ssl tok _ \<longleftrightarrow> False"

fun spares_token :: "openssl \<Rightarrow> string \<Rightarrow> token_op \<Rightarrow> bool" where
  "spares_token ssl tok (T_create u ms t1 t2 tid) \<longleftrightarrow> tok \<noteq> token_text ssl t1 tid u"
| "spares_token ssl tok (T_remove tok') \<longleftrightarrow> tok' \<noteq> tok"
| "spares_token ssl tok (T_refresh tok' ms t1 t2) \<longleftrightarrow> tok' \<noteq> tok"
| "spares_token ssl tok _ \<longleftrightarrow> True"

lemma username_isTokenExpired [simp]:
  "m_token_username (snd (isTokenExpired m tok now)) = m_token_username m"
  by (simp add: isTokenExpired_def Let_def)

lemma username_getUsername [simp]:
  "m_token_username (snd (getUsername ssl m tok now)) = m_token_username m"
  by (cases "isTokenExpired m tok now")
    (use username_isTokenExpired [of m tok now] in \<open>simp add: getUsername_def split: option.splits\<close>)

lemma username_refreshToken [simp]:
  "m_token_username (refreshToken ssl m tok ms t1 t2) = m_token_username m"
  by (cases "isTokenExpired m tok t1")
    (use username_isTokenExpired [of m tok t1] in \<open>simp add: refreshToken_def split: option.splits\<close>)

lemma exist_step:
  assumes "openssl_ok ssl" "token_inv ssl m"
  shows "token_exist (token_step ssl m opn) tok \<longleftrightarrow>
    creates ssl tok opn \<or> token_exist m tok \<and> opn \<noteq> T_remove tok"
proof (cases opn)
  case (T_remove x)
  show ?thesis
  proof (cases "token_exist m x")
    case True
    then have "isTokenValid ssl m x"
      using assms valid_iff_exist [OF assms(1)] by (simp add: token_inv_def)
    then show ?thesis using T_remove by (auto simp: removeToken_def token_exist_def)
  next
    case False
    then have "\<not> isTokenValid ssl m x" using valid_exist by blast
    then show ?thesis using T_remove False by (auto simp: removeToken_def)
  qed
qed (auto simp: token_exist_def createToken_def Let_def)

lemma username_step:
  assumes "m_token_username m tok = Some u" "spares_token ssl tok opn"
  shows "m_token_username (token_step ssl m opn) tok = Some u"
  using assms by (cases opn) (auto simp: createToken_def removeToken_def Let_def)

lemma deadline_step:
  assumes "token_inv ssl m" "token_exist m tok" "spares_token ssl tok opn"
  shows "token_deadline (token_step ssl m opn) tok = token_deadline m tok"
proof -
  note inv = token_inv_timed [OF assms(1)]
  have expired: "token_deadline (snd (isTokenExpired m x now)) tok = token_deadline m tok" for x now
    using isTokenExpired_known [OF assms(1,2)]
    by (cases "x = tok") (auto simp: isTokenExpired_def Let_def token_deadline_def timed_deadline_def)
  show ?thesis
  proof (cases opn)
    case (T_create u ms t1 t2 tid)
    with assms(3) timed_deadline_fresh(2) [OF inv assms(2)] show ?thesis
      by (simp add: token_deadline_def createToken_def Let_def)
  next
    case (T_expired x now)
    with expired show ?thesis by simp
  next
    case (T_remove x)
    with assms(3) show ?thesis
      by (auto simp: token_deadline_def removeToken_def timed_deadline_def)
  next
    case (T_username x now)
    then show ?thesis using expired [of x now]
      by (auto simp: getUsername_def split: prod.splits option.splits)
  next
    case (T_refresh x ms t1 t2)
    show ?thesis
    proof (cases "isTokenValid ssl m x")
      case True
      show ?thesis
        using T_refresh assms(3) timed_deadline_rearm(2) [OF inv valid_exist [OF True] _ assms(2)]
        by (auto simp: token_deadline_def intro: refreshToken_known [OF assms(1) True, of ms t1 t2])
    next
      case False
      with T_refresh show ?thesis by (simp add: refreshToken_def)
    qed
  qed
qed

lemma token_run_spares:
  assumes "token_inv ssl m" "m_token_username m tok = Some u" "\<forall>opn \<in> set ops. spares_token ssl tok opn"
  shows "m_token_username (token_run ssl ops m) tok = Some u \<and>
    token_deadline (token_run ssl ops m) tok = token_deadline m tok"
  using assms
proof (induction ops arbitrary: m)
  case (Cons x xs)
  have "token_run ssl (x # xs) m = token_run ssl xs (token_step ssl m x)" by (simp add: token_run_def)
  with Cons show ?case
    by (simp add: token_inv_step username_step deadline_step [unfolded token_exist_def])
qed (simp add: token_run_def)

lemma exist_run:
  assumes "openssl_ok ssl"
  shows "token_exist (token_run ssl ops token_init) tok \<longleftrightarrow>
    (\<exists>xs opn ys. ops = xs @ opn # ys \<and> creates ssl tok opn \<and> T_remove tok \<notin> set ys)"
proof (induction ops rule: rev_induct)
  case Nil
  then show ?case by (simp add: token_run_def token_init_def token_exist_def)
next
  case (snoc x xs)
  have step: "token_run ssl (xs @ [x]) token_init = token_step ssl (token_run ssl xs token_init) x"
    by (simp add: token_run_def)
  have "(\<exists>us opn vs. xs @ [x] = us @ opn # vs \<and> creates ssl tok opn \<and> T_remove tok \<notin> set vs) \<longleftrightarrow>
      creates ssl tok x \<or>
      (\<exists>us opn vs. xs = us @ opn # vs \<and> creates ssl tok opn \<and> T_remove tok \<notin> set vs) \<and> x \<noteq> T_remove tok"
    (is "?L \<longleftrightarrow> ?R")
  proof
    assume ?L
    then obtain us opn vs where "xs @ [x] = us @ opn # vs" "creates ssl tok opn" "T_remove tok \<notin> set vs"
      by blast
    then show ?R by (cases vs rule: rev_cases) auto
  next
    assume ?R
    then show ?L
    proof
      assume "creates ssl tok x"
      then show ?L by fastforce
    next
      assume "(\<exists>us opn vs. xs = us @ opn # vs \<and> creates ssl tok opn \<and> T_remove tok \<notin> set vs) \<and>
        x \<noteq> T_remove tok"
      then obtain us opn vs where "xs @ [x] = us @ opn # (vs @ [x])" "creates ssl tok opn"
        "T_remove tok \<notin> set (vs @ [x])" by auto
      then show ?L by blast
    qed
  qed
  then show ?case
    by (simp add: step exist_step [OF assms token_inv_run [OF token_inv_init]] snoc.IH)
qed

section \<open>Properties\<close>

text \<open>C19. Authenticity of tokens: after any sequence of calls from the start of the server, a string
  passes \<open>isTokenValid\<close> exactly when it is the text of a token that some \<open>createToken\<close> of the
  sequence returned and no \<open>removeToken\<close> of that string came after it. Neither the passing of time
  nor any other call makes a string valid or invalid.\<close>

theorem token_valid_iff:
  assumes "openssl_ok ssl"
  shows "isTokenValid ssl (token_run ssl ops token_init) tok \<longleftrightarrow>
    (\<exists>xs opn ys. ops = xs @ opn # ys \<and> creates ssl tok opn \<and> T_remove tok \<notin> set ys)"
proof -
  have inv: "token_inv ssl (token_run ssl ops token_init)" by (simp add: token_inv_run)
  then have "isTokenValid ssl (token_run ssl ops token_init) tok \<longleftrightarrow>
      token_exist (token_run ssl ops token_init) tok"
    using valid_iff_exist [OF assms] valid_exist by (metis token_inv_def)
  then show ?thesis by (simp add: exist_run [OF assms])
qed

theorem token_valid_iff_witness:
  "isTokenValid demo_ssl (token_run demo_ssl [T_create ''ann'' 5 1 1 ''7''] token_init)
     (token_text demo_ssl 1 ''7'' ''ann'') \<and>
   \<not> isTokenValid demo_ssl (token_run demo_ssl [T_expired ''forged.00'' 3] token_init) ''forged.00''"
proof -
  have "[T_create ''ann'' 5 1 1 ''7''] = [] @ T_create ''ann'' 5 1 1 ''7'' # []" by simp
  then show ?thesis
    using token_valid_iff [OF openssl_ok_demo, of "[T_create ''ann'' 5 1 1 ''7'']"
        "token_text demo_ssl 1 ''7'' ''ann''"]
      token_valid_iff [OF openssl_ok_demo, of "[T_expired ''forged.00'' 3]" "''forged.00''"]
    by (force simp: Cons_eq_append_conv)
qed

text \<open>C26. Lifetime of a token: whatever else is done to a manager in a consistent state, short of
  removing, refreshing or recreating this very token, \<open>getUsername\<close> gives back the user the token
  was created for until \<open>timeout\<close> after its creation, and the empty string from then on.\<close>

theorem token_lifetime:
  assumes "openssl_ok ssl" "token_inv ssl m" "createToken ssl m user ms t1 t2 tid = (tok, m')"
    and "\<forall>opn \<in> set ops. spares_token ssl tok opn"
  shows "fst (getUsername ssl (token_run ssl ops m') tok now) =
    (if now < t2 + ms * ns_per_ms then user else [])"
proof -
  have m': "m' = snd (createToken ssl m user ms t1 t2 tid)" using assms(3) by simp
  have tok: "tok = token_text ssl t1 tid user" using assms(3) by (simp add: createToken_def Let_def)
  have inv: "token_inv ssl m'" using token_inv_create [OF assms(2)] m' by simp
  have new: "m_token_username m' tok = Some user" "token_deadline m' tok = Some (t2 + ms * ns_per_ms)"
    using timed_deadline_fresh(1) [OF token_inv_timed [OF assms(2)]]
    by (simp_all add: m' tok createToken_def token_deadline_def Let_def)
  define r where "r = token_run ssl ops m'"
  have run: "m_token_username r tok = Some user" "token_deadline r tok = Some (t2 + ms * ns_per_ms)"
    using token_run_spares [OF inv new(1) assms(4)] new(2) by (simp_all add: r_def)
  have ex: "token_exist r tok" using run(1) by (simp add: token_exist_def)
  have "isTokenValid ssl r tok"
    using valid_iff_exist [OF assms(1) signed_token_text] ex by (simp add: tok)
  moreover have "isTokenExpired r tok now = (t2 + ms * ns_per_ms \<le> now, r)"
    using isTokenExpired_known [OF token_inv_run [OF inv, of ops] ex [unfolded r_def]] run(2)
    by (simp add: r_def)
  ultimately have "fst (getUsername ssl r tok now) = (if now < t2 + ms * ns_per_ms then user else [])"
    using run(1) by (simp add: getUsername_def)
  then show ?thesis by (simp add: r_def)
qed

theorem token_lifetime_witness:
  "fst (getUsername demo_ssl
     (token_run demo_ssl [T_expired ''x'' 3, T_remove ''y'', T_refresh ''z'' 1 2 2]
        (snd (createToken demo_ssl token_init ''ann'' 1000 7 8 ''42'')))
     (token_text demo_ssl 7 ''42'' ''ann'') 500) = ''ann''"
proof -
  have eq: "createToken demo_ssl token_init ''ann'' 1000 7 8 ''42'' =
      (token_text demo_ssl 7 ''42'' ''ann'', snd (createToken demo_ssl token_init ''ann'' 1000 7 8 ''42''))"
    by (simp add: createToken_def Let_def)
  have "2 \<le> length (token_text demo_ssl 7 ''42'' ''ann'')"
    using length_hmacSha256 [OF openssl_ok_demo] by (simp add: token_text_def Let_def)
  then have "\<forall>opn \<in> set [T_expired ''x'' 3, T_remove ''y'', T_refresh ''z'' 1 2 2].
      spares_token demo_ssl (token_text demo_ssl 7 ''42'' ''ann'') opn"
    by (auto dest: arg_cong [where f = length])
  from token_lifetime [OF openssl_ok_demo token_inv_init eq this, of 500] show ?thesis by simp
qed

end
