(* ===== verification/Rate_Limiter.thy ===== *)
theory Rate_Limiter
  imports Prelude
begin

text \<open>
  The rate limiter: \<open>src/util/rate_limiter.h\<close> and \<open>rate_limiter.cpp\<close>.

  The state has the records (type, key) \<open>\<mapsto>\<close> (count, start of the window) and the rule of every
  type. One call of \<open>isLimit\<close> is modelled whole, the clock reading is an argument. The locale
  \<open>keyed_limiter\<close> is what a caller relies on: a call moves the window of its own key the way
  \<open>win_step\<close> says, and no other window; the bounds on bursts are proved from that alone.
\<close>

section \<open>Model\<close>

record request_info =
  ri_count :: int
  last_reset_time :: time

record rate_limiter =
  m_typeLimitMap :: "string \<rightharpoonup> (string \<rightharpoonup> request_info)"
  m_typeTimeWindowMap :: "string \<rightharpoonup> int"
  m_typeMaxCountMap :: "string \<rightharpoonup> int"
  m_typeLimiterEnableMap :: "string \<rightharpoonup> bool"
  m_rate_limiter_close :: bool

definition rl_empty :: rate_limiter where
  "rl_empty = \<lparr>m_typeLimitMap = Map.empty, m_typeTimeWindowMap = Map.empty,
               m_typeMaxCountMap = Map.empty, m_typeLimiterEnableMap = Map.empty,
               m_rate_limiter_close = False\<rparr>"

definition rl_init :: "rate_limiter \<Rightarrow> bool \<Rightarrow> rate_limiter" where
  "rl_init rl rate_limiter_close = rl\<lparr>m_rate_limiter_close := rate_limiter_close\<rparr>"

text \<open>\<open>m_typeLimitMap.insert({type, {}})\<close> keeps the records of a type that is already there.\<close>

definition registerLimitRule :: "rate_limiter \<Rightarrow> string \<Rightarrow> int \<Rightarrow> int \<Rightarrow> rate_limiter" where
  "registerLimitRule rl type max_count window_sec =
     (if m_rate_limiter_close rl then rl
      else rl\<lparr>m_typeLimitMap := (case m_typeLimitMap rl type of
                 None \<Rightarrow> (m_typeLimitMap rl)(type \<mapsto> Map.empty) | Some _ \<Rightarrow> m_typeLimitMap rl),
              m_typeMaxCountMap := (m_typeMaxCountMap rl)(type \<mapsto> max_count),
              m_typeTimeWindowMap := (m_typeTimeWindowMap rl)(type \<mapsto> window_sec),
              m_typeLimiterEnableMap := (m_typeLimiterEnableMap rl)(type \<mapsto> True)\<rparr>)"

definition isLimit :: "rate_limiter \<Rightarrow> string \<Rightarrow> string \<Rightarrow> time \<Rightarrow> bool \<times> rate_limiter" where
  "isLimit rl type key now =
     (if m_rate_limiter_close rl then (False, rl)
      else case m_typeLimitMap rl type of
        None \<Rightarrow> (False, rl)
      | Some keys \<Rightarrow>
          (case keys key of
             None \<Rightarrow>
               (False, rl\<lparr>m_typeLimitMap := (m_typeLimitMap rl)(type \<mapsto>
                            keys(key \<mapsto> \<lparr>ri_count = 1, last_reset_time = now\<rparr>))\<rparr>)
           | Some info \<Rightarrow>
               (let window = (case m_typeTimeWindowMap rl type of None \<Rightarrow> 0 | Some w \<Rightarrow> w);
                    rl1 = rl\<lparr>m_typeTimeWindowMap := (m_typeTimeWindowMap rl)(type \<mapsto> window)\<rparr>
                in if now - last_reset_time info < window * ns_per_sec
                   then (let max_count = (case m_typeMaxCountMap rl1 type of None \<Rightarrow> 0 | Some m \<Rightarrow> m);
                             rl2 = rl1\<lparr>m_typeMaxCountMap := (m_typeMaxCountMap rl1)(type \<mapsto> max_count)\<rparr>
                         in if max_count \<le> ri_count info then (True, rl2)
                            else (False, rl2\<lparr>m_typeLimitMap := (m_typeLimitMap rl2)(type \<mapsto>
                                    keys(key \<mapsto> info\<lparr>ri_count := ri_count info + 1\<rparr>))\<rparr>))
                   else (False, rl1\<lparr>m_typeLimitMap := (m_typeLimitMap rl1)(type \<mapsto>
                            keys(key \<mapsto> \<lparr>ri_count = 1, last_reset_time = now\<rparr>))\<rparr>))))"

definition rl_clear :: "rate_limiter \<Rightarrow> string \<Rightarrow> string \<Rightarrow> rate_limiter" where
  "rl_clear rl type key =
     (if m_rate_limiter_close rl then rl
      else case m_typeLimitMap rl type of
        None \<Rightarrow> rl
      | Some keys \<Rightarrow>
          (case keys key of
             None \<Rightarrow> rl
           | Some _ \<Rightarrow> rl\<lparr>m_typeLimitMap := (m_typeLimitMap rl)(type \<mapsto> keys(key := None))\<rparr>))"

definition istypeEnable :: "rate_limiter \<Rightarrow> string \<Rightarrow> bool" where
  "istypeEnable rl type =
     (if m_rate_limiter_close rl then False
      else case m_typeLimitMap rl type of
        None \<Rightarrow> False
      | Some _ \<Rightarrow> (case m_typeLimiterEnableMap rl type of None \<Rightarrow> False | Some b \<Rightarrow> b))"

definition isLimiterClose :: "rate_limiter \<Rightarrow> bool" where
  "isLimiterClose rl = m_rate_limiter_close rl"

section \<open>One window\<close>

text \<open>What a request at clock \<open>now\<close> does to the window of its key, under the rule
  \<open>max_count\<close> per \<open>w\<close> seconds.\<close>

definition win_step :: "int \<Rightarrow> int \<Rightarrow> request_info option \<Rightarrow> time \<Rightarrow> bool \<times> request_info option" where
  "win_step max_count w st now =
     (case st of
        None \<Rightarrow> (False, Some \<lparr>ri_count = 1, last_reset_time = now\<rparr>)
      | Some info \<Rightarrow>
          if now - last_reset_time info < w * ns_per_sec
          then if max_count \<le> ri_count info then (True, st)
               else (False, Some (info\<lparr>ri_count := ri_count info + 1\<rparr>))
          else (False, Some \<lparr>ri_count = 1, last_reset_time = now\<rparr>))"

text \<open>The admitted ones of a sequence of requests of one key.\<close>

fun win_admitted :: "int \<Rightarrow> int \<Rightarrow> request_info option \<Rightarrow> time list \<Rightarrow> time list" where
  "win_admitted m w st [] = []"
| "win_admitted m w st (t # ts) =
     (case win_step m w st t of
        (limited, st') \<Rightarrow> if limited then win_admitted m w st' ts else t # win_admitted m w st' ts)"

definition between :: "time \<Rightarrow> time \<Rightarrow> time list \<Rightarrow> nat" where
  "between a b ts = length (filter (\<lambda>t. a \<le> t \<and> t < b) ts)"

lemma between_simps [simp]:
  "between a b [] = 0"
  "between a b (t # ts) = (if a \<le> t \<and> t < b then Suc (between a b ts) else between a b ts)"
  "between a b (xs @ ys) = between a b xs + between a b ys"
  by (simp_all add: between_def)

lemma set_win_admitted: "set (win_admitted m w st ts) \<subseteq> set ts"
proof (induction ts arbitrary: st)
  case (Cons t ts)
  then show ?case by (cases "win_step m w st t") (auto dest: subsetD)
qed simp

lemma between_late: "\<forall>t \<in> set ts. b \<le> t \<Longrightarrow> between a b ts = 0"
  by (induction ts) auto

lemma late_admitted: "\<forall>t \<in> set ts. b \<le> t \<Longrightarrow> between a b (win_admitted m w st ts) = 0"
  using set_win_admitted by (intro between_late) blast

text \<open>Once the window began inside the interval, what is left of its count bounds the rest.\<close>

lemma admitted_inside:
  assumes "sorted ts" "a \<le> last_reset_time info" "1 \<le> ri_count info" "ri_count info \<le> max 1 m"
  shows "int (between a (a + w * ns_per_sec) (win_admitted m w (Some info) ts)) \<le> max 1 m - ri_count info"
  using assms
proof (induction ts arbitrary: info)
  case (Cons t ts)
  show ?case
  proof (cases "t - last_reset_time info < w * ns_per_sec")
    case True
    show ?thesis
    proof (cases "m \<le> ri_count info")
      case True
      with \<open>t - last_reset_time info < w * ns_per_sec\<close> Cons show ?thesis by (simp add: win_step_def)
    next
      case False
      with True Cons.IH [of "info\<lparr>ri_count := ri_count info + 1\<rparr>"] Cons.prems show ?thesis
        by (auto simp: win_step_def)
    qed
  next
    case False
    with Cons.prems have "\<forall>x \<in> set (t # ts). a + w * ns_per_sec \<le> x" by auto
    from late_admitted [OF this, of a m w "Some info"] Cons.prems(3,4) show ?thesis by linarith
  qed
qed simp

lemma admitted_straddling:
  assumes "sorted ts" "\<forall>t \<in> set ts. a \<le> t" "1 \<le> ri_count info" "ri_count info \<le> max 1 m"
  shows "int (between a (a + w * ns_per_sec) (win_admitted m w (Some info) ts)) \<le>
    2 * max 1 m - ri_count info"
  using assms
proof (induction ts arbitrary: info)
  case (Cons t ts)
  show ?case
  proof (cases "t - last_reset_time info < w * ns_per_sec")
    case True
    show ?thesis
    proof (cases "m \<le> ri_count info")
      case True
      with \<open>t - last_reset_time info < w * ns_per_sec\<close> Cons show ?thesis by (simp add: win_step_def)
    next
      case False
      with True Cons.IH [of "info\<lparr>ri_count := ri_count info + 1\<rparr>"] Cons.prems show ?thesis
        by (auto simp: win_step_def)
    qed
  next
    case False
    with Cons.prems admitted_inside [of ts a "\<lparr>ri_count = 1, last_reset_time = t\<rparr>" m w] show ?thesis
      by (auto simp: win_step_def)
  qed
qed simp

lemma win_step_count:
  assumes "\<And>info. st = Some info \<Longrightarrow> 1 \<le> ri_count info \<and> ri_count info \<le> max 1 m"
    and "win_step m w st t = (b, Some info)"
  shows "1 \<le> ri_count info \<and> ri_count info \<le> max 1 m"
  using assms by (auto simp: win_step_def split: option.splits if_splits)

lemma win_step_Some: "\<exists>b info. win_step m w st t = (b, Some info)"
  by (cases st) (auto simp: win_step_def)

text \<open>A key gets at most \<open>2 * max - 1\<close> requests through in any interval of the length of its
  window.\<close>

lemma win_burst:
  assumes "sorted ts"
    and "\<And>info. st = Some info \<Longrightarrow> 1 \<le> ri_count info \<and> ri_count info \<le> max 1 m"
  shows "int (between a (a + w * ns_per_sec) (win_admitted m w st ts)) \<le> 2 * max 1 m - 1"
  using assms
proof (induction ts arbitrary: st)
  case (Cons t ts)
  obtain b info where step: "win_step m w st t = (b, Some info)" using win_step_Some by blast
  note count = win_step_count [OF Cons.prems(2) step]
  show ?case
  proof (cases "t < a")
    case True
    with Cons.IH [of "Some info"] Cons.prems(1) step count show ?thesis by simp
  next
    case False
    with Cons.prems(1) have late: "\<forall>x \<in> set (t # ts). a \<le> x" by auto
    show ?thesis
    proof (cases st)
      case None
      then show ?thesis
        using False Cons.prems(1) admitted_inside [of ts a "\<lparr>ri_count = 1, last_reset_time = t\<rparr>" m w]
        by (auto simp: win_step_def)
    next
      case (Some info')
      with admitted_straddling [OF Cons.prems(1) late, of info' m w] Cons.prems(2) [OF Some]
      show ?thesis by fastforce
    qed
  qed
qed simp

text \<open>A request is turned away only when the allowance was used up within the window.\<close>

definition win_seen :: "request_info option \<Rightarrow> time list \<Rightarrow> bool" where
  "win_seen st ts = (case st of None \<Rightarrow> True
     | Some info \<Rightarrow> ri_count info \<le> int (length (filter (\<lambda>t. last_reset_time info \<le> t) ts)))"

lemma win_seen_step:
  assumes "win_seen st ts" "win_step m w st t = (b, st')"
    "\<And>info. st = Some info \<Longrightarrow> last_reset_time info \<le> t"
  shows "win_seen st' (if b then ts else ts @ [t])" "\<And>info. st' = Some info \<Longrightarrow> last_reset_time info \<le> t"
  using assms by (auto simp: win_seen_def win_step_def split: option.splits if_splits)

lemma win_limited_justified:
  assumes "win_seen st ts" "fst (win_step m w st now)"
  shows "m \<le> int (length (filter (\<lambda>t. now - w * ns_per_sec < t) ts))"
proof -
  from assms obtain info where info: "st = Some info" "now - last_reset_time info < w * ns_per_sec"
    "m \<le> ri_count info" by (auto simp: win_step_def split: option.splits if_splits)
  have "length (filter (\<lambda>t. last_reset_time info \<le> t) ts) \<le>
      length (filter (\<lambda>t. now - w * ns_per_sec < t) ts)"
    using info(2) by (induction ts) auto
  with info assms(1) show ?thesis by (simp add: win_seen_def)
qed

section \<open>The interface\<close>

text \<open>The verdicts of a sequence of calls, and the clock readings of the admitted calls of a key.\<close>

fun limiter_trace :: "('s \<Rightarrow> 'k \<Rightarrow> time \<Rightarrow> bool \<times> 's) \<Rightarrow> 's \<Rightarrow> ('k \<times> time) list \<Rightarrow> ('k \<times> time \<times> bool) list" where
  "limiter_trace call s [] = []"
| "limiter_trace call s ((k, t) # reqs) =
     (case call s k t of (limited, s') \<Rightarrow> (k, t, limited) # limiter_trace call s' reqs)"

fun limiter_final :: "('s \<Rightarrow> 'k \<Rightarrow> time \<Rightarrow> bool \<times> 's) \<Rightarrow> 's \<Rightarrow> ('k \<times> time) list \<Rightarrow> 's" where
  "limiter_final call s [] = s"
| "limiter_final call s ((k, t) # reqs) = limiter_final call (snd (call s k t)) reqs"

definition admitted_of :: "'k \<Rightarrow> ('k \<times> time \<times> bool) list \<Rightarrow> time list" where
  "admitted_of k outs = map (\<lambda>(_, t, _). t) (filter (\<lambda>(x, _, limited). x = k \<and> \<not> limited) outs)"

definition times_of :: "'k \<Rightarrow> ('k \<times> time) list \<Rightarrow> time list" where
  "times_of k reqs = map snd (filter (\<lambda>r. fst r = k) reqs)"

locale keyed_limiter =
  fixes call :: "'s \<Rightarrow> 'k \<Rightarrow> time \<Rightarrow> bool \<times> 's"
    and view :: "'s \<Rightarrow> 'k \<Rightarrow> request_info option"
    and rule :: "'s \<Rightarrow> 'k \<Rightarrow> (int \<times> int) option"
  assumes own: "rule s k = Some (m, w) \<Longrightarrow> call s k now = (b, s') \<Longrightarrow>
      win_step m w (view s k) now = (b, view s' k)"
    and other: "x \<noteq> k \<Longrightarrow> view (snd (call s k now)) x = view s x"
    and rule_kept: "rule s x = Some r \<Longrightarrow> rule (snd (call s k now)) x = Some r"
begin

lemma admitted_trace:
  assumes "rule s k = Some (m, w)"
  shows "admitted_of k (limiter_trace call s reqs) = win_admitted m w (view s k) (times_of k reqs)"
  using assms
proof (induction reqs arbitrary: s)
  case (Cons r reqs)
  obtain x t where r: "r = (x, t)" by (cases r)
  obtain b s' where c: "call s x t = (b, s')" by (cases "call s x t")
  have kept: "rule s' k = Some (m, w)" using rule_kept [OF Cons.prems, of x t] c by simp
  show ?case
  proof (cases "x = k")
    case True
    with own [OF Cons.prems, of t b s'] Cons.IH [OF kept] c r show ?thesis
      by (simp add: admitted_of_def times_of_def)
  next
    case False
    with other [of k x s t] Cons.IH [OF kept] c r show ?thesis
      by (simp add: admitted_of_def times_of_def)
  qed
qed (simp add: admitted_of_def times_of_def)

lemma sorted_times_of: "sorted (map snd reqs) \<Longrightarrow> sorted (times_of k reqs)"
  unfolding times_of_def by (rule sorted_filter)

lemma burst:
  assumes "rule s k = Some (m, w)" "view s k = None" "sorted (map snd reqs)"
  shows "int (between a (a + w * ns_per_sec) (admitted_of k (limiter_trace call s reqs))) \<le> 2 * max 1 m - 1"
  unfolding admitted_trace [OF assms(1)]
  by (rule win_burst [OF sorted_times_of [OF assms(3)]]) (simp add: assms(2))

lemma seen_final:
  assumes "rule s k = Some (m, w)" "win_seen (view s k) ts" "sorted (map snd (reqs @ [(k, now)]))"
    and "\<And>info r. view s k = Some info \<Longrightarrow> r \<in> set (reqs @ [(k, now)]) \<Longrightarrow> last_reset_time info \<le> snd r"
  shows "win_seen (view (limiter_final call s reqs) k) (ts @ admitted_of k (limiter_trace call s reqs)) \<and>
    rule (limiter_final call s reqs) k = Some (m, w)"
  using assms
proof (induction reqs arbitrary: s ts)
  case (Cons r reqs)
  obtain x t where r: "r = (x, t)" by (cases r)
  obtain b s' where c: "call s x t = (b, s')" by (cases "call s x t")
  have kept: "rule s' k = Some (m, w)" using rule_kept [OF Cons.prems(1), of x t] c by simp
  have sorted: "sorted (map snd (reqs @ [(k, now)]))" using Cons.prems(3) by simp
  show ?case
  proof (cases "x = k")
    case True
    have "\<And>info. view s k = Some info \<Longrightarrow> last_reset_time info \<le> t"
      using Cons.prems(4) [where r = r] r by simp
    note step = win_seen_step [OF Cons.prems(2) own [OF Cons.prems(1) c [unfolded True]] this]
    from Cons.prems(3) r have "\<And>q. q \<in> set (reqs @ [(k, now)]) \<Longrightarrow> t \<le> snd q" by auto
    with step(2) have "\<And>info q. view s' k = Some info \<Longrightarrow> q \<in> set (reqs @ [(k, now)]) \<Longrightarrow>
        last_reset_time info \<le> snd q" by (meson order_trans)
    with step(1) have "win_seen (view (limiter_final call s' reqs) k)
        ((if b then ts else ts @ [t]) @ admitted_of k (limiter_trace call s' reqs)) \<and>
        rule (limiter_final call s' reqs) k = Some (m, w)"
      by (rule Cons.IH [OF kept _ sorted])
    with r c True show ?thesis by (cases b) (simp_all add: admitted_of_def)
  next
    case False
    have v: "view s' k = view s k" using other [of k x s t] False c by auto
    have "\<And>info r. view s' k = Some info \<Longrightarrow> r \<in> set (reqs @ [(k, now)]) \<Longrightarrow> last_reset_time info \<le> snd r"
      using Cons.prems(4) v by auto
    from Cons.IH [OF kept _ sorted this, of ts] Cons.prems(2) v False c r show ?thesis
      by (simp add: admitted_of_def)
  qed
qed (simp add: admitted_of_def)

lemma justified:
  assumes "rule s k = Some (m, w)" "view s k = None" "sorted (map snd (reqs @ [(k, now)]))"
    and "fst (call (limiter_final call s reqs) k now)"
  shows "m \<le> int (length (filter (\<lambda>t. now - w * ns_per_sec < t)
      (admitted_of k (limiter_trace call s reqs))))"
proof -
  have "win_seen (view (limiter_final call s reqs) k) ([] @ admitted_of k (limiter_trace call s reqs)) \<and>
      rule (limiter_final call s reqs) k = Some (m, w)"
    by (rule seen_final [OF assms(1) _ assms(3)]) (simp_all add: assms(2) win_seen_def)
  moreover from this assms(4)
  have "fst (win_step m w (view (limiter_final call s reqs) k) now)"
    using own [of "limiter_final call s reqs" k m w now] by (metis fst_conv surj_pair)
  ultimately show ?thesis by (intro win_limited_justified) simp_all
qed

end

text \<open>The calls of the rate limiter, and its windows and rules by type and key.\<close>

definition rl_call :: "rate_limiter \<Rightarrow> string \<times> string \<Rightarrow> time \<Rightarrow> bool \<times> rate_limiter" where
  "rl_call rl tk now = isLimit rl (fst tk) (snd tk) now"

definition rl_view :: "rate_limiter \<Rightarrow> string \<times> string \<Rightarrow> request_info option" where
  "rl_view rl tk = (case m_typeLimitMap rl (fst tk) of None \<Rightarrow> None | Some keys \<Rightarrow> keys (snd tk))"

definition rl_rule :: "rate_limiter \<Rightarrow> string \<times> string \<Rightarrow> (int \<times> int) option" where
  "rl_rule rl tk =
     (if m_rate_limiter_close rl \<or> m_typeLimitMap rl (fst tk) = None then None
      else case m_typeMaxCountMap rl (fst tk) of
        None \<Rightarrow> None
      | Some m \<Rightarrow> map_option (\<lambda>w. (m, w)) (m_typeTimeWindowMap rl (fst tk)))"

lemma rl_rule_SomeD:
  assumes "rl_rule rl tk = Some (m, w)"
  shows "\<not> m_rate_limiter_close rl" "m_typeLimitMap rl (fst tk) \<noteq> None"
    "m_typeMaxCountMap rl (fst tk) = Some m" "m_typeTimeWindowMap rl (fst tk) = Some w"
  using assms by (auto simp: rl_rule_def split: if_splits option.splits)

interpretation rl: keyed_limiter rl_call rl_view rl_rule
proof
  fix s :: rate_limiter and k m w now b s'
  assume rule: "rl_rule s k = Some (m, w)" and call: "rl_call s k now = (b, s')"
  note r = rl_rule_SomeD [OF rule]
  show "win_step m w (rl_view s k) now = (b, rl_view s' k)"
    using r call
    by (auto simp: rl_call_def isLimit_def win_step_def rl_view_def Let_def split: option.splits if_splits)
next
  fix x k :: "string \<times> string" and s :: rate_limiter and now
  assume "x \<noteq> k"
  then show "rl_view (snd (rl_call s k now)) x = rl_view s x"
    by (cases x; cases k)
      (auto simp: rl_call_def isLimit_def rl_view_def Let_def split: option.splits if_splits)
next
  fix s :: rate_limiter and x k r now
  assume "rl_rule s x = Some r"
  then show "rl_rule (snd (rl_call s k now)) x = Some r"
    by (auto simp: rl_rule_def rl_call_def isLimit_def Let_def split: option.splits if_splits)
qed

lemma rl_rule_register:
  "\<not> m_rate_limiter_close rl \<Longrightarrow> rl_rule (registerLimitRule rl type m w) (type, key) = Some (m, w)"
  by (auto simp: rl_rule_def registerLimitRule_def split: option.splits)

lemma rl_view_register:
  "rl_view (registerLimitRule rl type m w) tk = rl_view rl tk"
  by (auto simp: rl_view_def registerLimitRule_def split: option.splits)

section \<open>Properties\<close>

text \<open>Bound on bursts: under a rule of \<open>m\<close> requests per \<open>w\<close> seconds, whatever other types and
  keys are used in between, at most \<open>2 * max 1 m - 1\<close> requests of one key are let through in any
  interval of \<open>w\<close> seconds (the first request of a window is let through even when \<open>m \<le> 0\<close>).\<close>

theorem rate_burst:
  assumes "\<not> m_rate_limiter_close rl" "rl_view rl (type, key) = None" "sorted (map snd reqs)"
  shows "int (between a (a + w * ns_per_sec)
      (admitted_of (type, key) (limiter_trace rl_call (registerLimitRule rl type m w) reqs)))
    \<le> 2 * max 1 m - 1"
  by (rule rl.burst [OF rl_rule_register [OF assms(1)] _ assms(3)]) (simp add: rl_view_register assms(2))

text \<open>The bound is reached: with two requests per second, one at 0 and one at 900 ms of the first
  window, and two of the window that begins at 1000 ms, three requests pass within the second that begins
  at 500 ms.\<close>

definition burst_demo :: "((string \<times> string) \<times> time) list" where
  "burst_demo = map (\<lambda>ms. ((''ip'', ''a''), ms * ns_per_ms)) [0, 900, 950, 1000, 1100, 1200]"

theorem rate_burst_witness:
  "int (between (500 * ns_per_ms) (500 * ns_per_ms + 1 * ns_per_sec)
      (admitted_of (''ip'', ''a'') (limiter_trace rl_call (registerLimitRule rl_empty ''ip'' 2 1) burst_demo)))
    \<le> 2 * max 1 2 - 1 \<and>
   between (500 * ns_per_ms) (500 * ns_per_ms + 1 * ns_per_sec)
      (admitted_of (''ip'', ''a'') (limiter_trace rl_call (registerLimitRule rl_empty ''ip'' 2 1) burst_demo))
    = 3"
proof
  show "int (between (500 * ns_per_ms) (500 * ns_per_ms + 1 * ns_per_sec)
      (admitted_of (''ip'', ''a'') (limiter_trace rl_call (registerLimitRule rl_empty ''ip'' 2 1) burst_demo)))
    \<le> 2 * max 1 2 - 1"
    by (rule rate_burst) (simp_all add: rl_empty_def rl_view_def burst_demo_def)
  show "between (500 * ns_per_ms) (500 * ns_per_ms + 1 * ns_per_sec)
      (admitted_of (''ip'', ''a'') (limiter_trace rl_call (registerLimitRule rl_empty ''ip'' 2 1) burst_demo))
    = 3"
    by (simp add: burst_demo_def rl_call_def isLimit_def registerLimitRule_def rl_empty_def Let_def
        admitted_of_def)
qed

text \<open>C27. No request is turned away without cause: when \<open>isLimit\<close> answers \<open>true\<close> for a key that had
  no record when the rule was registered, at least \<open>m\<close> requests of that key were let through within the
  last \<open>w\<close> seconds.\<close>

theorem rate_justified:
  assumes "\<not> m_rate_limiter_close rl" "rl_view rl (type, key) = None"
    and "sorted (map snd (reqs @ [((type, key), now)]))"
    and "fst (rl_call (limiter_final rl_call (registerLimitRule rl type m w) reqs) (type, key) now)"
  shows "m \<le> int (length (filter (\<lambda>t. now - w * ns_per_sec < t)
      (admitted_of (type, key) (limiter_trace rl_call (registerLimitRule rl type m w) reqs))))"
  by (rule rl.justified [OF rl_rule_register [OF assms(1)] _ assms(3,4)])
    (simp add: rl_view_register assms(2))

theorem rate_justified_witness:
  "(2::int) \<le> int (length (filter (\<lambda>t. 950 * ns_per_ms - 1 * ns_per_sec < t)
      (admitted_of (''ip'', ''a'')
        (limiter_trace rl_call (registerLimitRule rl_empty ''ip'' 2 1) (take 2 burst_demo)))))"
  by (rule rate_justified)
    (simp_all add: burst_demo_def rl_call_def isLimit_def registerLimitRule_def rl_empty_def
      rl_view_def Let_def)

end
