(* ===== verification/Interceptor.thy ===== *)
theory Interceptor
  imports Prelude
begin

text \<open>
  The interceptor: \<open>src/util/interceptor.h\<close> and \<open>interceptor.cpp\<close>.

  A rule of a type is a set of keys and a mode: in white-list mode everything outside the set is
  intercepted, in black-list mode everything inside. \<open>m_typeInterceptorMap.insert\<close> keeps the keys of a
  type that is already registered, while the mode is overwritten.
\<close>

section \<open>Model\<close>

record interceptor =
  m_typeInterceptorMap :: "string \<rightharpoonup> string list"
  m_typeWhiteListMap :: "string \<rightharpoonup> bool"
  m_typeInterceptorEnableMap :: "string \<rightharpoonup> bool"
  m_interceptorClose :: bool

definition interceptor_init :: "interceptor \<Rightarrow> bool \<Rightarrow> interceptor" where
  "interceptor_init it interceptorClose =
     it\<lparr>m_interceptorClose := interceptorClose, m_typeInterceptorMap := Map.empty,
        m_typeInterceptorEnableMap := Map.empty, m_typeWhiteListMap := Map.empty\<rparr>"

definition isInterceptorClose :: "interceptor \<Rightarrow> bool" where
  "isInterceptorClose it = m_interceptorClose it"

definition registerTypeRule :: "interceptor \<Rightarrow> string \<Rightarrow> string list \<Rightarrow> bool \<Rightarrow> interceptor" where
  "registerTypeRule it type keys whitelist =
     (if isInterceptorClose it then it
      else it\<lparr>m_typeInterceptorMap := (case m_typeInterceptorMap it type of
                 None \<Rightarrow> (m_typeInterceptorMap it)(type \<mapsto> keys) | Some _ \<Rightarrow> m_typeInterceptorMap it),
              m_typeWhiteListMap := (m_typeWhiteListMap it)(type \<mapsto> whitelist),
              m_typeInterceptorEnableMap := (m_typeInterceptorEnableMap it)(type \<mapsto> True)\<rparr>)"

definition shouldIntercept :: "interceptor \<Rightarrow> string \<Rightarrow> string \<Rightarrow> bool" where
  "shouldIntercept it type key =
     (if isInterceptorClose it then False
      else if m_typeInterceptorEnableMap it type \<noteq> Some True then False
      else case m_typeInterceptorMap it type of
        None \<Rightarrow> False
      | Some keys \<Rightarrow>
          (let keyExists = List.member keys key;
               isWhitelist = (case m_typeWhiteListMap it type of None \<Rightarrow> True | Some w \<Rightarrow> w)
           in if isWhitelist then \<not> keyExists else keyExists))"

definition isTypeEnable :: "interceptor \<Rightarrow> string \<Rightarrow> bool" where
  "isTypeEnable it type =
     (if isInterceptorClose it then False
      else case m_typeInterceptorEnableMap it type of None \<Rightarrow> False | Some b \<Rightarrow> b)"

text \<open>A sequence of registrations after \<open>init(false)\<close>.\<close>

definition register_all :: "interceptor \<Rightarrow> (string \<times> string list \<times> bool) list \<Rightarrow> interceptor" where
  "register_all it rs = foldl (\<lambda>i (ty, ks, w). registerTypeRule i ty ks w) (interceptor_init it False) rs"

section \<open>What the registrations of a type leave behind\<close>

definition rules_of :: "string \<Rightarrow> (string \<times> string list \<times> bool) list \<Rightarrow> (string list \<times> bool) list" where
  "rules_of type rs = map snd (filter (\<lambda>r. fst r = type) rs)"

lemma register_all_snoc:
  "register_all it (rs @ [(ty, ks, w)]) = registerTypeRule (register_all it rs) ty ks w"
  by (simp add: register_all_def)

lemma register_all_state:
  "m_interceptorClose (register_all it rs) = False \<and>
   m_typeInterceptorMap (register_all it rs) type =
     (case rules_of type rs of [] \<Rightarrow> None | r # _ \<Rightarrow> Some (fst r)) \<and>
   m_typeWhiteListMap (register_all it rs) type =
     (if rules_of type rs = [] then None else Some (snd (last (rules_of type rs)))) \<and>
   m_typeInterceptorEnableMap (register_all it rs) type =
     (if rules_of type rs = [] then None else Some True)"
proof (induction rs rule: rev_induct)
  case Nil
  then show ?case by (simp add: register_all_def interceptor_init_def rules_of_def)
next
  case (snoc r rs)
  obtain ty ks w where r: "r = (ty, ks, w)" by (cases r) auto
  show ?case
  proof (cases "ty = type")
    case True
    then have "rules_of type (rs @ [r]) = rules_of type rs @ [(ks, w)]" by (simp add: rules_of_def r)
    with snoc True show ?thesis
      by (auto simp: r register_all_snoc registerTypeRule_def isInterceptorClose_def
          split: list.splits option.splits)
  next
    case False
    then have "rules_of type (rs @ [r]) = rules_of type rs" by (simp add: rules_of_def r)
    with snoc False show ?thesis
      by (auto simp: r register_all_snoc registerTypeRule_def isInterceptorClose_def
          split: list.splits option.splits)
  qed
qed

section \<open>Properties\<close>

text \<open>C28. What is intercepted: after \<open>init(false)\<close> and any sequence of registrations, a key of a type
  without a rule is never intercepted; with rules, the keys of the \<^emph>\<open>first\<close> registration and the mode of the
  \<^emph>\<open>last\<close> one decide: in white-list mode exactly the keys outside the set are intercepted, in
  black-list mode exactly those inside.\<close>

theorem intercept_semantics:
  "shouldIntercept (register_all it rs) type key =
     (case rules_of type rs of
        [] \<Rightarrow> False
      | (keys, _) # _ \<Rightarrow>
          if snd (last (rules_of type rs)) then key \<notin> set keys else key \<in> set keys)"
  using register_all_state [of it rs type]
  by (auto simp: shouldIntercept_def isInterceptorClose_def List.member_iff split: list.splits)

end
