(* ===== verification/Server_Config.thy ===== *)
theory Server_Config
  imports Prelude
begin

text \<open>
  The command line: \<open>src/config/server_config.h\<close> and \<open>server_config.cpp\<close>.

  The constructor leaves \<open>log_write\<close> and \<open>opt_linger\<close> uninitialised: the values they happen to have are
  arguments of \<open>ServerConfig_new\<close>. \<open>std::stoi\<close> throws on a value that is not a number; nothing in
  \<open>parseArgs\<close> or in \<open>main\<close> catches it.
\<close>

section \<open>Model\<close>

record server_config =
  http_port :: int
  websocket_port :: int
  test_port :: int
  thread_num :: int
  conn_num :: int
  log_write :: int
  trig_mode :: int
  opt_linger :: int
  log_close :: int
  actor_model :: int
  rate_limiter_close :: bool
  interceptor_close :: bool
  config_manager_close :: bool

definition LT :: int where "LT = 0"
definition ET :: int where "ET = 1"
definition Proactor :: int where "Proactor = 0"
definition Reactor :: int where "Reactor = 1"

definition ServerConfig_new :: "int \<Rightarrow> int \<Rightarrow> server_config" where
  "ServerConfig_new any_log_write any_opt_linger =
     \<lparr>http_port = 9006, websocket_port = 9007, test_port = 9999, thread_num = 4, conn_num = 4,
      log_write = any_log_write, trig_mode = LT, opt_linger = any_opt_linger, log_close = 0,
      actor_model = Proactor, rate_limiter_close = False, interceptor_close = False,
      config_manager_close = False\<rparr>"

text \<open>The branch of \<open>parseArgs\<close> a flag selects.\<close>

definition set_option :: "string \<Rightarrow> (int \<Rightarrow> server_config \<Rightarrow> server_config) option" where
  "set_option arg =
     (if arg = ''-p'' then Some (\<lambda>v c. c\<lparr>http_port := v\<rparr>)
      else if arg = ''-t'' then Some (\<lambda>v c. c\<lparr>thread_num := v\<rparr>)
      else if arg = ''-s'' then Some (\<lambda>v c. c\<lparr>conn_num := v\<rparr>)
      else if arg = ''-l'' then Some (\<lambda>v c. c\<lparr>log_write := v\<rparr>)
      else if arg = ''-m'' then Some (\<lambda>v c. c\<lparr>trig_mode := v\<rparr>)
      else if arg = ''-o'' then Some (\<lambda>v c. c\<lparr>opt_linger := v\<rparr>)
      else if arg = ''-c'' then Some (\<lambda>v c. c\<lparr>log_close := v\<rparr>)
      else if arg = ''-a'' then Some (\<lambda>v c. c\<lparr>actor_model := v\<rparr>)
      else None)"

text \<open>The loop, on the arguments from \<open>argv[i]\<close> on.\<close>

fun parseArgs_from :: "string list \<Rightarrow> server_config \<Rightarrow> server_config result" where
  "parseArgs_from [] c = Inr c"
| "parseArgs_from [arg] c = Inr c"
| "parseArgs_from (arg # val # rest) c =
     (case set_option arg of
        None \<Rightarrow> parseArgs_from (val # rest) c
      | Some setter \<Rightarrow> rbind (stoi val) (\<lambda>v. parseArgs_from rest (setter v c)))"

definition parseArgs :: "string list \<Rightarrow> server_config \<Rightarrow> server_config result" where
  "parseArgs argv c = parseArgs_from (drop 1 argv) c"

section \<open>Settings as a command line\<close>

datatype setting = Port int | Threads int | Sql int | Log_write int | Trig int | Linger int
  | Log_off int | Actor int

fun setting_flag :: "setting \<Rightarrow> string" where
  "setting_flag (Port _) = ''-p''"
| "setting_flag (Threads _) = ''-t''"
| "setting_flag (Sql _) = ''-s''"
| "setting_flag (Log_write _) = ''-l''"
| "setting_flag (Trig _) = ''-m''"
| "setting_flag (Linger _) = ''-o''"
| "setting_flag (Log_off _) = ''-c''"
| "setting_flag (Actor _) = ''-a''"

fun setting_val :: "setting \<Rightarrow> int" where
  "setting_val (Port v) = v" | "setting_val (Threads v) = v" | "setting_val (Sql v) = v"
| "setting_val (Log_write v) = v" | "setting_val (Trig v) = v" | "setting_val (Linger v) = v"
| "setting_val (Log_off v) = v" | "setting_val (Actor v) = v"

fun apply_setting :: "server_config \<Rightarrow> setting \<Rightarrow> server_config" where
  "apply_setting c (Port v) = c\<lparr>http_port := v\<rparr>"
| "apply_setting c (Threads v) = c\<lparr>thread_num := v\<rparr>"
| "apply_setting c (Sql v) = c\<lparr>conn_num := v\<rparr>"
| "apply_setting c (Log_write v) = c\<lparr>log_write := v\<rparr>"
| "apply_setting c (Trig v) = c\<lparr>trig_mode := v\<rparr>"
| "apply_setting c (Linger v) = c\<lparr>opt_linger := v\<rparr>"
| "apply_setting c (Log_off v) = c\<lparr>log_close := v\<rparr>"
| "apply_setting c (Actor v) = c\<lparr>actor_model := v\<rparr>"

definition command_line :: "setting list \<Rightarrow> string list" where
  "command_line ss = concat (map (\<lambda>s. [setting_flag s, to_string (setting_val s)]) ss)"

definition int_setting :: "setting \<Rightarrow> bool" where
  "int_setting s \<longleftrightarrow> INT_MIN \<le> setting_val s \<and> setting_val s \<le> INT_MAX"

lemma set_option_flag:
  "\<exists>f. set_option (setting_flag s) = Some f \<and> (\<forall>c. f (setting_val s) c = apply_setting c s)"
  by (cases s) (simp_all add: set_option_def)

lemma command_line_Cons:
  "command_line (s # ss) = setting_flag s # to_string (setting_val s) # command_line ss"
  by (simp add: command_line_def)

lemma parseArgs_from_command_line:
  assumes "\<forall>s \<in> set ss. int_setting s"
  shows "parseArgs_from (command_line ss @ rest) c = parseArgs_from rest (foldl apply_setting c ss)"
  using assms
proof (induction ss arbitrary: c)
  case (Cons s ss)
  obtain f where "set_option (setting_flag s) = Some f" "\<forall>c. f (setting_val s) c = apply_setting c s"
    using set_option_flag by blast
  with Cons show ?case by (simp add: command_line_Cons int_setting_def)
qed (simp add: command_line_def)

section \<open>Properties\<close>

text \<open>C29. The command line: flags with decimal values in the range of \<open>int\<close> set exactly the fields they
  name, in order, the last one of a kind winning; a known flag followed by a value \<open>std::stoi\<close> rejects ends
  the parsing with that exception, whatever came before; a known flag with no value behind it is
  ignored.\<close>

theorem parseArgs_settings:
  assumes "\<forall>s \<in> set ss. int_setting s" "set_option flag \<noteq> None"
  shows "parseArgs (prog # command_line ss) c = Inr (foldl apply_setting c ss) \<and>
    parseArgs (prog # command_line ss @ [flag]) c = Inr (foldl apply_setting c ss) \<and>
    (stoi val = Inl e \<longrightarrow> parseArgs (prog # command_line ss @ flag # val # rest) c = Inl e)"
  using parseArgs_from_command_line [OF assms(1), of "[]" c]
    parseArgs_from_command_line [OF assms(1), of "[flag]" c]
    parseArgs_from_command_line [OF assms(1), of "flag # val # rest" c] assms(2)
  by (auto simp: parseArgs_def)

theorem parseArgs_settings_witness:
  "parseArgs (''server'' # command_line [Port 8080, Trig 1, Port (-1)]) (ServerConfig_new 0 0) =
     Inr ((ServerConfig_new 0 0)\<lparr>trig_mode := 1, http_port := -1\<rparr>) \<and>
   parseArgs (''server'' # command_line [Port 8080] @ [''-t'', ''many'']) (ServerConfig_new 0 0) =
     Inl Invalid_argument"
proof
  have known: "set_option ''-t'' \<noteq> None" by (simp add: set_option_def)
  show "parseArgs (''server'' # command_line [Port 8080, Trig 1, Port (-1)]) (ServerConfig_new 0 0) =
     Inr ((ServerConfig_new 0 0)\<lparr>trig_mode := 1, http_port := -1\<rparr>)"
    using parseArgs_settings [OF _ known, of "[Port 8080, Trig 1, Port (-1)]" "''server''" "ServerConfig_new 0 0"]
    by (simp add: int_setting_def INT_MIN_def INT_MAX_def ServerConfig_new_def)
  have "stoi ''many'' = Inl Invalid_argument"
    by (simp add: stoi_def is_space_def split_sign_def is_digit_def Let_def)
  then show "parseArgs (''server'' # command_line [Port 8080] @ [''-t'', ''many'']) (ServerConfig_new 0 0) =
     Inl Invalid_argument"
    using parseArgs_settings [OF _ known, of "[Port 8080]" "''server''" "ServerConfig_new 0 0" "''many''"
        Invalid_argument "[]"]
    by (simp add: int_setting_def INT_MIN_def INT_MAX_def)
qed

end
