(* ===== verification/Json_Value.thy ===== *)
theory Json_Value
  imports Prelude "HOL-Library.Char_ord" "HOL-Library.List_Lexorder"
begin

text \<open>
  The values of \<open>nlohmann::json\<close> the sources handle. The library itself is third-party code: its
  \<open>parse\<close> and \<open>dump\<close> are the two fields of \<open>json_lib\<close>, a parameter of the operations that use them.
  An object is kept the way the library keeps it, as a table sorted by key (\<open>std::map\<close>); the accesses
  the sources make (\<open>j[k] = v\<close>, \<open>j.empty()\<close>, iteration, \<open>std::string s = j[k]\<close>) are functions here.
\<close>

datatype json =
    JNull
  | JBool bool
  | JInt int
  | JFloat string
  | JString string
  | JArray "json list"
  | JObject "(string \<times> json) list"

record json_lib =
  json_parse :: "string \<Rightarrow> json option"
  json_dump :: "json \<Rightarrow> string result"

fun obj_insert :: "string \<Rightarrow> json \<Rightarrow> (string \<times> json) list \<Rightarrow> (string \<times> json) list" where
  "obj_insert k v [] = [(k, v)]"
| "obj_insert k v ((k', v') # r) =
     (if k = k' then (k, v) # r
      else if k < k' then (k, v) # (k', v') # r
      else (k', v') # obj_insert k v r)"

text \<open>\<open>j[k] = v\<close>; a null value becomes an object first.\<close>

fun json_set :: "string \<Rightarrow> json \<Rightarrow> json \<Rightarrow> json result" where
  "json_set k v JNull = Inr (JObject [(k, v)])"
| "json_set k v (JObject kvs) = Inr (JObject (obj_insert k v kvs))"
| "json_set k v _ = Inl Type_error"

fun json_empty :: "json \<Rightarrow> bool" where
  "json_empty JNull = True"
| "json_empty (JArray xs) = (xs = [])"
| "json_empty (JObject kvs) = (kvs = [])"
| "json_empty _ = False"

text \<open>A loop over \<open>it = j.begin() .. j.end()\<close> that reads \<open>it.key()\<close>: a value other than an object has
  no keys, and \<open>key()\<close> throws on its first element.\<close>

fun json_items :: "json \<Rightarrow> (string \<times> json) list result" where
  "json_items JNull = Inr []"
| "json_items (JArray []) = Inr []"
| "json_items (JObject kvs) = Inr kvs"
| "json_items _ = Inl Type_error"

text \<open>\<open>std::string s = j[k]\<close> on a \<open>const\<close> value: a missing key is undefined behaviour.\<close>

fun json_get_string :: "json \<Rightarrow> string \<Rightarrow> string result" where
  "json_get_string (JObject kvs) k =
     (case map_of kvs k of
        None \<Rightarrow> Inl Null_dereference
      | Some (JString s) \<Rightarrow> Inr s
      | Some _ \<Rightarrow> Inl Type_error)"
| "json_get_string _ k = Inl Type_error"

section \<open>Lemmas\<close>

lemma map_of_obj_insert [map_simps]: "map_of (obj_insert k v kvs) = (map_of kvs)(k \<mapsto> v)"
  by (induction k v kvs rule: obj_insert.induct) auto

lemma set_obj_insert: "fst ` set (obj_insert k v kvs) = insert k (fst ` set kvs)"
  by (induction k v kvs rule: obj_insert.induct) auto

lemma sorted_obj_insert:
  "sorted (map fst kvs) \<Longrightarrow> distinct (map fst kvs) \<Longrightarrow>
   sorted (map fst (obj_insert k v kvs)) \<and> distinct (map fst (obj_insert k v kvs))"
proof (induction k v kvs rule: obj_insert.induct)
  case (2 k v k' v' r)
  have keys: "set (map fst (obj_insert k v r)) = insert k (set (map fst r))"
    using set_obj_insert [of k v r] by simp
  show ?case
  proof (cases "k = k' \<or> k < k'")
    case True
    with 2 show ?thesis by (auto intro: order_trans less_imp_le)
  next
    case False
    with 2 keys show ?thesis by (auto simp del: set_map)
  qed
qed simp

section \<open>A concrete instance, for evaluation\<close>

text \<open>A small printer, and a parser of the two values used in evaluations.\<close>

fun demo_dump :: "json \<Rightarrow> string" and demo_members :: "(string \<times> json) list \<Rightarrow> string" where
  "demo_dump JNull = ''null''"
| "demo_dump (JBool b) = (if b then ''true'' else ''false'')"
| "demo_dump (JInt i) = to_string i"
| "demo_dump (JFloat t) = t"
| "demo_dump (JString s) = CHR 0x22 # s @ [CHR 0x22]"
| "demo_dump (JArray xs) = ''['' @ concat (map demo_dump xs) @ '']''"
| "demo_dump (JObject kvs) = CHR 0x7B # demo_members kvs @ [CHR 0x7D]"
| "demo_members [] = []"
| "demo_members ((k, v) # r) =
     CHR 0x22 # k @ [CHR 0x22] @ '':'' @ demo_dump v @ (if r = [] then [] else '','' @ demo_members r)"

definition demo_json :: json_lib where
  "demo_json = \<lparr>json_parse = (\<lambda>s. if s = ''A'' then Some (JObject [(''cache_mode'', JInt 1), (''log_close'', JBool True), (''port'', JInt 80)])
                             else if s = ''B'' then Some (JObject [(''log_close'', JBool False), (''port'', JInt 81)])
                             else None),
                json_dump = (\<lambda>j. Inr (demo_dump j))\<rparr>"

end
