(* ===== verification/Config_Manager.thy ===== *)
theory Config_Manager
  imports Json_Value
begin

text \<open>
  The configuration file and its hot reload: \<open>src/config/config_manager.h\<close> and
  \<open>config_manager.cpp\<close>.

  The table keeps the JSON text of every value. The file system is an argument: \<open>file\<close> is the content of
  the file at the moment it is read, \<open>None\<close> when it cannot be opened. A call-back is a value of type \<open>'cb\<close>;
  \<open>loadFromFile\<close> returns the call-backs it runs, in order. The watcher thread is a sequence of loads.
\<close>

section \<open>Model\<close>

record 'cb config_manager =
  m_config_manager_close :: bool
  m_config :: "(string \<times> string) list"
  m_last_loaded_content :: string
  m_config_path :: string
  m_running :: bool
  m_key_callbacks :: "string \<rightharpoonup> 'cb"

definition m_hot_reloadable_keys :: "string list" where
  "m_hot_reloadable_keys = [''log_close'', ''rate_limiter_close'', ''interceptor_close'', ''log_level'', ''cache_mode'']"

definition ConfigManager_new :: "string \<Rightarrow> 'cb config_manager" where
  "ConfigManager_new root =
     \<lparr>m_config_manager_close = False, m_config = [], m_last_loaded_content = [],
      m_config_path = root @ ''/src/config/server_config.json'', m_running = False,
      m_key_callbacks = Map.empty\<rparr>"

text \<open>One round of the loop over the members of the file; the list collects \<open>changed_keys\<close>.\<close>

definition load_item ::
  "bool \<Rightarrow> string \<Rightarrow> string \<Rightarrow> (string \<times> string) list \<times> string list \<Rightarrow> (string \<times> string) list \<times> string list" where
  "load_item first_load key new_val st =
     (case st of (config, changed_keys) \<Rightarrow>
       let is_changed = (map_of config key = None \<or> map_of config key \<noteq> Some new_val);
           is_hot_reloadable = List.member m_hot_reloadable_keys key
       in if first_load \<or> is_hot_reloadable
          then if is_changed
               then (AList.update key new_val config,
                     if \<not> first_load \<and> is_hot_reloadable then changed_keys @ [key] else changed_keys)
               else (config, changed_keys)
          else (config, changed_keys))"

fun load_items ::
  "json_lib \<Rightarrow> bool \<Rightarrow> (string \<times> json) list \<Rightarrow> (string \<times> string) list \<times> string list \<Rightarrow>
   ((string \<times> string) list \<times> string list) result" where
  "load_items J first_load [] st = Inr st"
| "load_items J first_load ((key, v) # r) st =
     rbind (json_dump J v) (\<lambda>new_val. load_items J first_load r (load_item first_load key new_val st))"

definition loadFromFile ::
  "json_lib \<Rightarrow> 'cb config_manager \<Rightarrow> string option \<Rightarrow> (bool \<times> 'cb config_manager \<times> 'cb list) result" where
  "loadFromFile J cm file =
     (case file of
        None \<Rightarrow> Inr (False, cm, [])
      | Some content \<Rightarrow>
          if content = m_last_loaded_content cm then Inr (False, cm, [])
          else case json_parse J content of
            None \<Rightarrow> Inr (False, cm, [])
          | Some j \<Rightarrow>
              (let first_load = (m_config cm = [])
               in rbind (json_items j) (\<lambda>items.
                  rbind (load_items J first_load items (m_config cm, [])) (\<lambda>(config, changed_keys).
                    let cm' = cm\<lparr>m_config := config, m_last_loaded_content := content\<rparr>;
                        cbs = (if first_load then []
                               else List.map_filter (m_key_callbacks cm') changed_keys)
                    in Inr (True, cm', cbs)))))"

definition startWatchThread :: "'cb config_manager \<Rightarrow> bool \<times> 'cb config_manager" where
  "startWatchThread cm = (if m_running cm then (False, cm) else (True, cm\<lparr>m_running := True\<rparr>))"

definition config_init ::
  "json_lib \<Rightarrow> 'cb config_manager \<Rightarrow> bool \<Rightarrow> string \<Rightarrow> (string \<Rightarrow> string option) \<Rightarrow> 'cb config_manager result" where
  "config_init J cm enable_hot_reload path fs =
     (let cm1 = (if path \<noteq> [] then cm\<lparr>m_config_path := path\<rparr> else cm);
          cm2 = cm1\<lparr>m_config_manager_close := \<not> enable_hot_reload\<rparr>
      in rbind (loadFromFile J cm2 (fs (m_config_path cm2))) (\<lambda>(_, cm3, _).
         Inr (if \<not> m_config_manager_close cm3 then snd (startWatchThread cm3) else cm3)))"

definition config_get :: "'cb config_manager \<Rightarrow> string \<Rightarrow> string" where
  "config_get cm key = (case map_of (m_config cm) key of None \<Rightarrow> [] | Some v \<Rightarrow> v)"

definition getInt :: "'cb config_manager \<Rightarrow> string \<Rightarrow> int \<Rightarrow> int" where
  "getInt cm key defaultVal =
     (case map_of (m_config cm) key of
        None \<Rightarrow> defaultVal
      | Some v \<Rightarrow> (case stoi v of Inr i \<Rightarrow> i | Inl _ \<Rightarrow> defaultVal))"

definition getBool :: "'cb config_manager \<Rightarrow> string \<Rightarrow> bool \<Rightarrow> bool" where
  "getBool cm key defaultVal =
     (case map_of (m_config cm) key of
        None \<Rightarrow> defaultVal
      | Some val \<Rightarrow> val = ''1'' \<or> val = ''true'' \<or> val = ''True'')"

text \<open>\<open>m_key_callbacks.insert({key, cb})\<close>: the first call-back of a key stays.\<close>

definition registerCallback :: "'cb config_manager \<Rightarrow> string \<Rightarrow> 'cb \<Rightarrow> 'cb config_manager" where
  "registerCallback cm key cb =
     (case m_key_callbacks cm key of
        None \<Rightarrow> cm\<lparr>m_key_callbacks := (m_key_callbacks cm)(key \<mapsto> cb)\<rparr>
      | Some _ \<Rightarrow> cm)"

text \<open>The watcher: one load per round; an exception ends the program.\<close>

fun watch_rounds :: "json_lib \<Rightarrow> 'cb config_manager \<Rightarrow> string option list \<Rightarrow> ('cb config_manager \<times> 'cb list) result" where
  "watch_rounds J cm [] = Inr (cm, [])"
| "watch_rounds J cm (f # fs) =
     rbind (loadFromFile J cm f) (\<lambda>(_, cm', cbs).
     rbind (watch_rounds J cm' fs) (\<lambda>(cm'', cbs'). Inr (cm'', cbs @ cbs')))"

section \<open>Lemmas\<close>

definition hot :: "string \<Rightarrow> bool" where
  "hot key = List.member m_hot_reloadable_keys key"

text \<open>A reload in terms of the texts of the members: what each key holds afterwards and which keys
  are reported.\<close>

lemma load_items_reload:
  assumes "load_items J False items (config, changed) = Inr (config', changed')" "distinct (map fst items)"
  shows "(\<forall>key. \<not> hot key \<longrightarrow> map_of config' key = map_of config key) \<and>
    (\<forall>(key, v) \<in> set items. hot key \<longrightarrow> (\<exists>tx. json_dump J v = Inr tx \<and> map_of config' key = Some tx)) \<and>
    (\<forall>key. key \<notin> fst ` set items \<longrightarrow> map_of config' key = map_of config key) \<and>
    changed' = changed @ filter (\<lambda>key. map_of config' key \<noteq> map_of config key) (map fst items)"
  using assms
proof (induction items arbitrary: config changed)
  case (Cons kv items)
  obtain key v where kv: "kv = (key, v)" by (cases kv)
  with Cons.prems(1) obtain tx where tx: "json_dump J v = Inr tx" by (auto elim: rbind_eq_InrE)
  obtain c1 ch1 where item: "load_item False key tx (config, changed) = (c1, ch1)"
    by (cases "load_item False key tx (config, changed)")
  have rest: "load_items J False items (c1, ch1) = Inr (config', changed')"
    using Cons.prems(1) kv tx item by simp
  have fresh: "key \<notin> fst ` set items" and dist: "distinct (map fst items)"
    using Cons.prems(2) kv by (auto simp: image_iff)
  have c1: "c1 = (if hot key \<and> map_of config key \<noteq> Some tx then AList.update key tx config else config)"
    "ch1 = changed @ (if map_of c1 key \<noteq> map_of config key then [key] else [])"
    using item by (auto simp: load_item_def hot_def Let_def map_simps split: if_splits)
  note IH = Cons.IH [OF rest dist]
  have key: "map_of config' key = map_of c1 key" using IH fresh by blast
  have other: "x \<noteq> key \<Longrightarrow> map_of c1 x = map_of config x" for x using c1(1) by (simp add: map_simps)
  have "filter (\<lambda>k. map_of config' k \<noteq> map_of c1 k) (map fst items) = filter (\<lambda>k. map_of config' k \<noteq> map_of config k) (map fst items)"
    using fresh other by (intro filter_cong refl) (metis image_set)
  with IH key c1 other tx kv show ?case by (auto simp: map_simps split: if_splits)
qed simp

lemma loadFromFile_cases:
  assumes "loadFromFile J cm file = Inr (b, cm', cbs)"
  obtains (kept) "\<not> b" "cm' = cm" "cbs = []"
  | (loaded) content j items config changed where "b" "file = Some content" "json_parse J content = Some j"
    "json_items j = Inr items" "load_items J (m_config cm = []) items (m_config cm, []) = Inr (config, changed)"
    "cm' = cm\<lparr>m_config := config, m_last_loaded_content := content\<rparr>"
    "cbs = (if m_config cm = [] then [] else List.map_filter (m_key_callbacks cm) changed)"
proof (cases b)
  case False
  with assms have "cm' = cm" "cbs = []"
    by (auto simp: loadFromFile_def Let_def split: option.splits if_splits prod.splits elim!: rbind_eq_InrE)
  with False show thesis by (intro kept)
next
  case True
  with assms obtain content j where c: "file = Some content" "json_parse J content = Some j"
    and r: "rbind (json_items j) (\<lambda>items.
      rbind (load_items J (m_config cm = []) items (m_config cm, [])) (\<lambda>(config, changed_keys).
        let cm' = cm\<lparr>m_config := config, m_last_loaded_content := content\<rparr>;
            cbs = (if m_config cm = [] then [] else List.map_filter (m_key_callbacks cm') changed_keys)
        in Inr (True, cm', cbs))) = Inr (b, cm', cbs)"
    by (auto simp: loadFromFile_def Let_def split: option.splits if_splits)
  from r obtain items where i: "json_items j = Inr items" by (rule rbind_eq_InrE)
  with r obtain config changed
    where l: "load_items J (m_config cm = []) items (m_config cm, []) = Inr (config, changed)"
    by (auto elim!: rbind_eq_InrE)
  show thesis by (rule loaded [OF True c i l]) (use r i l in \<open>auto simp: Let_def\<close>)
qed

text \<open>What the file must be for a reload: an object without repeated members.\<close>

definition json_lib_ok :: "json_lib \<Rightarrow> bool" where
  "json_lib_ok J \<longleftrightarrow> (\<forall>s j items. json_parse J s = Some j \<longrightarrow> json_items j = Inr items \<longrightarrow> distinct (map fst items))"

lemma json_lib_ok_demo: "json_lib_ok demo_json"
  by (auto simp: json_lib_ok_def demo_json_def split: if_splits)

lemma reload_frame:
  assumes "json_lib_ok J" "loadFromFile J cm file = Inr (b, cm', cbs)" "m_config cm \<noteq> []" "\<not> hot key"
  shows "map_of (m_config cm') key = map_of (m_config cm) key"
  using assms(2)
proof (cases rule: loadFromFile_cases)
  case (loaded content j items config changed)
  with assms load_items_reload [of J items "m_config cm" "[]" config changed] show ?thesis
    by (auto simp: json_lib_ok_def)
qed simp

lemma reload_nonempty:
  assumes "json_lib_ok J" "loadFromFile J cm file = Inr (b, cm', cbs)" "m_config cm \<noteq> []"
  shows "m_config cm' \<noteq> []"
  using assms(2)
proof (cases rule: loadFromFile_cases)
  case (loaded content j items config changed)
  obtain key v where kv: "map_of (m_config cm) key = Some v" using assms(3)
    by (metis list.exhaust map_of_Cons_code(2) surj_pair)
  have "distinct (map fst items)" using assms(1) loaded unfolding json_lib_ok_def by blast
  note spec = load_items_reload [OF loaded(5) [simplified assms(3)] this]
  have "map_of config key \<noteq> None"
  proof (cases "hot key \<and> key \<in> fst ` set items")
    case True
    with spec show ?thesis by auto
  next
    case False
    with spec kv have "map_of config key = map_of (m_config cm) key" by blast
    with kv show ?thesis by simp
  qed
  with loaded show ?thesis by auto
qed (use assms in simp)

section \<open>Properties\<close>



definition cm_A :: "nat config_manager" where
  "cm_A = (ConfigManager_new [])\<lparr>m_config := [(''cache_mode'', ''1''), (''log_close'', ''true''), (''port'', ''80'')],
             m_last_loaded_content := ''A'', m_key_callbacks := [''log_close'' \<mapsto> 7]\<rparr>"

definition cm_B :: "nat config_manager" where
  "cm_B = cm_A\<lparr>m_config := AList.update ''log_close'' ''false'' (m_config cm_A), m_last_loaded_content := ''B''\<rparr>"

lemma load_demo: "loadFromFile demo_json cm_A (Some ''B'') = Inr (True, cm_B, [7])"
  by (simp add: cm_A_def cm_B_def loadFromFile_def demo_json_def Let_def ConfigManager_new_def
      load_item_def m_hot_reloadable_keys_def List.map_filter_def)

lemma cm_A_loaded: "m_config cm_A \<noteq> []"
  by (auto simp: cm_A_def fun_eq_iff)



end
