(* ===== verification/Base_Conn.thy ===== *)
theory Base_Conn
  imports Prelude
begin

text \<open>
  What the connection classes share: \<open>src/conn/base_conn.h\<close> and \<open>base_conn.cpp\<close>, and the two socket calls
  they make. The kernel's answers are arguments: \<open>recv_outcome\<close> is what one \<open>recv\<close> gives, \<open>send_outcome\<close>
  what one \<open>send\<close> or \<open>sendfile\<close> gives. A list of outcomes stands for the answers of successive calls; when it
  is used up the socket would block.
\<close>

datatype write_status = OK | AGAIN | ERROR

datatype recv_outcome = Received string | Recv_would_block | Recv_error | Peer_closed

datatype send_outcome = Sent nat | Send_would_block | Send_error

text \<open>The loop \<open>while (sent < total) send(...)\<close>: the status, the bytes that went out, the answers left.
  A \<open>send\<close> that reports no byte at all is handled as an error.\<close>

fun send_all :: "string \<Rightarrow> send_outcome list \<Rightarrow> write_status \<times> string \<times> send_outcome list" where
  "send_all [] outs = (OK, [], outs)"
| "send_all (c # cs) [] = (AGAIN, [], [])"
| "send_all (c # cs) (Send_would_block # outs) = (AGAIN, [], outs)"
| "send_all (c # cs) (Send_error # outs) = (ERROR, [], outs)"
| "send_all (c # cs) (Sent n # outs) =
     (if n = 0 then (ERROR, [], outs)
      else (case send_all (drop n (c # cs)) outs of
              (st, wire, rest) \<Rightarrow> (st, take n (c # cs) @ wire, rest)))"

lemma send_all_prefix: "send_all buf outs = (st, wire, rest) \<Longrightarrow> \<exists>later. buf = wire @ later \<and> (st = OK \<longrightarrow> later = [])"
proof (induction buf outs arbitrary: st wire rest rule: send_all.induct)
  case (5 c cs n outs)
  show ?case
  proof (cases "n = 0")
    case False
    obtain st' wire' rest' where r: "send_all (drop n (c # cs)) outs = (st', wire', rest')"
      by (cases "send_all (drop n (c # cs)) outs")
    from "5.IH" [OF False r] obtain later where l: "drop n (c # cs) = wire' @ later" "st' = OK \<longrightarrow> later = []"
      by blast
    have w: "wire = take n (c # cs) @ wire'" "st = st'" using "5.prems" r False by simp_all
    have "c # cs = take n (c # cs) @ drop n (c # cs)" by simp
    then have "c # cs = wire @ later" unfolding l(1) w(1) by simp
    with l(2) w(2) show ?thesis by blast
  qed (use "5.prems" in simp)
qed auto

lemma send_all_OK: "send_all buf outs = (OK, wire, rest) \<Longrightarrow> wire = buf"
  using send_all_prefix [of buf outs OK wire rest] by simp

text \<open>Outcomes that each take at least one byte send everything.\<close>

lemma send_all_progress:
  "length buf \<le> length outs \<Longrightarrow> \<forall>x \<in> set outs. \<exists>n. x = Sent (Suc n) \<Longrightarrow>
   \<exists>rest. send_all buf outs = (OK, buf, rest)"
proof (induction buf outs rule: send_all.induct)
  case (5 c cs n outs)
  then have "n \<noteq> 0" by auto
  then have "length (drop n (c # cs)) \<le> length outs" using "5.prems"(1) by simp
  with "5.IH" [OF \<open>n \<noteq> 0\<close>] "5.prems"(2) obtain rest
    where "send_all (drop n (c # cs)) outs = (OK, drop n (c # cs), rest)" by auto
  then show ?case using \<open>n \<noteq> 0\<close> by simp
qed auto

end
