(* ===== verification/Http_Base.thy ===== *)
theory Http_Base
  imports Json_Value
begin

text \<open>
  The attributes of one HTTP request: \<open>src/conn/http/http_base.h\<close> and \<open>http_base.cpp\<close>. The record has the
  fields of the class; the getters are its selectors. \<open>parseRange\<close> keeps what it has stored before
  \<open>std::stoi\<close> throws, as the \<open>try\<close> block of the source does.
\<close>

section \<open>Model\<close>

record byte_range =
  range_start :: int
  range_end :: int
  range_isValid :: bool

record http_base =
  m_ip :: string
  m_method :: string
  m_url :: string
  m_version :: string
  m_request_body :: string
  m_request_json :: json
  m_keep_alive :: bool
  m_connection :: string
  m_content_length :: int
  m_request_headers :: "string \<rightharpoonup> string"
  m_form_data :: "string \<rightharpoonup> string"
  m_range :: byte_range
  m_username :: string
  m_authenticated :: bool

definition no_range :: byte_range where
  "no_range = \<lparr>range_start = -1, range_end = -1, range_isValid = False\<rparr>"

text \<open>A fresh object after \<open>init(ip)\<close>; the JSON value of a fresh object is null.\<close>

definition http_base_init :: "string \<Rightarrow> http_base" where
  "http_base_init ip =
     \<lparr>m_ip = ip, m_method = [], m_url = [], m_version = [], m_request_body = [], m_request_json = JNull,
      m_keep_alive = False, m_connection = [], m_content_length = 0, m_request_headers = Map.empty,
      m_form_data = Map.empty, m_range = no_range, m_username = [], m_authenticated = False\<rparr>"

definition setHeader :: "http_base \<Rightarrow> string \<Rightarrow> string \<Rightarrow> http_base" where
  "setHeader b key val = b\<lparr>m_request_headers := (m_request_headers b)(key \<mapsto> val)\<rparr>"

definition getHeader :: "http_base \<Rightarrow> string \<Rightarrow> string" where
  "getHeader b key = (case m_request_headers b key of None \<Rightarrow> [] | Some v \<Rightarrow> v)"

definition setUsername :: "http_base \<Rightarrow> string \<Rightarrow> http_base" where
  "setUsername b username = b\<lparr>m_username := username, m_authenticated := True\<rparr>"

text \<open>The \<open>try\<close> block: one end of the range, then the other.\<close>

definition parse_range_ends :: "byte_range \<Rightarrow> string \<Rightarrow> string \<Rightarrow> byte_range" where
  "parse_range_ends rg start_str end_str =
     (case (if start_str \<noteq> [] then map_sum id (\<lambda>v. rg\<lparr>range_start := v\<rparr>) (stoi start_str) else Inr rg) of
        Inl _ \<Rightarrow> rg\<lparr>range_isValid := False\<rparr>
      | Inr rg1 \<Rightarrow>
          (case (if end_str \<noteq> [] then map_sum id (\<lambda>v. rg1\<lparr>range_end := v\<rparr>) (stoi end_str) else Inr rg1) of
             Inl _ \<Rightarrow> rg1\<lparr>range_isValid := False\<rparr>
           | Inr rg2 \<Rightarrow> rg2\<lparr>range_isValid := True\<rparr>))"

definition parseRange :: "http_base \<Rightarrow> http_base" where
  "parseRange b =
     (let val = getHeader b ''Range''; pre = ''bytes=''
      in if length pre \<le> length val \<and> take (length pre) val = pre
         then (let range_str = drop (case find_char (CHR ''='') val of None \<Rightarrow> 0 | Some p \<Rightarrow> p + 1) val
               in case find_char (CHR ''-'') range_str of
                    None \<Rightarrow> b\<lparr>m_range := (m_range b)\<lparr>range_isValid := False\<rparr>\<rparr>
                  | Some pos \<Rightarrow>
                      b\<lparr>m_range := parse_range_ends (m_range b) (take pos range_str)
                                     (drop (pos + 1) range_str)\<rparr>)
         else b)"

section \<open>Lemmas\<close>

lemma getHeader_setHeader [simp]:
  "getHeader (setHeader b k v) k' = (if k' = k then v else getHeader b k')"
  by (simp add: getHeader_def setHeader_def)

lemma setHeader_frame [simp]:
  "m_range (setHeader b k v) = m_range b" "m_ip (setHeader b k v) = m_ip b"
  "m_content_length (setHeader b k v) = m_content_length b" "m_url (setHeader b k v) = m_url b"
  "m_method (setHeader b k v) = m_method b" "m_version (setHeader b k v) = m_version b"
  by (simp_all add: setHeader_def)

lemma minus_not_in_digits: "CHR ''-'' \<notin> set (nat_to_string n)"
  using nat_to_string_digits [of n] by (auto simp: is_digit_def)

lemma to_string_nonneg: "0 \<le> i \<Longrightarrow> to_string i = nat_to_string (nat i)"
  by (simp add: to_string_def)

lemma to_string_nonempty [simp]: "to_string i \<noteq> []"
  by (simp add: to_string_def)

text \<open>The text of a range header: both ends, the first only, the last so many bytes.\<close>

definition range_text :: "int option \<Rightarrow> int option \<Rightarrow> string" where
  "range_text a b = ''bytes='' @ (case a of None \<Rightarrow> [] | Some i \<Rightarrow> to_string i) @ ''-'' @
     (case b of None \<Rightarrow> [] | Some i \<Rightarrow> to_string i)"

definition range_number :: "int option \<Rightarrow> bool" where
  "range_number a = (case a of None \<Rightarrow> True | Some i \<Rightarrow> 0 \<le> i \<and> i \<le> INT_MAX)"

lemma parseRange_text:
  assumes "range_number a" "range_number b"
  shows "m_range (parseRange (setHeader c ''Range'' (range_text a b))) =
    \<lparr>range_start = (case a of None \<Rightarrow> range_start (m_range c) | Some i \<Rightarrow> i),
     range_end = (case b of None \<Rightarrow> range_end (m_range c) | Some i \<Rightarrow> i), range_isValid = True\<rparr>"
proof -
  define s where "s = (case a of None \<Rightarrow> [] | Some i \<Rightarrow> to_string i)"
  define e where "e = (case b of None \<Rightarrow> [] | Some i \<Rightarrow> to_string i)"
  have no_minus: "CHR ''-'' \<notin> set s"
    using assms(1) minus_not_in_digits by (auto simp: s_def range_number_def to_string_nonneg split: option.splits)
  have rt: "range_text a b = ''bytes='' @ s @ CHR ''-'' # e"
    by (simp add: range_text_def s_def e_def)
  have eq: "find_char (CHR ''='') (range_text a b) = Some 5"
    by (simp add: rt)
  have pos: "find_char (CHR ''-'') (s @ CHR ''-'' # e) = Some (length s)"
    using no_minus by (rule find_char_append)
  have r: "m_range (parseRange (setHeader c ''Range'' (range_text a b))) = parse_range_ends (m_range c) s e"
    using eq pos by (simp add: parseRange_def Let_def rt)
  have st: "\<And>i. 0 \<le> i \<Longrightarrow> i \<le> INT_MAX \<Longrightarrow> stoi (to_string i) = Inr i"
    by (rule stoi_to_string) (simp_all add: INT_MIN_def)
  have "s = [] \<longleftrightarrow> a = None" "e = [] \<longleftrightarrow> b = None" by (simp_all add: s_def e_def split: option.splits)
  with assms show ?thesis unfolding r
    by (cases a; cases b) (simp_all add: parse_range_ends_def s_def e_def st range_number_def)
qed

end
