(* ===== verification/Http_Request.thy ===== *)
theory Http_Request
  imports Http_Base Session_Manager Token_Manager
begin

text \<open>
  The request parser: \<open>src/conn/http/http_request.h\<close> and \<open>http_request.cpp\<close>. The class has the shared
  \<open>HttpBase\<close> object as its only member, so its operations are functions on \<open>http_base\<close>; the getters and
  setters forward to those of \<open>Http_Base\<close>. \<open>std::stoi\<close> on \<open>Content-Length\<close> is not guarded: its exceptions
  are results of \<open>parseHeaders\<close>.
\<close>

section \<open>Model\<close>

definition getToken :: "http_base \<Rightarrow> string" where
  "getToken b = getHeader b ''Authorization''"

text \<open>The loop over the pieces of the \<open>Cookie\<close> header.\<close>

fun find_cookie :: "string \<Rightarrow> string list \<Rightarrow> string" where
  "find_cookie key [] = []"
| "find_cookie key (pair # rest) =
     (case find_char (CHR ''='') pair of
        None \<Rightarrow> find_cookie key rest
      | Some pos \<Rightarrow>
          (let cookie_key = dropWhile (\<lambda>c. c = CHR '' '') (take pos pair);
               cookie_value = drop (pos + 1) pair
           in if cookie_key = key then cookie_value else find_cookie key rest))"

definition getRequestCookie :: "http_base \<Rightarrow> string \<Rightarrow> string" where
  "getRequestCookie b key =
     (case m_request_headers b ''Cookie'' of
        None \<Rightarrow> []
      | Some cookie_header \<Rightarrow> find_cookie key (getlines (CHR '';'') cookie_header))"

definition parseRequestLine :: "http_base \<Rightarrow> string \<Rightarrow> bool \<times> http_base" where
  "parseRequestLine b line =
     (let (method, r1) = read_word line; (url, r2) = read_word r1; (version, r3) = read_word r2
      in if method = [] \<or> url = [] \<or> version = [] then (False, b)
         else (True, b\<lparr>m_method := method, m_url := url, m_version := version\<rparr>))"

text \<open>Leading blanks and tabs, and one trailing carriage return, are taken off the value.\<close>

definition trim_header_value :: "string \<Rightarrow> string" where
  "trim_header_value val =
     (let v = dropWhile (\<lambda>c. c = CHR '' '' \<or> c = CHR 0x09) val
      in if v \<noteq> [] \<and> last v = CR then butlast v else v)"

definition parseHeaders :: "http_base \<Rightarrow> string \<Rightarrow> (bool \<times> http_base) result" where
  "parseHeaders b line =
     (if line = CRLF \<or> line = [] then Inr (False, b)
      else case find_char (CHR '':'') line of
        None \<Rightarrow> Inr (True, b)
      | Some pos \<Rightarrow>
          (let key = take pos line;
               val = trim_header_value (drop (pos + 1) line);
               b1 = setHeader b key val
           in rbind (if key = ''Content-Length''
                     then rbind (stoi val) (\<lambda>n. Inr (b1\<lparr>m_content_length := n\<rparr>)) else Inr b1) (\<lambda>b2.
              let b3 = (if key = ''connection''
                        then b2\<lparr>m_connection := val, m_keep_alive := (val = ''keep-alive'')\<rparr> else b2);
                  b4 = (if key = ''Range'' then parseRange b3 else b3)
              in Inr (True, b4))))"

definition form_pairs :: "string \<Rightarrow> (string \<times> string) list" where
  "form_pairs body =
     List.map_filter (\<lambda>kv. map_option (\<lambda>pos. (take pos kv, drop (pos + 1) kv)) (find_char (CHR ''='') kv))
       (getlines (CHR ''&'') body)"

definition parseFormData :: "http_base \<Rightarrow> http_base" where
  "parseFormData b =
     b\<lparr>m_form_data := foldl (\<lambda>result (key, val). result(key \<mapsto> val)) Map.empty (form_pairs (m_request_body b))\<rparr>"

definition parseJsonBody :: "json_lib \<Rightarrow> http_base \<Rightarrow> http_base" where
  "parseJsonBody J b =
     (case json_parse J (m_request_body b) of None \<Rightarrow> b | Some j \<Rightarrow> b\<lparr>m_request_json := j\<rparr>)"

text \<open>\<open>std::string(read_buf, content_length)\<close>: a negative length converts to a huge one and throws, a
  length beyond the array reads past its end.\<close>

definition parseBody :: "json_lib \<Rightarrow> http_base \<Rightarrow> string \<Rightarrow> int \<Rightarrow> http_base result" where
  "parseBody J b read_buf content_length =
     (if content_length < 0 then Inl Length_error
      else if int (length read_buf) < content_length then Inl Buffer_overread
      else (let b1 = b\<lparr>m_request_body := take (nat content_length) read_buf\<rparr>;
                contentType = getHeader b1 ''Content-Type''
            in if contains_sub ''application/x-www-form-urlencoded'' contentType then Inr (parseFormData b1)
               else if contains_sub ''application/json'' contentType then Inr (parseJsonBody J b1)
               else Inr b1))"

text \<open>Clock readings: \<open>t1\<close> in \<open>isSessionIdExpired\<close>, \<open>t2\<close> in \<open>isTokenExpired\<close>, \<open>t3\<close> in
  \<open>getUsername\<close>.\<close>

definition parseAuthContext ::
  "openssl \<Rightarrow> http_base \<Rightarrow> session_manager \<Rightarrow> token_manager \<Rightarrow> time \<Rightarrow> time \<Rightarrow> time \<Rightarrow>
   http_base \<times> session_manager \<times> token_manager" where
  "parseAuthContext ssl b sm tm t1 t2 t3 =
     (let sessionId = getRequestCookie b ''session_id'';
          sm' = (if isSessionIdValid sm sessionId then snd (isSessionIdExpired sm sessionId t1) else sm);
          token = getToken b
      in if isTokenValid ssl tm token
         then (let (expired, tm1) = isTokenExpired tm token t2
               in if \<not> expired
                  then (let (username, tm2) = getUsername ssl tm1 token t3
                        in (setUsername b username, sm', tm2))
                  else (b, sm', tm1))
         else (b, sm', tm))"

section \<open>Request lines\<close>

definition word_ok :: "string \<Rightarrow> bool" where
  "word_ok w \<longleftrightarrow> w \<noteq> [] \<and> (\<forall>c \<in> set w. \<not> is_space c)"

definition request_line :: "string \<Rightarrow> string \<Rightarrow> string \<Rightarrow> string" where
  "request_line method url version = method @ '' '' @ url @ '' '' @ version"

lemma space_is_space: "is_space (CHR '' '')"
  by (simp add: is_space_def)

lemma parseRequestLine_text:
  assumes "word_ok method" "word_ok url" "word_ok version"
  shows "parseRequestLine b (request_line method url version) =
    (True, b\<lparr>m_method := method, m_url := url, m_version := version\<rparr>)"
  using assms
  by (simp add: parseRequestLine_def request_line_def word_ok_def read_word_word read_word_skip
      read_word_last space_is_space Let_def)

section \<open>Header lines\<close>

text \<open>A header the parser gives back as it was sent: no colon in the name, no blank before and no
  carriage return behind the value.\<close>

definition header_ok :: "string \<times> string \<Rightarrow> bool" where
  "header_ok h \<longleftrightarrow> CHR '':'' \<notin> set (fst h) \<and>
     (snd h \<noteq> [] \<longrightarrow> hd (snd h) \<noteq> CHR '' '' \<and> hd (snd h) \<noteq> CHR 0x09 \<and> last (snd h) \<noteq> CR)"

definition header_line :: "string \<times> string \<Rightarrow> string" where
  "header_line h = fst h @ '': '' @ snd h"

lemma trim_header_value_ok: "header_ok (k, v) \<Longrightarrow> trim_header_value (CHR '' '' # v) = v"
  by (cases v) (auto simp: trim_header_value_def header_ok_def Let_def)

text \<open>What a header does besides being stored.\<close>

definition header_effect :: "http_base \<Rightarrow> string \<times> string \<Rightarrow> http_base result" where
  "header_effect b h =
     (let b1 = setHeader b (fst h) (snd h)
      in if fst h = ''Content-Length'' then rbind (stoi (snd h)) (\<lambda>n. Inr (b1\<lparr>m_content_length := n\<rparr>))
         else if fst h = ''connection''
         then Inr (b1\<lparr>m_connection := snd h, m_keep_alive := (snd h = ''keep-alive'')\<rparr>)
         else if fst h = ''Range'' then Inr (parseRange b1)
         else Inr b1)"

lemma parseHeaders_line:
  assumes "header_ok h"
  shows "parseHeaders b (header_line h) = rbind (header_effect b h) (\<lambda>b'. Inr (True, b'))"
proof -
  obtain k v where h: "h = (k, v)" by (cases h)
  have colon: "CHR '':'' \<notin> set k" using assms h by (simp add: header_ok_def)
  have line: "header_line h = k @ CHR '':'' # CHR '' '' # v" by (simp add: header_line_def h)
  have find: "find_char (CHR '':'') (header_line h) = Some (length k)"
    unfolding line using colon by (rule find_char_append)
  have ne: "header_line h \<noteq> CRLF" "header_line h \<noteq> []"
    using colon line by (auto simp: CRLF_def CR_def LF_def append_eq_Cons_conv)
  have parts: "take (length k) (header_line h) = k" "drop (length k + 1) (header_line h) = CHR '' '' # v"
    by (simp_all add: line)
  have trim: "trim_header_value (CHR '' '' # v) = v" using trim_header_value_ok assms h by simp
  have r: "parseHeaders b (header_line h) = (let b1 = setHeader b k v in
      rbind (if k = ''Content-Length'' then rbind (stoi v) (\<lambda>n. Inr (b1\<lparr>m_content_length := n\<rparr>)) else Inr b1)
        (\<lambda>b2. let b3 = (if k = ''connection''
                        then b2\<lparr>m_connection := v, m_keep_alive := (v = ''keep-alive'')\<rparr> else b2);
                  b4 = (if k = ''Range'' then parseRange b3 else b3)
              in Inr (True, b4)))"
    unfolding parseHeaders_def find option.case parts trim using ne by (simp only: if_False simp_thms Let_def)
  consider "k = ''Content-Length''" | "k = ''connection''" | "k = ''Range''"
    | "k \<noteq> ''Content-Length''" "k \<noteq> ''connection''" "k \<noteq> ''Range''" by blast
  then show ?thesis
    unfolding r by cases (simp_all add: header_effect_def h Let_def split: sum.split)
qed

lemma parseHeaders_blank [simp]: "parseHeaders b [] = Inr (False, b)"
  by (simp add: parseHeaders_def)

section \<open>Forms and cookies\<close>

text \<open>The text of a form: \<open>k1=v1&k2=v2\<close>; of a \<open>Cookie\<close> header, with any blanks before a name:
  \<open>k1=v1; k2=v2\<close>.\<close>

definition form_text :: "(string \<times> string) list \<Rightarrow> string" where
  "form_text kvs = join (CHR ''&'') (map (\<lambda>(k, v). k @ ''='' @ v) kvs)"

definition form_ok :: "string \<times> string \<Rightarrow> bool" where
  "form_ok kv \<longleftrightarrow> CHR ''='' \<notin> set (fst kv) \<and> CHR ''&'' \<notin> set (fst kv) \<and> CHR ''&'' \<notin> set (snd kv)"

definition cookie_text :: "(nat \<times> string \<times> string) list \<Rightarrow> string" where
  "cookie_text cs = join (CHR '';'') (map (\<lambda>(n, k, v). replicate n (CHR '' '') @ k @ ''='' @ v) cs)"

definition cookie_ok :: "nat \<times> string \<times> string \<Rightarrow> bool" where
  "cookie_ok c = (case c of (n, k, v) \<Rightarrow>
     CHR ''='' \<notin> set k \<and> CHR '';'' \<notin> set k \<and> CHR '';'' \<notin> set v \<and> (k \<noteq> [] \<longrightarrow> hd k \<noteq> CHR '' ''))"

lemma form_pairs_text:
  assumes "\<forall>kv \<in> set kvs. form_ok kv"
  shows "form_pairs (form_text kvs) = kvs"
proof -
  have "getlines (CHR ''&'') (form_text kvs) = map (\<lambda>(k, v). k @ ''='' @ v) kvs"
    unfolding form_text_def by (rule getlines_join) (use assms in \<open>auto simp: form_ok_def\<close>)
  moreover have "List.map_filter (\<lambda>kv. map_option (\<lambda>pos. (take pos kv, drop (pos + 1) kv)) (find_char (CHR ''='') kv))
      (map (\<lambda>(k, v). k @ ''='' @ v) kvs) = kvs"
    using assms by (induction kvs) (auto simp: map_filter_simps form_ok_def find_char_append)
  ultimately show ?thesis by (simp add: form_pairs_def)
qed

lemma foldl_upd_map_of: "foldl (\<lambda>r (k, v). r(k \<mapsto> v)) m kvs = m ++ map_of (rev kvs)"
  by (induction kvs arbitrary: m) (auto simp: map_add_def fun_eq_iff split: option.splits)

lemma dropWhile_blanks: "(k \<noteq> [] \<longrightarrow> hd k \<noteq> c) \<Longrightarrow> dropWhile (\<lambda>x. x = c) (replicate n c @ k) = k"
  by (induction n) (auto simp: dropWhile_eq_self_iff)

lemma find_cookie_text:
  assumes "\<forall>c \<in> set cs. cookie_ok c"
  shows "find_cookie key (map (\<lambda>(n, k, v). replicate n (CHR '' '') @ k @ ''='' @ v) cs) =
    (case map_of (map snd cs) key of None \<Rightarrow> [] | Some v \<Rightarrow> v)"
  using assms
proof (induction cs)
  case (Cons c cs)
  obtain n k v where c: "c = (n, k, v)" by (cases c)
  have "CHR ''='' \<notin> set (replicate n (CHR '' '') @ k)" using Cons.prems c by (simp add: cookie_ok_def)
  from find_char_append [OF this, of v] dropWhile_blanks [of k "CHR '' ''" n] Cons c show ?case
    by (simp add: cookie_ok_def Let_def)
qed simp

lemma getRequestCookie_text:
  assumes "\<forall>c \<in> set cs. cookie_ok c" "getHeader b ''Cookie'' = cookie_text cs"
  shows "getRequestCookie b key = (case map_of (map snd cs) key of None \<Rightarrow> [] | Some v \<Rightarrow> v)"
proof -
  have "getlines (CHR '';'') (cookie_text cs) =
      map (\<lambda>(n, k, v). replicate n (CHR '' '') @ k @ ''='' @ v) cs"
    unfolding cookie_text_def by (rule getlines_join) (use assms(1) in \<open>auto simp: cookie_ok_def\<close>)
  with find_cookie_text [OF assms(1)] assms(2) show ?thesis
    by (cases "m_request_headers b ''Cookie''")
      (auto simp: getRequestCookie_def getHeader_def split: option.splits)
qed

section \<open>Authentication\<close>

lemma parseAuthContext_user:
  assumes "token_inv ssl tm" "\<not> m_authenticated b"
    and "parseAuthContext ssl b sm tm t1 t2 t3 = (b', sm', tm')" "m_authenticated b'"
  shows "isTokenValid ssl tm (getToken b)" "\<not> fst (isTokenExpired tm (getToken b) t2)"
    "m_username b' = fst (getUsername ssl tm (getToken b) t3)"
proof -
  show valid: "isTokenValid ssl tm (getToken b)"
    using assms by (auto simp: parseAuthContext_def Let_def split: if_splits prod.splits)
  note known = isTokenExpired_known [OF assms(1) valid_exist [OF valid], of t2]
  show "\<not> fst (isTokenExpired tm (getToken b) t2)"
    using assms valid by (auto simp: parseAuthContext_def Let_def split: if_splits prod.splits)
  with known have "isTokenExpired tm (getToken b) t2 = (False, tm)" by simp
  with assms valid show "m_username b' = fst (getUsername ssl tm (getToken b) t3)"
    by (auto simp: parseAuthContext_def setUsername_def Let_def split: prod.splits)
qed

section \<open>Properties\<close>



text \<open>Cookies: for a \<open>Cookie\<close> header that lists cookies with \<open>;\<close> between them and any number of
  blanks before a name, \<open>getRequestCookie\<close> gives the value of the first cookie of that name, and the empty
  string when there is none.\<close>

theorem cookie_lookup:
  assumes "\<forall>c \<in> set cs. cookie_ok c"
  shows "getRequestCookie (setHeader b ''Cookie'' (cookie_text cs)) key =
    (case map_of (map snd cs) key of None \<Rightarrow> [] | Some v \<Rightarrow> v)"
  by (rule getRequestCookie_text [OF assms]) simp

theorem cookie_lookup_witness:
  "getRequestCookie (setHeader (http_base_init []) ''Cookie'' ''a=1; session_id=sess_7_42;  b=x=y'') ''session_id''
     = ''sess_7_42''"
  using cookie_lookup [of "[(0, ''a'', ''1''), (1, ''session_id'', ''sess_7_42''), (2, ''b'', ''x=y'')]"
      "http_base_init []" "''session_id''"]
  by (simp add: cookie_ok_def cookie_text_def numeral_2_eq_2)

text \<open>C33. Range headers: every well-formed range of bytes is read as it was written, an absent end being
  \<open>-1\<close>, and is marked valid.\<close>

theorem range_roundtrip:
  assumes "range_number a" "range_number e"
  shows "parseHeaders (http_base_init ip) (''Range: '' @ range_text a e) =
    Inr (True, (setHeader (http_base_init ip) ''Range'' (range_text a e))\<lparr>m_range :=
      \<lparr>range_start = (case a of None \<Rightarrow> -1 | Some i \<Rightarrow> i), range_end = (case e of None \<Rightarrow> -1 | Some i \<Rightarrow> i),
       range_isValid = True\<rparr>\<rparr>)"
proof -
  define b1 where "b1 = setHeader (http_base_init ip) ''Range'' (range_text a e)"
  have pr: "parseRange b1 = b1\<lparr>m_range := m_range (parseRange b1)\<rparr>"
    by (simp add: parseRange_def Let_def split: option.splits)
  have "last (nat_to_string n) \<noteq> CR" for n
  proof
    assume "last (nat_to_string n) = CR"
    then have "is_digit CR"
      using last_in_set [OF nat_to_string_nonempty, of n] nat_to_string_digits [of n] by metis
    then show False by (simp add: CR_def is_digit_def)
  qed
  then have ok: "header_ok (''Range'', range_text a e)"
    using assms by (auto simp: header_ok_def range_text_def CR_def range_number_def to_string_nonneg
        split: option.splits)
  have "parseHeaders (http_base_init ip) (''Range: '' @ range_text a e) = Inr (True, parseRange b1)"
    using parseHeaders_line [OF ok, of "http_base_init ip"]
    by (simp add: header_line_def header_effect_def b1_def Let_def)
  then show ?thesis
    using parseRange_text [OF assms, of "http_base_init ip"] pr
    by (simp add: b1_def http_base_init_def no_range_def cong: option.case_cong)
qed

theorem range_roundtrip_witness:
  "parseHeaders (http_base_init []) ''Range: bytes=100-'' =
    Inr (True, (setHeader (http_base_init []) ''Range'' ''bytes=100-'')\<lparr>m_range :=
      \<lparr>range_start = 100, range_end = -1, range_isValid = True\<rparr>\<rparr>)"
  using range_roundtrip [of "Some 100" None "[]"]
  by (simp add: range_number_def INT_MAX_def range_text_def to_string_def nat_to_string.simps)


definition auth_demo :: http_base where
  "auth_demo = setHeader (http_base_init []) ''Authorization'' (token_text demo_ssl 1 ''7'' ''ann'')"


end
