(* ===== verification/Http_Response.thy ===== *)
theory Http_Response
  imports Http_Base
begin

text \<open>
  The response builder: \<open>src/conn/http/http_response.h\<close> and \<open>http_response.cpp\<close>. The tables of headers and
  cookies are association lists because \<open>buildResponseHeader\<close> walks through them; the order of a list stands
  for the unspecified order of \<open>std::unordered_map\<close>. The only thing read from the shared \<open>HttpBase\<close> is the
  keep-alive flag. \<open>Json::dump\<close> can throw on text that is not UTF-8: the operations that use it have results.
\<close>

section \<open>Model\<close>

record http_response =
  m_status_code :: int
  m_status_text :: string
  m_response_body :: string
  m_response_url :: string
  m_response_headers :: "(string \<times> string) list"
  m_response_cookies :: "(string \<times> string) list"
  m_response_data :: string

definition http_response_new :: http_response where
  "http_response_new = \<lparr>m_status_code = 0, m_status_text = [], m_response_body = [], m_response_url = [],
     m_response_headers = [], m_response_cookies = [], m_response_data = []\<rparr>"

text \<open>\<open>init\<close> leaves \<open>m_response_url\<close> as it was.\<close>

definition http_response_init :: "http_response \<Rightarrow> http_response" where
  "http_response_init r =
     r\<lparr>m_status_code := 200, m_status_text := ''OK'', m_response_body := [], m_response_headers := [],
       m_response_cookies := [], m_response_data := []\<rparr>"

definition isBuilt :: "http_response \<Rightarrow> bool" where
  "isBuilt r \<longleftrightarrow> m_response_data r \<noteq> []"

definition setStatus :: "http_response \<Rightarrow> int \<Rightarrow> string \<Rightarrow> http_response" where
  "setStatus r code status_text = r\<lparr>m_status_code := code, m_status_text := status_text\<rparr>"

definition res_setHeader :: "http_response \<Rightarrow> string \<Rightarrow> string \<Rightarrow> http_response" where
  "res_setHeader r key val = r\<lparr>m_response_headers := AList.update key val (m_response_headers r)\<rparr>"

definition setCookie :: "http_response \<Rightarrow> string \<Rightarrow> string \<Rightarrow> http_response" where
  "setCookie r key val = r\<lparr>m_response_cookies := AList.update key val (m_response_cookies r)\<rparr>"

definition res_setBody :: "http_response \<Rightarrow> string \<Rightarrow> http_response" where
  "res_setBody r body = r\<lparr>m_response_body := body\<rparr>"

definition setContentType :: "http_response \<Rightarrow> string \<Rightarrow> http_response" where
  "setContentType r content_type = res_setHeader r ''Content-Type'' content_type"

definition res_setKeepAlive :: "http_response \<Rightarrow> bool \<Rightarrow> http_response" where
  "res_setKeepAlive r keep_alive =
     (if keep_alive then res_setHeader (res_setHeader r ''Connection'' ''keep-alive'') ''Keep-Alive'' ''timeout=5''
      else res_setHeader r ''Connection'' ''close'')"

definition sendRedirect :: "http_response \<Rightarrow> string \<Rightarrow> http_response" where
  "sendRedirect r new_url = r\<lparr>m_response_url := new_url\<rparr>"

definition setNewUrl :: "http_response \<Rightarrow> string \<Rightarrow> http_response" where
  "setNewUrl r new_url = r\<lparr>m_response_url := new_url\<rparr>"

definition field_line :: "string \<times> string \<Rightarrow> string" where
  "field_line kv = fst kv @ '': '' @ snd kv @ CRLF"

definition cookie_line :: "string \<times> string \<Rightarrow> string" where
  "cookie_line kv = ''Set-Cookie: '' @ fst kv @ ''='' @ snd kv @ ''; Path=/; Max-Age=1800'' @ CRLF"

text \<open>The size of the header is the second component.\<close>

definition buildResponseHeader ::
  "bool \<Rightarrow> http_response \<Rightarrow> int \<Rightarrow> string \<Rightarrow> string \<Rightarrow> int \<Rightarrow> (string \<times> string) list \<Rightarrow> http_response \<times> nat" where
  "buildResponseHeader keep_alive r status_code status_text content_type content_length extra_headers =
     (let d = ''HTTP/1.1 '' @ to_string status_code @ '' '' @ status_text @ CRLF;
          d = d @ ''Content-Type: '' @ content_type @ CRLF;
          d = d @ ''Content-Length: '' @ to_string content_length @ CRLF;
          d = d @ concat (map cookie_line (m_response_cookies r));
          d = (if keep_alive then d @ ''Connection: keep-alive'' @ CRLF @ ''Keep-Alive: timeout=5'' @ CRLF
               else d @ ''Connection: close'' @ CRLF);
          d = d @ concat (map field_line (m_response_headers r));
          d = d @ concat (map field_line extra_headers);
          d = d @ CRLF
      in (r\<lparr>m_response_data := d\<rparr>, length d))"

text \<open>\<open>html.size()\<close> converts to \<open>int\<close>.\<close>

definition to_int32 :: "nat \<Rightarrow> int" where
  "to_int32 n = wrap32 (int n)"

definition sendText :: "bool \<Rightarrow> http_response \<Rightarrow> int \<Rightarrow> string \<Rightarrow> string \<Rightarrow> http_response" where
  "sendText keep_alive r status_code title message =
     (let html = ''<html><head><title>'' @ title @ ''</title></head>'';
          html = html @ ''<body><h1>'' @ to_string status_code @ '' '' @ title @ ''</h1>'';
          html = html @ ''<p>'' @ message @ ''</p></body></html>'';
          (r', header_len) = buildResponseHeader keep_alive r status_code title ''text/html'' (to_int32 (length html)) []
      in r'\<lparr>m_response_data := m_response_data r' @ html\<rparr>)"

definition sendJson_text :: "bool \<Rightarrow> http_response \<Rightarrow> int \<Rightarrow> string \<Rightarrow> http_response" where
  "sendJson_text keep_alive r status_code json_str =
     (let (r', _) = buildResponseHeader keep_alive (r\<lparr>m_response_data := []\<rparr>) status_code ''OK'' ''application/json''
                      (to_int32 (length json_str)) []
      in r'\<lparr>m_response_data := m_response_data r' @ json_str\<rparr>)"

definition sendJson :: "json_lib \<Rightarrow> bool \<Rightarrow> http_response \<Rightarrow> int \<Rightarrow> json \<Rightarrow> http_response result" where
  "sendJson J keep_alive r status_code data =
     rbind (json_dump J data) (\<lambda>json_str. Inr (sendJson_text keep_alive r status_code json_str))"

definition buildRESTfulJson :: "int \<Rightarrow> string \<Rightarrow> string \<Rightarrow> json result" where
  "buildRESTfulJson status_code message data =
     rbind (json_set ''code'' (JInt status_code) JNull) (\<lambda>j.
     rbind (json_set ''message'' (JString message) j) (\<lambda>j.
     json_set ''data'' (if data = [] then JNull else JString data) j))"

definition buildRESTfulJson_json :: "int \<Rightarrow> string \<Rightarrow> json \<Rightarrow> json result" where
  "buildRESTfulJson_json status_code message data =
     rbind (json_set ''code'' (JInt status_code) JNull) (\<lambda>j.
     rbind (json_set ''message'' (JString message) j) (\<lambda>j.
     json_set ''data'' (if json_empty data \<or> data = JNull then JNull else data) j))"

definition sendRESTfulJson ::
  "json_lib \<Rightarrow> bool \<Rightarrow> http_response \<Rightarrow> int \<Rightarrow> string \<Rightarrow> string \<Rightarrow> http_response result" where
  "sendRESTfulJson J keep_alive r status_code message data =
     rbind (buildRESTfulJson status_code message data) (\<lambda>json. sendJson J keep_alive r 200 json)"

definition sendRESTfulJson_json ::
  "json_lib \<Rightarrow> bool \<Rightarrow> http_response \<Rightarrow> int \<Rightarrow> string \<Rightarrow> json \<Rightarrow> http_response result" where
  "sendRESTfulJson_json J keep_alive r status_code message data =
     rbind (buildRESTfulJson_json status_code message data) (\<lambda>json. sendJson J keep_alive r 200 json)"

section \<open>The lines of a response\<close>

definition response_lines ::
  "bool \<Rightarrow> http_response \<Rightarrow> int \<Rightarrow> string \<Rightarrow> string \<Rightarrow> int \<Rightarrow> (string \<times> string) list \<Rightarrow> string list" where
  "response_lines keep_alive r status_code status_text content_type content_length extra_headers =
     [''HTTP/1.1 '' @ to_string status_code @ '' '' @ status_text,
      ''Content-Type: '' @ content_type,
      ''Content-Length: '' @ to_string content_length] @
     map (\<lambda>(k, v). ''Set-Cookie: '' @ k @ ''='' @ v @ ''; Path=/; Max-Age=1800'') (m_response_cookies r) @
     (if keep_alive then [''Connection: keep-alive'', ''Keep-Alive: timeout=5''] else [''Connection: close'']) @
     map (\<lambda>(k, v). k @ '': '' @ v) (m_response_headers r @ extra_headers)"

lemma concat_cookie_lines:
  "concat (map cookie_line kvs) =
     crlf_lines (map (\<lambda>(k, v). ''Set-Cookie: '' @ k @ ''='' @ v @ ''; Path=/; Max-Age=1800'') kvs)"
  by (induction kvs) (auto simp: cookie_line_def)

lemma concat_field_lines: "concat (map field_line kvs) = crlf_lines (map (\<lambda>(k, v). k @ '': '' @ v) kvs)"
  by (induction kvs) (auto simp: field_line_def)

lemma buildResponseHeader_lines:
  "buildResponseHeader ka r code st ct len ex =
     (r\<lparr>m_response_data := crlf_lines (response_lines ka r code st ct len ex) @ CRLF\<rparr>,
      length (crlf_lines (response_lines ka r code st ct len ex) @ CRLF))"
  by (simp add: buildResponseHeader_def response_lines_def concat_cookie_lines concat_field_lines Let_def)

text \<open>Text that cannot break a line.\<close>

definition no_crlf :: "string \<Rightarrow> bool" where
  "no_crlf s \<longleftrightarrow> CR \<notin> set s \<and> LF \<notin> set s"

definition clean_tables :: "http_response \<Rightarrow> bool" where
  "clean_tables r \<longleftrightarrow> (\<forall>kv \<in> set (m_response_headers r @ m_response_cookies r). no_crlf (fst kv) \<and> no_crlf (snd kv))"

lemma no_crlf_to_string: "no_crlf (to_string i)"
proof -
  have "no_crlf (nat_to_string n)" for n
    using nat_to_string_digits [of n] by (auto simp: no_crlf_def CR_def LF_def is_digit_def)
  then show ?thesis by (simp add: to_string_def no_crlf_def CR_def LF_def)
qed

lemma plain_response_lines:
  assumes "clean_tables r" "no_crlf st" "no_crlf ct"
  shows "\<forall>l \<in> set (response_lines ka r code st ct len []). plain_line l"
proof -
  have tables: "no_crlf k \<and> no_crlf v" if "(k, v) \<in> set (m_response_headers r @ m_response_cookies r)" for k v
    using bspec [OF assms(1) [unfolded clean_tables_def] that] by simp
  have lines: "plain_line (k @ '': '' @ v)"
    "plain_line (''Set-Cookie: '' @ k @ ''='' @ v @ ''; Path=/; Max-Age=1800'')"
    if "no_crlf k" "no_crlf v" for k v
    using that by (auto simp: plain_line_def no_crlf_def CR_def LF_def)
  have fixed: "\<forall>l \<in> set [''HTTP/1.1 '' @ to_string code @ '' '' @ st, ''Content-Type: '' @ ct,
      ''Content-Length: '' @ to_string len]. plain_line l"
    "\<forall>l \<in> set (if ka then [''Connection: keep-alive'', ''Keep-Alive: timeout=5''] else [''Connection: close'']).
      plain_line l"
    using assms(2,3) no_crlf_to_string [of code] no_crlf_to_string [of len]
    by (simp_all add: plain_line_def no_crlf_def CR_def LF_def)
  have "\<forall>l \<in> set (map (\<lambda>(k, v). ''Set-Cookie: '' @ k @ ''='' @ v @ ''; Path=/; Max-Age=1800'')
      (m_response_cookies r)). plain_line l"
    "\<forall>l \<in> set (map (\<lambda>(k, v). k @ '': '' @ v) (m_response_headers r @ [])). plain_line l"
    using tables lines by fastforce+
  with fixed show ?thesis unfolding response_lines_def set_append by blast
qed

lemma response_framing:
  assumes "clean_tables r" "no_crlf st" "no_crlf ct"
    and "data = crlf_lines (response_lines ka r code st ct len []) @ CRLF @ body"
  shows "\<exists>i. find_sub (CRLF @ CRLF) data = Some i \<and>
    take (i + 2) data = crlf_lines (response_lines ka r code st ct len []) \<and> drop (i + 4) data = body"
proof -
  define ls where "ls = response_lines ka r code st ct len []"
  have "ls \<noteq> []" by (simp add: ls_def response_lines_def)
  then obtain l ls' where "ls = l # ls'" by (cases ls) auto
  then have two: "2 \<le> length (crlf_lines ls)" by (simp add: CRLF_def)
  have "find_sub (CRLF @ CRLF) data = Some (length (crlf_lines ls) - 2)"
    using find_blank_line [OF plain_response_lines [OF assms(1-3), of ka code len]] \<open>ls \<noteq> []\<close> assms(4)
    by (simp add: ls_def)
  then show ?thesis
    by (intro exI [of _ "length (crlf_lines ls) - 2"]) (use two assms(4) in \<open>simp add: ls_def CRLF_def\<close>)
qed

lemma to_int32_small: "int n \<le> INT_MAX \<Longrightarrow> to_int32 n = int n"
  by (simp add: to_int32_def wrap32_id INT_MIN_def)

section \<open>Properties\<close>

text \<open>C34. Framing of responses: as long as no header or cookie value contains a line break, the first
  empty line of a JSON response ends its head, the head consists of the status line, the fields and the
  cookies in that order, its \<open>Content-Length\<close> is the length of the body, and what follows the empty line is
  exactly the body. No cookie or header can smuggle in a body of its own.\<close>

theorem json_response_framed:
  assumes "clean_tables r" "int (length body) \<le> INT_MAX"
  shows "\<exists>i. find_sub (CRLF @ CRLF) (m_response_data (sendJson_text ka r code body)) = Some i \<and>
    take (i + 2) (m_response_data (sendJson_text ka r code body)) =
      crlf_lines (response_lines ka r code ''OK'' ''application/json'' (int (length body)) []) \<and>
    drop (i + 4) (m_response_data (sendJson_text ka r code body)) = body"
proof (rule response_framing [OF assms(1)])
  show "m_response_data (sendJson_text ka r code body) =
    crlf_lines (response_lines ka r code ''OK'' ''application/json'' (int (length body)) []) @ CRLF @ body"
    using assms(2)
    by (simp add: sendJson_text_def buildResponseHeader_lines to_int32_small response_lines_def Let_def)
qed (simp_all add: no_crlf_def CR_def LF_def)

theorem json_response_framed_witness:
  "\<exists>i. drop (i + 4) (m_response_data (sendJson_text True (setCookie http_response_new ''session_id'' ''s1'') 200 ''[1]''))
     = ''[1]''"
proof -
  have "clean_tables (setCookie http_response_new ''session_id'' ''s1'')"
    by (simp add: clean_tables_def setCookie_def http_response_new_def no_crlf_def CR_def LF_def)
  from json_response_framed [OF this, of "''[1]''" True 200] show ?thesis by (auto simp: INT_MAX_def)
qed

text \<open>The REST envelope: the JSON value of \<open>sendRESTfulJson\<close> is an object with exactly the three
  members \<open>code\<close>, \<open>data\<close> and \<open>message\<close>, whatever the code; an empty text becomes null; and the status line
  says 200 in every case.\<close>

theorem restful_envelope:
  "sendRESTfulJson J ka r code message data =
     rbind (json_dump J (JObject [(''code'', JInt code), (''data'', if data = [] then JNull else JString data),
       (''message'', JString message)])) (\<lambda>s. Inr (sendJson_text ka r 200 s))"
  by (simp add: sendRESTfulJson_def buildRESTfulJson_def sendJson_def less_char_def)

end
