(* ===== verification/Router.thy ===== *)
theory Router
  imports Http_Response
begin

text \<open>
  The router: \<open>src/router/router.h\<close>, \<open>router.cpp\<close> and \<open>global_router.h\<close>. A handler is a value of type
  \<open>'h\<close> (HTTP) or \<open>'wh\<close> (WebSocket); what calling it does is the parameter \<open>run\<close> of \<open>dispatch\<close>, on the
  request, the response and the rest of the server's state.
\<close>

section \<open>Model\<close>

record ('h, 'wh) router =
  m_get_routes :: "string \<rightharpoonup> 'h"
  m_post_routes :: "string \<rightharpoonup> 'h"
  m_ws_routes :: "string \<rightharpoonup> 'wh"

definition router_new :: "('h, 'wh) router" where
  "router_new = \<lparr>m_get_routes = Map.empty, m_post_routes = Map.empty, m_ws_routes = Map.empty\<rparr>"

definition registerGet :: "('h, 'wh) router \<Rightarrow> string \<Rightarrow> 'h \<Rightarrow> ('h, 'wh) router" where
  "registerGet rt path handler = rt\<lparr>m_get_routes := (m_get_routes rt)(path \<mapsto> handler)\<rparr>"

definition registerPost :: "('h, 'wh) router \<Rightarrow> string \<Rightarrow> 'h \<Rightarrow> ('h, 'wh) router" where
  "registerPost rt path handler = rt\<lparr>m_post_routes := (m_post_routes rt)(path \<mapsto> handler)\<rparr>"

definition registerWebSocket :: "('h, 'wh) router \<Rightarrow> string \<Rightarrow> 'wh \<Rightarrow> ('h, 'wh) router" where
  "registerWebSocket rt path handler = rt\<lparr>m_ws_routes := (m_ws_routes rt)(path \<mapsto> handler)\<rparr>"

text \<open>The handler the first half of \<open>dispatch\<close> finds.\<close>

definition find_route :: "('h, 'wh) router \<Rightarrow> string \<Rightarrow> string \<Rightarrow> 'h option" where
  "find_route rt method path =
     (if method = ''GET'' then m_get_routes rt path
      else if method = ''POST'' then m_post_routes rt path
      else None)"

definition dispatch ::
  "('h \<Rightarrow> http_base \<Rightarrow> http_response \<Rightarrow> 's \<Rightarrow> (http_response \<times> 's) result) \<Rightarrow> ('h, 'wh) router \<Rightarrow>
   string \<Rightarrow> string \<Rightarrow> http_base \<Rightarrow> http_response \<Rightarrow> 's \<Rightarrow> (http_response \<times> 's) result" where
  "dispatch run rt method path req res s =
     (case find_route rt method path of
        Some handler \<Rightarrow> run handler req res s
      | None \<Rightarrow>
          if method = ''GET'' then Inr (setNewUrl res (m_url req), s)
          else Inr (sendText (m_keep_alive req) res 404 ''Not Found''
                      ''The requested URL was not found on this server.'', s))"

definition ws_dispatch ::
  "('wh \<Rightarrow> 'c \<Rightarrow> string \<Rightarrow> string \<Rightarrow> 's \<Rightarrow> 's result) \<Rightarrow> ('h, 'wh) router \<Rightarrow> string \<Rightarrow> 'c \<Rightarrow> string \<Rightarrow> string \<Rightarrow> 's \<Rightarrow> 's result" where
  "ws_dispatch run rt path conn sessionId msg s =
     (case m_ws_routes rt path of None \<Rightarrow> Inr s | Some handler \<Rightarrow> run handler conn sessionId msg s)"

section \<open>Lemmas\<close>

lemma find_route_register [map_simps]:
  "find_route (registerGet rt p h) method path =
     (if method = ''GET'' \<and> path = p then Some h else find_route rt method path)"
  "find_route (registerPost rt p h) method path =
     (if method = ''POST'' \<and> path = p then Some h else find_route rt method path)"
  "find_route (registerWebSocket rt p wh) method path = find_route rt method path"
  "find_route router_new method path = None"
  by (simp_all add: find_route_def registerGet_def registerPost_def registerWebSocket_def router_new_def)

end
