(* ===== verification/Http_Conn.thy ===== *)
theory Http_Conn
  imports Base_Conn Http_Request Router Rate_Limiter Interceptor Server_Config
begin

text \<open>
  One HTTP connection: \<open>src/conn/http/http_conn.h\<close> and \<open>http_conn.cpp\<close>.

  The two buffers are the 4096-byte arrays of the class with their indices; \<open>strstr\<close> works on the C string
  in the array, so bytes behind \<open>m_read_idx\<close> count, and an array without a NUL is read past its end
  (\<open>Buffer_overread\<close>). The shared \<open>HttpBase\<close> is a field of the connection. The singletons a request touches are
  the record \<open>server\<close>; the handlers of the router are run by a parameter. The file system, the kernel's
  answers and the clock are arguments.
\<close>

section \<open>Paths and MIME types\<close>

definition endsWith :: "string \<Rightarrow> string \<Rightarrow> bool" where
  "endsWith str suff =
     (if length str < length suff then False else drop (length str - length suff) str = suff)"

definition getMimeType :: "string \<Rightarrow> string" where
  "getMimeType path =
     (if endsWith path ''.html'' then ''text/html; charset=utf-8''
      else if endsWith path ''.css'' then ''text/css''
      else if endsWith path ''.js'' then ''application/javascript''
      else if endsWith path ''.jpg'' \<or> endsWith path ''.jpeg'' then ''image/jpeg''
      else if endsWith path ''.png'' then ''image/png''
      else if endsWith path ''.gif'' then ''image/gif''
      else if endsWith path ''.mp4'' then ''video/mp4''
      else ''application/octet-stream'')"

section \<open>The connection\<close>

datatype parse_state = PARSE_REQUEST_LINE | PARSE_HEADERS | PARSE_BODY | PARSE_DONE

definition READ_BUFFER_SIZE :: nat where "READ_BUFFER_SIZE = 4096"
definition WRITE_BUFFER_SIZE :: nat where "WRITE_BUFFER_SIZE = 4096"

record http_conn =
  m_sockfd :: int
  m_address :: string
  m_is_closed :: bool
  m_read_buf :: string
  m_read_idx :: nat
  m_write_buf :: string
  m_write_idx :: nat
  m_parse_state :: parse_state
  m_http_base :: http_base
  m_http_response :: http_response
  m_file_path :: string
  m_file_fd :: int
  m_file_response_size :: int
  m_file_total_size :: int
  m_file_bytes_sent :: int
  m_file_offset :: int
  m_header_sent :: bool
  m_response_built :: bool

definition CloseFile :: "http_conn \<Rightarrow> http_conn" where
  "CloseFile c = (if m_file_fd c \<noteq> -1 then c\<lparr>m_file_fd := -1\<rparr> else c)"

definition http_init :: "http_conn \<Rightarrow> int \<Rightarrow> string \<Rightarrow> http_conn" where
  "http_init c sockfd addr =
     (let c = (if sockfd \<noteq> -1 then c\<lparr>m_sockfd := sockfd, m_address := addr\<rparr> else c);
          c = c\<lparr>m_http_base := http_base_init (m_address c),
                m_http_response := http_response_init (m_http_response c),
                m_read_buf := replicate READ_BUFFER_SIZE NUL, m_read_idx := 0,
                m_write_buf := replicate WRITE_BUFFER_SIZE NUL, m_write_idx := 0,
                m_parse_state := PARSE_REQUEST_LINE,
                m_header_sent := False, m_file_response_size := 0, m_file_total_size := 0,
                m_file_bytes_sent := 0, m_file_offset := 0, m_response_built := False\<rparr>;
          c = CloseFile c
      in c\<lparr>m_is_closed := False\<rparr>)"

definition http_closeConn :: "http_conn \<Rightarrow> http_conn" where
  "http_closeConn c =
     (if m_is_closed c then c
      else (let c = c\<lparr>m_is_closed := True\<rparr>
            in if m_sockfd c \<noteq> -1 then c\<lparr>m_sockfd := -1\<rparr> else c))"

section \<open>Reading\<close>

definition buf_write :: "string \<Rightarrow> nat \<Rightarrow> string \<Rightarrow> string" where
  "buf_write buf i s = take i buf @ s @ drop (i + length s) buf"

text \<open>\<open>recv\<close> into the free part of the buffer.\<close>

definition recv_into :: "http_conn \<Rightarrow> string \<Rightarrow> http_conn" where
  "recv_into c s =
     (let s' = take (READ_BUFFER_SIZE - m_read_idx c) s
      in c\<lparr>m_read_buf := buf_write (m_read_buf c) (m_read_idx c) s', m_read_idx := m_read_idx c + length s'\<rparr>)"

fun read_et :: "http_conn \<Rightarrow> recv_outcome list \<Rightarrow> bool \<times> http_conn" where
  "read_et c [] = (True, c)"
| "read_et c (Recv_would_block # _) = (True, c)"
| "read_et c (Recv_error # _) = (False, c)"
| "read_et c (Peer_closed # _) = (False, c)"
| "read_et c (Received s # outs) =
     (if s = [] then (False, c)
      else (let c' = recv_into c s
            in if READ_BUFFER_SIZE \<le> m_read_idx c' then (True, c') else read_et c' outs))"

definition read_lt :: "http_conn \<Rightarrow> recv_outcome list \<Rightarrow> bool \<times> http_conn" where
  "read_lt c outs =
     (case outs of
        Received s # _ \<Rightarrow> if s = [] then (False, c) else (True, recv_into c s)
      | _ \<Rightarrow> (False, c))"

definition http_read :: "int \<Rightarrow> http_conn \<Rightarrow> recv_outcome list \<Rightarrow> bool \<times> http_conn" where
  "http_read mode c outs =
     (if m_sockfd c = -1 then (False, c)
      else if READ_BUFFER_SIZE \<le> m_read_idx c then (False, c)
      else if mode = LT then read_lt c outs
      else if mode = ET then read_et c outs
      else (False, c))"

section \<open>Writing\<close>

text \<open>\<open>file\<close> is the content behind \<open>m_file_fd\<close>. The result has the bytes that went out.\<close>

definition write_file :: "http_conn \<Rightarrow> string \<Rightarrow> send_outcome list \<Rightarrow> write_status \<times> string \<times> http_conn" where
  "write_file c file outs =
     (if m_file_bytes_sent c < m_file_response_size c
      then (let count = nat (m_file_response_size c - m_file_bytes_sent c);
                offset = nat (m_file_offset c + m_file_bytes_sent c);
                avail = take count (drop offset file)
            in case outs of
                 Sent n # _ \<Rightarrow>
                   (let wire = take n avail
                    in if wire = [] then (ERROR, [], c)
                       else (OK, wire, CloseFile (c\<lparr>m_file_bytes_sent := m_file_bytes_sent c + int (length wire)\<rparr>)))
               | Send_error # _ \<Rightarrow> (ERROR, [], c)
               | _ \<Rightarrow> (AGAIN, [], c))
      else (OK, [], CloseFile c))"

definition http_write :: "http_conn \<Rightarrow> string \<Rightarrow> send_outcome list \<Rightarrow> write_status \<times> string \<times> http_conn" where
  "http_write c file outs =
     (case (if \<not> m_header_sent c then send_all (take (m_write_idx c) (m_write_buf c)) outs else (OK, [], outs)) of
        (st, wire, outs') \<Rightarrow>
          if st \<noteq> OK then (st, wire, c)
          else (let c = (if \<not> m_header_sent c then c\<lparr>m_header_sent := True\<rparr> else c)
                in if m_file_fd c = -1 then (OK, wire, c)
                   else (case write_file c file outs' of (st', wire', c') \<Rightarrow> (st', wire @ wire', c'))))"

section \<open>The parser\<close>

text \<open>\<open>strstr(buf, pat)\<close> on the C string in \<open>buf\<close>.\<close>

definition strstr :: "string \<Rightarrow> string \<Rightarrow> nat option result" where
  "strstr buf pat =
     (case find_sub pat (c_str buf) of
        Some i \<Rightarrow> Inr (Some i)
      | None \<Rightarrow> if NUL \<in> set buf then Inr None else Inl Buffer_overread)"

definition removeLine :: "string \<Rightarrow> nat \<Rightarrow> nat \<Rightarrow> string \<times> nat" where
  "removeLine buf idx len =
     (if idx \<le> len then (buf[0 := NUL], 0)
      else (let buf' = take (idx - len) (drop len buf) @ drop (idx - len) buf
            in (buf'[idx - len := NUL], idx - len)))"

lemma strstr_Some_hd:
  assumes "strstr buf CRLF = Inr (Some i)"
  shows "buf \<noteq> [] \<and> hd buf \<noteq> NUL"
proof -
  have "find_sub CRLF (c_str buf) = Some i"
    using assms by (auto simp: strstr_def split: option.splits if_splits)
  from find_sub_SomeD [OF this] have "c_str buf \<noteq> []" by (auto simp: CRLF_def)
  then show ?thesis by (cases buf) (auto simp: c_str_def split: if_splits)
qed

text \<open>The loop over the header lines; the flag says that the empty line was reached.\<close>

function header_loop :: "string \<Rightarrow> nat \<Rightarrow> http_base \<Rightarrow> (bool \<times> string \<times> nat \<times> http_base) result" where
  "header_loop buf idx b =
     (case strstr buf CRLF of
        Inl e \<Rightarrow> Inl e
      | Inr None \<Rightarrow> Inr (False, buf, idx, b)
      | Inr (Some line_end) \<Rightarrow>
          (let header_line = take line_end buf;
               (buf', idx') = removeLine buf idx (line_end + 2)
           in case parseHeaders b header_line of
                Inl e \<Rightarrow> Inl e
              | Inr (go_on, b') \<Rightarrow> if go_on then header_loop buf' idx' b' else Inr (True, buf', idx', b')))"
  by pat_completeness auto
termination
proof (relation "measure (\<lambda>(buf, idx, b). if buf = [] \<or> hd buf = NUL then 0 else Suc idx)")
  fix buf :: string and idx :: nat and b b' :: http_base and r buf' idx' and i :: nat
    and p
  assume s: "strstr buf CRLF = Inr r" "r = Some i" and rm: "p = removeLine buf idx (i + 2)" "(buf', idx') = p"
  have hd: "buf \<noteq> []" "hd buf \<noteq> NUL" using strstr_Some_hd s by auto
  show "((buf', idx', b'), buf, idx, b) \<in> measure (\<lambda>(buf, idx, b). if buf = [] \<or> hd buf = NUL then 0 else Suc idx)"
  proof (cases "idx \<le> i + 2")
    case True
    with rm hd have "buf' \<noteq> []" "hd buf' = NUL" by (cases buf; simp add: removeLine_def)+
    with hd show ?thesis by simp
  next
    case False
    with rm have "idx' < idx" by (simp add: removeLine_def Let_def)
    with hd show ?thesis by simp
  qed
qed simp

declare header_loop.simps [simp del]

definition parse_body_state :: "json_lib \<Rightarrow> http_conn \<Rightarrow> (bool \<times> http_conn) result" where
  "parse_body_state J c =
     (let content_length = m_content_length (m_http_base c)
      in if int (m_read_idx c) < content_length then Inr (False, c)
         else rbind (parseBody J (m_http_base c) (m_read_buf c) content_length) (\<lambda>b.
              let (buf, idx) = removeLine (m_read_buf c) (m_read_idx c) (nat content_length)
              in Inr (True, c\<lparr>m_http_base := b, m_read_buf := buf, m_read_idx := idx, m_parse_state := PARSE_DONE\<rparr>)))"

definition parse_headers_state :: "json_lib \<Rightarrow> http_conn \<Rightarrow> (bool \<times> http_conn) result" where
  "parse_headers_state J c =
     rbind (header_loop (m_read_buf c) (m_read_idx c) (m_http_base c)) (\<lambda>(finished, buf, idx, b).
       let c = c\<lparr>m_read_buf := buf, m_read_idx := idx, m_http_base := b\<rparr>
       in if \<not> finished then Inr (False, c)
          else parse_body_state J (c\<lparr>m_parse_state := PARSE_BODY\<rparr>))"

definition parse_line_state :: "json_lib \<Rightarrow> http_conn \<Rightarrow> (bool \<times> http_conn) result" where
  "parse_line_state J c =
     rbind (strstr (m_read_buf c) CRLF) (\<lambda>crlf.
       case crlf of
         None \<Rightarrow> Inr (False, c)
       | Some i \<Rightarrow>
           (let (parsed, b) = parseRequestLine (m_http_base c) (take i (m_read_buf c))
            in if \<not> parsed then Inr (False, c)
               else (let (buf, idx) = removeLine (m_read_buf c) (m_read_idx c) (i + 2)
                     in parse_headers_state J
                          (c\<lparr>m_http_base := b, m_read_buf := buf, m_read_idx := idx, m_parse_state := PARSE_HEADERS\<rparr>))))"

definition parseHttpRequest :: "json_lib \<Rightarrow> http_conn \<Rightarrow> (bool \<times> http_conn) result" where
  "parseHttpRequest J c =
     (case m_parse_state c of
        PARSE_REQUEST_LINE \<Rightarrow> parse_line_state J c
      | PARSE_HEADERS \<Rightarrow> parse_headers_state J c
      | PARSE_BODY \<Rightarrow> parse_body_state J c
      | PARSE_DONE \<Rightarrow> Inr (True, c))"

section \<open>Responses\<close>

text \<open>The file system: \<open>stat\<close> gives the size of a file, \<open>open\<close> its descriptor or -1; \<open>fs_stack\<close> is what the
  uninitialised \<open>struct stat\<close> happens to hold.\<close>

record filesystem =
  fs_stat :: "string \<Rightarrow> int option"
  fs_open :: "string \<Rightarrow> int"
  fs_stack :: int

definition copyResponseData :: "http_conn \<Rightarrow> bool \<times> http_conn" where
  "copyResponseData c =
     (let data = m_response_data (m_http_response c)
      in if WRITE_BUFFER_SIZE \<le> length data then (False, c)
         else (True, c\<lparr>m_write_buf := buf_write (m_write_buf c) 0 data, m_write_idx := length data\<rparr>))"

text \<open>The part of a file that a range selects: status, text, offset, size of the part, content length.\<close>

definition select_range :: "byte_range \<Rightarrow> int \<Rightarrow> int \<Rightarrow> int \<times> string \<times> int \<times> int \<times> int" where
  "select_range rg file_size offset =
     (if range_isValid rg then
        if 0 \<le> range_start rg \<and> range_start rg < file_size then
          (let sz = (if range_end rg \<noteq> -1 \<and> range_start rg \<le> range_end rg
                       then wrap32 (range_end rg - range_start rg + 1) else file_size - range_start rg)
           in (206, ''Partial Content'', range_start rg, sz, sz))
        else if range_start rg = -1 \<and> 0 < range_end rg \<and> range_end rg \<le> file_size then
          (206, ''Partial Content'', file_size - range_end rg, range_end rg, range_end rg)
        else (416, ''Range Not Satisfiable'', 0, 0, 0)
      else (200, ''OK'', offset, file_size, file_size))"

definition generateResponse :: "filesystem \<Rightarrow> string \<Rightarrow> http_conn \<Rightarrow> bool \<times> http_conn" where
  "generateResponse fs kWebRoot c =
     (let c = c\<lparr>m_write_idx := 0\<rparr>;
          c = (if m_url (m_http_base c) = ''/''
               then c\<lparr>m_http_response := sendRedirect (m_http_response c) ''/index.html''\<rparr> else c);
          real_url = m_response_url (m_http_response c);
          c = c\<lparr>m_file_path := kWebRoot @ real_url\<rparr>;
          (c, real_url, st_size) =
            (case fs_stat fs (c_str (m_file_path c)) of
               Some sz \<Rightarrow> (c, real_url, sz)
             | None \<Rightarrow>
                 (let c = c\<lparr>m_http_response := sendRedirect (m_http_response c) ''/404.html''\<rparr>;
                      url = m_response_url (m_http_response c);
                      c = c\<lparr>m_file_path := kWebRoot @ url\<rparr>
                  in (c, url, case fs_stat fs (c_str (m_file_path c)) of Some sz \<Rightarrow> sz | None \<Rightarrow> fs_stack fs)));
          file_size = wrap32 st_size;
          c = c\<lparr>m_file_total_size := file_size, m_file_fd := fs_open fs (c_str (m_file_path c))\<rparr>
      in if m_file_fd c = -1 then (False, c)
         else (let (status_code, status_text, offset, sz, content_length) =
                     select_range (m_range (m_http_base c)) file_size (m_file_offset c);
                   c = c\<lparr>m_file_offset := offset, m_file_response_size := sz\<rparr>;
                   res = m_http_response c;
                   res = (if status_code = 416 then res else res_setHeader res ''Accept-Ranges'' ''bytes'');
                   res = (if status_code = 206
                          then res_setHeader res ''Content-Range''
                                 (''bytes '' @ to_string offset @ ''-'' @ to_string (offset + sz - 1) @ ''/'' @
                                  to_string (m_file_total_size c))
                          else res);
                   (res, _) = buildResponseHeader (m_keep_alive (m_http_base c)) res status_code status_text
                                (getMimeType real_url) content_length []
               in copyResponseData (c\<lparr>m_http_response := res\<rparr>)))"

section \<open>Requests\<close>

record ('h, 'wh, 'x) server =
  sv_sessions :: session_manager
  sv_tokens :: token_manager
  sv_limiter :: rate_limiter
  sv_interceptor :: interceptor
  sv_router :: "('h, 'wh) router"
  sv_ext :: 'x

type_synonym ('h, 'wh, 'x) handler_sem =
  "'h \<Rightarrow> http_base \<Rightarrow> http_response \<Rightarrow> ('h, 'wh, 'x) server \<Rightarrow> (http_response \<times> ('h, 'wh, 'x) server) result"

definition forbidden_message :: string where
  "forbidden_message = bytes [231, 166, 129, 230, 173, 162, 232, 174, 191, 233, 151, 174, 232, 175, 165, 232, 181, 132, 230, 186, 144, 239, 188, 129]"

definition unauthenticated_message :: string where
  "unauthenticated_message = bytes [230, 156, 170, 232, 174, 164, 232, 175, 129, 239, 188, 140, 232, 175, 183, 231, 153, 187, 229, 189, 149, 239, 188, 129]"

text \<open>The response part of \<open>handleRequest\<close>: refused, unauthenticated, or dispatched.\<close>

definition answerRequest ::
  "openssl \<Rightarrow> json_lib \<Rightarrow> ('h, 'wh, 'x) handler_sem \<Rightarrow> http_conn \<Rightarrow> ('h, 'wh, 'x) server \<Rightarrow> time \<Rightarrow> time \<Rightarrow> time \<Rightarrow>
   (http_conn \<times> ('h, 'wh, 'x) server) result" where
  "answerRequest ssl J run c sv t1 t2 t3 =
     (let url = m_url (m_http_base c); ka = m_keep_alive (m_http_base c)
      in if shouldIntercept (sv_interceptor sv) ''uri_blacklist'' url
         then rbind (sendRESTfulJson J ka (m_http_response c) 403 forbidden_message []) (\<lambda>res.
              Inr (c\<lparr>m_http_response := res\<rparr>, sv))
         else (let (b, sm, tm) = parseAuthContext ssl (m_http_base c) (sv_sessions sv) (sv_tokens sv) t1 t2 t3;
                   c = c\<lparr>m_http_base := b\<rparr>;
                   sv = sv\<lparr>sv_sessions := sm, sv_tokens := tm\<rparr>
               in if \<not> m_authenticated b \<and> shouldIntercept (sv_interceptor sv) ''login_unrequired'' url
                  then rbind (sendRESTfulJson J ka (m_http_response c) 401 unauthenticated_message []) (\<lambda>res.
                       Inr (c\<lparr>m_http_response := res\<rparr>, sv))
                  else rbind (dispatch run (sv_router sv) (m_method b) url b (m_http_response c) sv) (\<lambda>(res, sv).
                       Inr (c\<lparr>m_http_response := res\<rparr>, sv))))"

definition handleRequest ::
  "openssl \<Rightarrow> json_lib \<Rightarrow> filesystem \<Rightarrow> string \<Rightarrow> ('h, 'wh, 'x) handler_sem \<Rightarrow> http_conn \<Rightarrow> ('h, 'wh, 'x) server \<Rightarrow>
   time \<Rightarrow> time \<Rightarrow> time \<Rightarrow> (bool \<times> http_conn \<times> ('h, 'wh, 'x) server) result" where
  "handleRequest ssl J fs kWebRoot run c sv t1 t2 t3 =
     rbind (answerRequest ssl J run c sv t1 t2 t3) (\<lambda>(c, sv).
       if isBuilt (m_http_response c) then (let (ok, c) = copyResponseData c in Inr (ok, c, sv))
       else (let (ok, c) = generateResponse fs kWebRoot c
             in if ok then Inr (True, c, sv) else Inr (False, http_closeConn c, sv)))"

text \<open>The two readings are those of \<open>SessionManager::refresh\<close>.\<close>

definition refreshSession :: "http_base \<Rightarrow> session_manager \<Rightarrow> time \<Rightarrow> time \<Rightarrow> session_manager" where
  "refreshSession b sm t1 t2 =
     (let session_id = getRequestCookie b ''session_id''
      in if session_id = [] then sm
         else if session_exists sm session_id then session_refresh sm session_id 1800000 t1 t2
         else sm)"

text \<open>\<open>process\<close>: the result says whether the write event was registered, which is the last thing it does.\<close>

definition http_process ::
  "openssl \<Rightarrow> json_lib \<Rightarrow> filesystem \<Rightarrow> string \<Rightarrow> ('h, 'wh, 'x) handler_sem \<Rightarrow> http_conn \<Rightarrow> ('h, 'wh, 'x) server \<Rightarrow>
   (nat \<Rightarrow> time) \<Rightarrow> (bool \<times> http_conn \<times> ('h, 'wh, 'x) server) result" where
  "http_process ssl J fs kWebRoot run c sv clk =
     (let (limited, rl) = isLimit (sv_limiter sv) ''access_ip'' (m_address c) (clk 0);
          sv = sv\<lparr>sv_limiter := rl\<rparr>
      in if \<not> limited then
           rbind (parseHttpRequest J c) (\<lambda>(parsed, c).
           if \<not> parsed then Inr (False, c, sv)
           else rbind (handleRequest ssl J fs kWebRoot run c sv (clk 1) (clk 2) (clk 3)) (\<lambda>(handled, c, sv).
           if \<not> handled then Inr (False, c, sv)
           else Inr (True, c, sv\<lparr>sv_sessions := refreshSession (m_http_base c) (sv_sessions sv) (clk 4) (clk 5)\<rparr>)))
         else
           rbind (sendRESTfulJson J (m_keep_alive (m_http_base c)) (m_http_response c) 429 ''Too Many Requests'' []) (\<lambda>res.
           let (_, c) = copyResponseData (c\<lparr>m_http_response := res\<rparr>) in Inr (True, c, sv)))"

end
