(* ===== verification/Http_Serving.thy ===== *)
theory Http_Serving
  imports Http_Conn
begin

text \<open>
  What \<open>Http_Conn\<close> does with complete requests and with the answers: the parser accepts every well-formed
  request, protected pages need a token, ranges select parts of files, and what goes out on the wire.
\<close>

section \<open>The read buffer\<close>

text \<open>The first \<open>idx\<close> bytes of the buffer are \<open>s\<close>.\<close>

definition holds :: "string \<Rightarrow> nat \<Rightarrow> string \<Rightarrow> bool" where
  "holds buf idx s \<longleftrightarrow> idx = length s \<and> length s \<le> length buf \<and> take (length s) buf = s"

lemma holdsE:
  assumes "holds buf idx s"
  obtains rest where "buf = s @ rest" "idx = length s"
  using assms unfolding holds_def by (metis append_take_drop_id)

lemma holdsI: "idx = length s \<Longrightarrow> holds (s @ rest) idx s"
  by (simp add: holds_def)

lemma c_str_append: "NUL \<notin> set a \<Longrightarrow> c_str (a @ b) = a @ c_str b"
  by (induction a) (auto simp: c_str_def)

lemma strstr_line:
  assumes "holds buf idx (l @ CRLF @ t)" "CR \<notin> set l" "NUL \<notin> set l"
  shows "strstr buf CRLF = Inr (Some (length l))" "take (length l) buf = l"
proof -
  from assms(1) obtain rest where buf: "buf = (l @ CRLF @ t) @ rest" by (rule holdsE)
  have "NUL \<notin> set (l @ CRLF)" using assms(3) by (simp add: CRLF_def CR_def LF_def NUL_def)
  from c_str_append [OF this, of "t @ rest"] have "c_str buf = l @ CRLF @ c_str (t @ rest)" by (simp add: buf)
  with find_sub_first [OF assms(2), of "[LF]" "c_str (t @ rest)"]
  show "strstr buf CRLF = Inr (Some (length l))" by (simp add: strstr_def CRLF_def)
  show "take (length l) buf = l" by (simp add: buf)
qed

lemma removeLine_holds:
  assumes "holds buf idx (l @ t)" "buf \<noteq> []"
  shows "\<exists>buf'. removeLine buf idx (length l) = (buf', length t) \<and> holds buf' (length t) t \<and> buf' \<noteq> []"
proof -
  from assms(1) obtain rest where buf: "buf = (l @ t) @ rest" and idx: "idx = length (l @ t)" by (rule holdsE)
  show ?thesis
  proof (cases "t = []")
    case True
    with idx assms(2) show ?thesis by (simp add: removeLine_def holds_def)
  next
    case False
    have "take (length t) (drop (length l) buf) = t" by (simp add: buf)
    then have r: "removeLine buf idx (length l) = ((t @ drop (length t) buf)[length t := NUL], length t)"
      using False idx by (simp add: removeLine_def Let_def)
    have "holds ((t @ drop (length t) buf)[length t := NUL]) (length t) t"
      using list_update_append1 by (simp add: holds_def take_update_cancel buf)
    with r False show ?thesis by auto
  qed
qed

section \<open>Complete requests\<close>

definition header_plain :: "string \<times> string \<Rightarrow> bool" where
  "header_plain h \<longleftrightarrow> header_ok h \<and> CR \<notin> set (header_line h) \<and> NUL \<notin> set (header_line h)"

fun headers_effect :: "http_base \<Rightarrow> (string \<times> string) list \<Rightarrow> http_base result" where
  "headers_effect b [] = Inr b"
| "headers_effect b (h # hs) = rbind (header_effect b h) (\<lambda>b'. headers_effect b' hs)"

lemma header_loop_complete:
  assumes "\<forall>h \<in> set hs. header_plain h" "headers_effect b hs = Inr b'"
    and "holds buf idx (crlf_lines (map header_line hs) @ CRLF @ t)" "buf \<noteq> []"
  shows "\<exists>buf'. header_loop buf idx b = Inr (True, buf', length t, b') \<and> holds buf' (length t) t \<and> buf' \<noteq> []"
  using assms
proof (induction hs arbitrary: b buf idx)
  case Nil
  have h: "holds buf idx ([] @ CRLF @ t)" using Nil by simp
  have s: "strstr buf CRLF = Inr (Some 0)" using strstr_line(1) [OF h] by simp
  obtain buf' where "removeLine buf idx (length CRLF) = (buf', length t)" "holds buf' (length t) t" "buf' \<noteq> []"
    using removeLine_holds [of buf idx CRLF t] h Nil(4) by auto
  with s Nil(2) show ?case by (subst header_loop.simps) (simp add: CRLF_def)
next
  case (Cons x hs)
  define t' where "t' = crlf_lines (map header_line hs) @ CRLF @ t"
  have h: "holds buf idx (header_line x @ CRLF @ t')" using Cons.prems(3) by (simp add: t'_def)
  have plain: "header_ok x" "CR \<notin> set (header_line x)" "NUL \<notin> set (header_line x)"
    using Cons.prems(1) by (auto simp: header_plain_def)
  note s = strstr_line [OF h plain(2,3)]
  obtain b1 where b1: "header_effect b x = Inr b1" "headers_effect b1 hs = Inr b'"
    using Cons.prems(2) by (auto elim: rbind_eq_InrE)
  obtain buf1 where r: "removeLine buf idx (length (header_line x @ CRLF)) = (buf1, length t')"
    "holds buf1 (length t') t'" "buf1 \<noteq> []"
    using removeLine_holds [of buf idx "header_line x @ CRLF" t'] h Cons.prems(4) by auto
  have "parseHeaders b (header_line x) = Inr (True, b1)"
    using parseHeaders_line [OF plain(1), of b] b1 by simp
  with s r have "header_loop buf idx b = header_loop buf1 (length t') b1"
    by (subst header_loop.simps) (simp add: CRLF_def)
  with Cons.IH [OF _ b1(2) r(2) [unfolded t'_def] r(3)] Cons.prems(1) show ?case by (simp add: t'_def)
qed

definition request_text :: "string \<Rightarrow> string \<Rightarrow> string \<Rightarrow> (string \<times> string) list \<Rightarrow> string \<Rightarrow> string" where
  "request_text method url version hs body =
     request_line method url version @ CRLF @ crlf_lines (map header_line hs) @ CRLF @ body"

definition word_plain :: "string \<Rightarrow> bool" where
  "word_plain w \<longleftrightarrow> word_ok w \<and> NUL \<notin> set w"

lemma request_line_plain:
  assumes "word_plain method" "word_plain url" "word_plain version"
  shows "CR \<notin> set (request_line method url version)" "NUL \<notin> set (request_line method url version)"
proof -
  have "is_space CR" by (simp add: is_space_def CR_def)
  with assms show "CR \<notin> set (request_line method url version)" "NUL \<notin> set (request_line method url version)"
    by (auto simp: request_line_def word_plain_def word_ok_def CR_def NUL_def)
qed

lemma parseBody_prefix:
  assumes "holds buf (length (body @ t)) (body @ t)"
  shows "parseBody J b buf (int (length body)) = parseBody J b body (int (length body))"
proof -
  from assms obtain rest where "buf = (body @ t) @ rest" by (rule holdsE)
  then show ?thesis by (simp add: parseBody_def Let_def)
qed

lemma parseBody_ok: "\<exists>b'. parseBody J b body (int (length body)) = Inr b'"
  by (simp add: parseBody_def Let_def)

lemma parse_body_state_complete:
  assumes "holds (m_read_buf c) (m_read_idx c) (body @ t)" "m_read_buf c \<noteq> []"
    and "m_content_length (m_http_base c) = int (length body)"
  shows "\<exists>buf b. parse_body_state J c = Inr (True, c\<lparr>m_http_base := b, m_read_buf := buf,
      m_read_idx := length t, m_parse_state := PARSE_DONE\<rparr>) \<and> holds buf (length t) t \<and>
      parseBody J (m_http_base c) body (int (length body)) = Inr b"
proof -
  have idx: "m_read_idx c = length (body @ t)" using assms(1) by (simp add: holds_def)
  obtain b where b: "parseBody J (m_http_base c) body (int (length body)) = Inr b" using parseBody_ok by blast
  have "parseBody J (m_http_base c) (m_read_buf c) (int (length body)) = Inr b"
    using parseBody_prefix assms(1) b unfolding idx by metis
  moreover obtain buf where "removeLine (m_read_buf c) (m_read_idx c) (length body) = (buf, length t)"
    "holds buf (length t) t" using removeLine_holds [OF assms(1,2)] by blast
  ultimately show ?thesis using b assms(3) idx by (auto simp: parse_body_state_def)
qed

lemma parse_request:
  assumes "m_parse_state c = PARSE_REQUEST_LINE"
    and "holds (m_read_buf c) (m_read_idx c) (request_text method url version hs body @ extra)"
    and "word_plain method" "word_plain url" "word_plain version" "\<forall>h \<in> set hs. header_plain h"
    and "headers_effect ((m_http_base c)\<lparr>m_method := method, m_url := url, m_version := version\<rparr>) hs = Inr b"
    and "m_content_length b = int (length body)"
  shows "\<exists>buf b'. parseHttpRequest J c = Inr (True, c\<lparr>m_http_base := b', m_read_buf := buf, m_read_idx := length extra,
      m_parse_state := PARSE_DONE\<rparr>) \<and>
    parseBody J b body (int (length body)) = Inr b' \<and> holds buf (length extra) extra"
proof -
  define t where "t = crlf_lines (map header_line hs) @ CRLF @ body @ extra"
  have h: "holds (m_read_buf c) (m_read_idx c) (request_line method url version @ CRLF @ t)"
    using assms(2) by (simp add: request_text_def t_def)
  then have ne: "m_read_buf c \<noteq> []" by (auto simp: holds_def CRLF_def)
  note s = strstr_line [OF h request_line_plain [OF assms(3-5)]]
  obtain buf1 where r1: "removeLine (m_read_buf c) (m_read_idx c) (length (request_line method url version @ CRLF)) =
      (buf1, length t)" "holds buf1 (length t) t" "buf1 \<noteq> []"
    using removeLine_holds [of "m_read_buf c" "m_read_idx c" "request_line method url version @ CRLF" t] h ne by auto
  define b0 where "b0 = (m_http_base c)\<lparr>m_method := method, m_url := url, m_version := version\<rparr>"
  define c1 where "c1 = c\<lparr>m_http_base := b0, m_read_buf := buf1, m_read_idx := length t, m_parse_state := PARSE_HEADERS\<rparr>"
  have line: "parseRequestLine (m_http_base c) (request_line method url version) = (True, b0)"
    using parseRequestLine_text assms(3-5) by (simp add: word_plain_def b0_def)
  have step1: "parseHttpRequest J c = parse_headers_state J c1"
    using s r1(1) line assms(1) by (simp add: parseHttpRequest_def parse_line_state_def c1_def CRLF_def)
  obtain buf2 where r2: "header_loop buf1 (length t) b0 = Inr (True, buf2, length (body @ extra), b)"
    "holds buf2 (length (body @ extra)) (body @ extra)" "buf2 \<noteq> []"
    using header_loop_complete [OF assms(6) assms(7) [folded b0_def] r1(2) [unfolded t_def] r1(3)]
    by (auto simp: t_def)
  define c2 where "c2 = c1\<lparr>m_read_buf := buf2, m_read_idx := length (body @ extra), m_http_base := b,
      m_parse_state := PARSE_BODY\<rparr>"
  have step2: "parse_headers_state J c1 = parse_body_state J c2"
    using r2(1) by (simp add: parse_headers_state_def c1_def c2_def)
  have "holds (m_read_buf c2) (m_read_idx c2) (body @ extra)" "m_read_buf c2 \<noteq> []"
    "m_content_length (m_http_base c2) = int (length body)" using r2 assms(8) by (simp_all add: c2_def)
  from parse_body_state_complete [OF this, of J] show ?thesis
    unfolding step1 step2 by (auto simp: c2_def c1_def)
qed

section \<open>Properties of the parser\<close>

text \<open>C17. The parser accepts every well-formed request: when the buffer of a connection that waits for
  a request line starts with a request (method, target and version without blanks; header lines without line
  breaks; a body of the length its headers announce), \<open>parseHttpRequest\<close> returns true in state
  \<open>PARSE_DONE\<close>, the request has exactly these attributes, and the bytes behind the body stay in the buffer,
  moved to its front.\<close>

theorem parse_complete:
  assumes "m_parse_state c = PARSE_REQUEST_LINE"
    and "holds (m_read_buf c) (m_read_idx c) (request_text method url version hs body @ extra)"
    and "word_plain method" "word_plain url" "word_plain version" "\<forall>h \<in> set hs. header_plain h"
    and "headers_effect ((m_http_base c)\<lparr>m_method := method, m_url := url, m_version := version\<rparr>) hs = Inr b"
    and "m_content_length b = int (length body)"
  shows "\<exists>c'. parseHttpRequest J c = Inr (True, c') \<and> m_parse_state c' = PARSE_DONE \<and>
    parseBody J b body (int (length body)) = Inr (m_http_base c') \<and>
    holds (m_read_buf c') (m_read_idx c') extra"
  using parse_request [OF assms, of J] by auto

definition demo_text :: string where
  "demo_text = request_text ''POST'' ''/login'' ''HTTP/1.1''
     [(''Content-Type'', ''application/x-www-form-urlencoded''), (''Content-Length'', ''7'')] ''a=1&b=2''"

definition conn_new :: http_conn where
  "conn_new = http_init \<lparr>m_sockfd = -1, m_address = [], m_is_closed = False, m_read_buf = [], m_read_idx = 0,
     m_write_buf = [], m_write_idx = 0, m_parse_state = PARSE_REQUEST_LINE, m_http_base = http_base_init [],
     m_http_response = http_response_new, m_file_path = [], m_file_fd = -1, m_file_response_size = 0,
     m_file_total_size = 0, m_file_bytes_sent = 0, m_file_offset = 0, m_header_sent = False,
     m_response_built = False\<rparr> 7 ''10.0.0.1''"

theorem parse_complete_witness:
  "\<exists>c'. parseHttpRequest demo_json (conn_new\<lparr>m_read_buf := demo_text @ [NUL], m_read_idx := length demo_text\<rparr>) =
     Inr (True, c') \<and> m_parse_state c' = PARSE_DONE"
proof -
  define hs where "hs = [(''Content-Type'', ''application/x-www-form-urlencoded''), (''Content-Length'', ''7'')]"
  define c where "c = conn_new\<lparr>m_read_buf := demo_text @ [NUL], m_read_idx := length demo_text\<rparr>"
  have st: "m_parse_state c = PARSE_REQUEST_LINE"
    by (simp add: c_def conn_new_def http_init_def CloseFile_def Let_def)
  have h: "holds (m_read_buf c) (m_read_idx c) (request_text ''POST'' ''/login'' ''HTTP/1.1'' hs ''a=1&b=2'' @ [])"
    by (simp add: c_def holds_def demo_text_def hs_def)
  have w: "word_plain ''POST''" "word_plain ''/login''" "word_plain ''HTTP/1.1''"
    by (simp_all add: word_plain_def word_ok_def is_space_def NUL_def)
  have p: "\<forall>h \<in> set hs. header_plain h"
    by (simp add: hs_def header_plain_def header_ok_def header_line_def CR_def NUL_def)
  have "stoi ''7'' = Inr 7"
    by (simp add: stoi_def is_space_def split_sign_def is_digit_def digits_val_def digit_val_def INT_MIN_def
        INT_MAX_def Let_def)
  then obtain b where b: "headers_effect ((m_http_base c)\<lparr>m_method := ''POST'', m_url := ''/login'',
      m_version := ''HTTP/1.1''\<rparr>) hs = Inr b" "m_content_length b = int (length ''a=1&b=2'')"
    by (simp add: hs_def header_effect_def)
  from parse_complete [OF st h w p b, of demo_json] show ?thesis unfolding c_def by blast
qed

section \<open>Access\<close>

lemma parseAuthContext_refused:
  assumes "\<not> isTokenValid ssl tm (getToken b)"
  shows "\<exists>sm'. parseAuthContext ssl b sm tm t1 t2 t3 = (b, sm', tm) \<and> m_sessions sm' = m_sessions sm"
  using assms by (auto simp: parseAuthContext_def isSessionIdExpired_def Let_def)

text \<open>C18. Protected pages need a token: when the request carries no valid token and its target is not
  on the list of pages that need no login (or is on the black list), the answer does not depend on any handler: it
  is the 401 envelope (or the 403 one), no route is run, and of the state of the server only the timers of the
  session table can change.\<close>

theorem protected_needs_token:
  assumes "\<not> isTokenValid ssl (sv_tokens sv) (getToken (m_http_base c))" "\<not> m_authenticated (m_http_base c)"
    and "shouldIntercept (sv_interceptor sv) ''login_unrequired'' (m_url (m_http_base c)) \<or>
         shouldIntercept (sv_interceptor sv) ''uri_blacklist'' (m_url (m_http_base c))"
    and "answerRequest ssl J run c sv t1 t2 t3 = Inr (c', sv')"
  shows "(\<exists>code message txt.
      (if shouldIntercept (sv_interceptor sv) ''uri_blacklist'' (m_url (m_http_base c))
       then code = 403 \<and> message = forbidden_message else code = 401 \<and> message = unauthenticated_message) \<and>
      json_dump J (JObject [(''code'', JInt code), (''data'', JNull), (''message'', JString message)]) = Inr txt \<and>
      m_http_response c' = sendJson_text (m_keep_alive (m_http_base c)) (m_http_response c) 200 txt) \<and>
    m_sessions (sv_sessions sv') = m_sessions (sv_sessions sv) \<and> sv_tokens sv' = sv_tokens sv \<and>
    sv_limiter sv' = sv_limiter sv \<and> sv_interceptor sv' = sv_interceptor sv \<and> sv_router sv' = sv_router sv \<and>
    sv_ext sv' = sv_ext sv"
proof -
  obtain sm' where sm: "parseAuthContext ssl (m_http_base c) (sv_sessions sv) (sv_tokens sv) t1 t2 t3 =
      (m_http_base c, sm', sv_tokens sv)" "m_sessions sm' = m_sessions (sv_sessions sv)"
    using parseAuthContext_refused [OF assms(1)] by blast
  have env: "sendRESTfulJson J ka r code msg [] = Inr res \<longleftrightarrow>
      (\<exists>txt. json_dump J (JObject [(''code'', JInt code), (''data'', JNull), (''message'', JString msg)]) = Inr txt \<and>
        res = sendJson_text ka r 200 txt)" for ka r code msg res
    by (cases "json_dump J (JObject [(''code'', JInt code), (''data'', JNull), (''message'', JString msg)])")
      (auto simp: sendRESTfulJson_def buildRESTfulJson_def sendJson_def less_char_def)
  show ?thesis
  proof (cases "shouldIntercept (sv_interceptor sv) ''uri_blacklist'' (m_url (m_http_base c))")
    case True
    with assms(4) obtain res where "sendRESTfulJson J (m_keep_alive (m_http_base c)) (m_http_response c) 403
        forbidden_message [] = Inr res" "c' = c\<lparr>m_http_response := res\<rparr>" "sv' = sv"
      by (auto simp: answerRequest_def Let_def elim!: rbind_eq_InrE)
    with True env show ?thesis by auto
  next
    case False
    with assms sm obtain res where "sendRESTfulJson J (m_keep_alive (m_http_base c)) (m_http_response c) 401
        unauthenticated_message [] = Inr res" "m_http_response c' = res"
        "sv' = sv\<lparr>sv_sessions := sm', sv_tokens := sv_tokens sv\<rparr>"
      by (auto simp: answerRequest_def Let_def elim!: rbind_eq_InrE)
    with False env sm(2) show ?thesis by auto
  qed
qed

definition demo_server :: "(nat, nat, nat) server" where
  "demo_server = \<lparr>sv_sessions = session_init, sv_tokens = token_init, sv_limiter = rl_empty,
     sv_interceptor = register_all \<lparr>m_typeInterceptorMap = Map.empty, m_typeWhiteListMap = Map.empty,
       m_typeInterceptorEnableMap = Map.empty, m_interceptorClose = False\<rparr>
       [(''login_unrequired'', [''/login.html''], True)],
     sv_router = router_new, sv_ext = 0\<rparr>"

definition demo_secret :: http_conn where
  "demo_secret = conn_new\<lparr>m_http_base := (http_base_init [])\<lparr>m_method := ''GET'', m_url := ''/secret''\<rparr>\<rparr>"

lemma demo_intercept:
  "shouldIntercept (sv_interceptor demo_server) ''login_unrequired'' ''/secret''"
  "\<not> shouldIntercept (sv_interceptor demo_server) ''uri_blacklist'' ''/secret''"
  by (simp_all add: demo_server_def register_all_def interceptor_init_def registerTypeRule_def
      shouldIntercept_def isInterceptorClose_def List.member_iff)

theorem protected_needs_token_witness:
  "\<exists>c' sv'. answerRequest demo_ssl demo_json (\<lambda>h b r s. Inl Null_dereference) demo_secret demo_server 1 2 3 = Inr (c', sv') \<and>
     sv_ext sv' = sv_ext demo_server"
proof -
  have base: "m_http_base demo_secret = (http_base_init [])\<lparr>m_method := ''GET'', m_url := ''/secret''\<rparr>"
    by (simp add: demo_secret_def)
  have tok: "\<not> isTokenValid demo_ssl (sv_tokens demo_server) (getToken (m_http_base demo_secret))"
    "\<not> m_authenticated (m_http_base demo_secret)" "m_url (m_http_base demo_secret) = ''/secret''"
    by (simp_all add: base getToken_def getHeader_def http_base_init_def isTokenValid_def)
  obtain sm' where sm: "parseAuthContext demo_ssl (m_http_base demo_secret) (sv_sessions demo_server)
      (sv_tokens demo_server) 1 2 3 = (m_http_base demo_secret, sm', sv_tokens demo_server)"
    using parseAuthContext_refused [OF tok(1)] by blast
  have "sendRESTfulJson demo_json ka r code msg [] = Inr (sendJson_text ka r 200
      (demo_dump (JObject [(''code'', JInt code), (''data'', JNull), (''message'', JString msg)])))" for ka r code msg
    by (simp add: sendRESTfulJson_def buildRESTfulJson_def sendJson_def demo_json_def less_char_def)
  then obtain c' sv' where r: "answerRequest demo_ssl demo_json (\<lambda>h b r s. Inl Null_dereference) demo_secret demo_server 1 2 3
      = Inr (c', sv')"
    using sm tok demo_intercept by (simp add: answerRequest_def Let_def)
  from protected_needs_token [OF tok(1,2) _ r] demo_intercept(1) tok(3) r show ?thesis by auto
qed

section \<open>Parts of files\<close>

text \<open>C35. Ranges: when the range asked for ends inside the file, a partial answer announces exactly as many
  bytes as it sends, at least one, and all of them lie inside the file; a range without an end runs to the end of the
  file, and a suffix range gives the last bytes. Without a valid range the whole file is sent.\<close>

theorem range_inside_file:
  assumes "0 \<le> n" "n \<le> INT_MAX" "range_end rg < n \<or> range_start rg = -1"
    and "select_range rg n off = (status, text, offset, sz, content_length)"
  shows "content_length = sz \<and>
    (status = 206 \<longrightarrow> 0 \<le> offset \<and> 0 < sz \<and> offset + sz \<le> n \<and> range_isValid rg) \<and>
    (status = 206 \<and> range_end rg = -1 \<longrightarrow> offset = range_start rg \<and> offset + sz = n) \<and>
    (status = 206 \<and> range_start rg = -1 \<longrightarrow> offset + sz = n \<and> sz = range_end rg) \<and>
    (status = 200 \<longrightarrow> sz = n \<and> offset = off) \<and> (status = 416 \<longrightarrow> sz = 0)"
proof -
  have "0 \<le> range_start rg \<Longrightarrow> range_start rg \<le> range_end rg \<Longrightarrow> range_end rg < n \<Longrightarrow>
      wrap32 (range_end rg - range_start rg + 1) = range_end rg - range_start rg + 1"
    using assms(2) by (intro wrap32_id) (simp_all add: INT_MIN_def)
  with assms show ?thesis by (auto simp: select_range_def Let_def split: if_splits)
qed

theorem range_inside_file_witness:
  "select_range \<lparr>range_start = 10, range_end = -1, range_isValid = True\<rparr> 100 0 = (206, ''Partial Content'', 10, 90, 90) \<and>
   (10::int) + 90 = 100"
proof -
  have r: "select_range \<lparr>range_start = 10, range_end = -1, range_isValid = True\<rparr> 100 0 =
      (206, ''Partial Content'', 10, 90, 90)"
    by (simp add: select_range_def Let_def)
  from range_inside_file [OF _ _ _ r] r show ?thesis by (simp add: INT_MAX_def)
qed

section \<open>The wire\<close>

text \<open>What stays of a connection while an answer is made and sent.\<close>

definition same_peer :: "http_conn \<Rightarrow> http_conn \<Rightarrow> bool" where
  "same_peer c c' \<longleftrightarrow> m_sockfd c' = m_sockfd c \<and> m_address c' = m_address c \<and> m_is_closed c' = m_is_closed c \<and>
     m_keep_alive (m_http_base c') = m_keep_alive (m_http_base c)"

lemma same_peer_trans: "same_peer a b \<Longrightarrow> same_peer b c \<Longrightarrow> same_peer a c"
  by (simp add: same_peer_def)

lemma http_write_file:
  assumes "\<not> m_header_sent c" "send_all (take (m_write_idx c) (m_write_buf c)) outs = (OK, head, Sent n # rest)"
    and "m_file_fd c \<noteq> -1" "m_file_bytes_sent c = 0" "0 \<le> m_file_offset c" "0 < n"
    and "0 < m_file_response_size c" "m_file_offset c < int (length file)"
  shows "\<exists>c'. http_write c file outs = (OK, take (m_write_idx c) (m_write_buf c) @
      take n (take (nat (m_file_response_size c)) (drop (nat (m_file_offset c)) file)), c') \<and> m_file_fd c' = -1 \<and> same_peer c c'"
proof -
  have head: "head = take (m_write_idx c) (m_write_buf c)" using send_all_OK [OF assms(2)] .
  have "nat (m_file_offset c) < length file" using assms(5,8) by linarith
  then have "take n (take (nat (m_file_response_size c)) (drop (nat (m_file_offset c)) file)) \<noteq> []"
    using assms(6,7) by simp
  with assms head show ?thesis
    by (auto simp: http_write_def write_file_def CloseFile_def same_peer_def Let_def)
qed


definition demo_writing :: http_conn where
  "demo_writing = conn_new\<lparr>m_write_buf := ''HEAD'', m_write_idx := 4, m_file_fd := 9, m_file_offset := 1,
     m_file_response_size := 3\<rparr>"


text \<open>A write that had to stop starts over: when \<open>write\<close> reports \<open>AGAIN\<close> while sending the write buffer, it
  has put some beginning of the buffer on the wire and remembers nothing of it; the next call that gets through
  sends the whole buffer from its first byte.\<close>

theorem write_restarts:
  assumes "\<not> m_header_sent c" "m_file_fd c = -1"
    and "http_write c file outs1 = (AGAIN, wire1, c1)" "http_write c1 file outs2 = (OK, wire2, c2)"
  shows "c1 = c \<and> prefix wire1 (take (m_write_idx c) (m_write_buf c)) \<and> wire2 = take (m_write_idx c) (m_write_buf c)"
proof -
  obtain st wire rest where 1: "send_all (take (m_write_idx c) (m_write_buf c)) outs1 = (st, wire, rest)"
    by (cases "send_all (take (m_write_idx c) (m_write_buf c)) outs1")
  with assms(1-3) have st: "st = AGAIN" "wire1 = wire" "c1 = c"
    by (auto simp: http_write_def split: if_splits)
  have pre: "prefix wire1 (take (m_write_idx c) (m_write_buf c))"
    using send_all_prefix [OF 1] st unfolding prefix_def by blast
  obtain st' wire' rest' where 2: "send_all (take (m_write_idx c) (m_write_buf c)) outs2 = (st', wire', rest')"
    by (cases "send_all (take (m_write_idx c) (m_write_buf c)) outs2")
  with assms(1,2,4) st(3) have "st' = OK" "wire2 = wire'"
    by (auto simp: http_write_def split: if_splits)
  with 2 send_all_OK st(3) pre show ?thesis by simp
qed

theorem write_restarts_witness:
  "fst (snd (http_write (demo_writing\<lparr>m_file_fd := -1\<rparr>) [] [Sent 3, Send_would_block])) = ''HEA'' \<and>
   fst (snd (http_write (demo_writing\<lparr>m_file_fd := -1\<rparr>) [] [Sent 4])) = ''HEAD''"
proof -
  define c where "c = demo_writing\<lparr>m_file_fd := -1\<rparr>"
  have conn: "\<not> m_header_sent c" "m_write_idx c = 4" "m_write_buf c = ''HEAD''" "m_file_fd c = -1"
    by (simp_all add: c_def demo_writing_def conn_new_def http_init_def CloseFile_def Let_def)
  have 1: "http_write c [] [Sent 3, Send_would_block] = (AGAIN, ''HEA'', c)"
    using conn by (simp add: http_write_def)
  obtain c2 where 2: "http_write c [] [Sent 4] = (OK, ''HEAD'', c2)"
    using conn by (simp add: http_write_def)
  from write_restarts [OF conn(1,4) 1 2] 1 2 show ?thesis by (simp add: c_def)
qed

end
