(* ===== verification/Http_Static.thy ===== *)
theory Http_Static
  imports Http_Serving
begin

text \<open>
  A page from the request to the wire: reading, parsing, the checks of \<open>process\<close>, the file response and \<open>write\<close>, one after
  the other on one connection.
\<close>

section \<open>What stays of a request\<close>

lemma parseAuthContext_frame:
  assumes "parseAuthContext ssl b sm tm t1 t2 t3 = (b', sm', tm')"
  shows "m_url b' = m_url b" "m_method b' = m_method b" "m_keep_alive b' = m_keep_alive b" "m_range b' = m_range b"
  using assms by (auto simp: parseAuthContext_def setUsername_def Let_def split: if_splits prod.splits)

lemma parseBody_frame:
  assumes "parseBody J b body n = Inr b'"
  shows "m_url b' = m_url b" "m_method b' = m_method b" "m_keep_alive b' = m_keep_alive b" "m_range b' = m_range b"
  using assms by (auto simp: parseBody_def parseFormData_def parseJsonBody_def Let_def split: if_splits option.splits)

lemma headers_effect_frame:
  assumes "headers_effect b hs = Inr b'"
  shows "m_url b' = m_url b \<and> m_method b' = m_method b"
  using assms
proof (induction hs arbitrary: b)
  case (Cons h hs)
  then obtain b1 where b1: "header_effect b h = Inr b1" "headers_effect b1 hs = Inr b'" by (auto elim!: rbind_eq_InrE)
  have "m_url b1 = m_url b \<and> m_method b1 = m_method b"
    using b1(1) by (auto simp: header_effect_def setHeader_def parseRange_def Let_def elim!: rbind_eq_InrE split: if_splits prod.splits option.splits sum.splits)
  with Cons.IH [OF b1(2)] show ?case by simp
qed simp

section \<open>Files\<close>

definition static_header :: "bool \<Rightarrow> string \<Rightarrow> int \<Rightarrow> string" where
  "static_header keep_alive url n =
     crlf_lines ([''HTTP/1.1 200 OK'', ''Content-Type: '' @ getMimeType url, ''Content-Length: '' @ to_string n] @
       (if keep_alive then [''Connection: keep-alive'', ''Keep-Alive: timeout=5''] else [''Connection: close'']) @
       [''Accept-Ranges: bytes'']) @ CRLF"

definition serves :: "filesystem \<Rightarrow> string \<Rightarrow> string \<Rightarrow> bool" where
  "serves fs path file \<longleftrightarrow>
     NUL \<notin> set path \<and> fs_stat fs path = Some (int (length file)) \<and> fs_open fs path \<noteq> -1 \<and> int (length file) \<le> INT_MAX"

lemma c_str_plain: "NUL \<notin> set s \<Longrightarrow> c_str s = s"
  using c_str_append [of s "[]"] by (simp add: c_str_def)

lemma generateResponse_file:
  assumes "serves fs (root @ url) file" "url \<noteq> ''/''" "m_url (m_http_base c) = url" "\<not> range_isValid (m_range (m_http_base c))"
    and "m_response_url (m_http_response c) = url" "m_response_headers (m_http_response c) = []"
    and "m_response_cookies (m_http_response c) = []"
    and "length (static_header (m_keep_alive (m_http_base c)) url (int (length file))) < WRITE_BUFFER_SIZE"
  shows "\<exists>c'. generateResponse fs root c = (True, c') \<and>
    take (m_write_idx c') (m_write_buf c') = static_header (m_keep_alive (m_http_base c)) url (int (length file)) \<and>
    m_file_fd c' = fs_open fs (root @ url) \<and> m_file_offset c' = m_file_offset c \<and> m_file_response_size c' = int (length file) \<and>
    m_file_bytes_sent c' = m_file_bytes_sent c \<and> m_header_sent c' = m_header_sent c \<and> same_peer c c'"
proof -
  have w: "wrap32 (int (length file)) = int (length file)"
    using assms(1) by (intro wrap32_id) (auto simp: serves_def INT_MIN_def)
  have sel: "select_range (m_range (m_http_base c)) n off = (200, ''OK'', off, n, n)" for n off
    using assms(4) by (simp add: select_range_def)
  have code: "to_string 200 = ''200''" by code_simp
  have h: "crlf_lines (response_lines ka (res_setHeader (m_http_response c) ''Accept-Ranges'' ''bytes'') 200 ''OK'' (getMimeType url) n []) @ CRLF =
      static_header ka url n" for ka n
    using assms(6,7) code by (simp add: response_lines_def static_header_def res_setHeader_def)
  have len: "length (crlf_lines (response_lines ka (res_setHeader (m_http_response c) ''Accept-Ranges'' ''bytes'') 200 ''OK''
      (getMimeType url) n [])) + length CRLF = length (static_header ka url n)" for ka n
    by (simp flip: h)
  show ?thesis
    using assms w sel h len
    by (simp add: generateResponse_def serves_def c_str_plain buildResponseHeader_lines copyResponseData_def buf_write_def same_peer_def Let_def)
qed

section \<open>A page\<close>

lemma http_init_fields:
  assumes "fd \<noteq> -1"
  shows "m_sockfd (http_init c fd ip) = fd" "m_address (http_init c fd ip) = ip" "m_http_base (http_init c fd ip) = http_base_init ip"
    "m_http_response (http_init c fd ip) = http_response_init (m_http_response c)"
    "m_read_buf (http_init c fd ip) = replicate READ_BUFFER_SIZE NUL" "m_read_idx (http_init c fd ip) = 0"
    "m_parse_state (http_init c fd ip) = PARSE_REQUEST_LINE" "\<not> m_header_sent (http_init c fd ip)"
    "\<not> m_is_closed (http_init c fd ip)"
    "m_file_offset (http_init c fd ip) = 0" "m_file_bytes_sent (http_init c fd ip) = 0"
  using assms by (simp_all add: http_init_def CloseFile_def Let_def)

lemma read_fresh:
  assumes "m_sockfd c \<noteq> -1" "m_read_idx c = 0" "m_read_buf c = replicate READ_BUFFER_SIZE NUL" "s \<noteq> []"
    "length s \<le> READ_BUFFER_SIZE" "mode = LT \<or> mode = ET"
  shows "http_read mode c [Received s, Recv_would_block] =
    (True, c\<lparr>m_read_buf := s @ replicate (READ_BUFFER_SIZE - length s) NUL, m_read_idx := length s\<rparr>)"
proof -
  have "0 < READ_BUFFER_SIZE" using assms(4,5) by (cases s) auto
  with assms show ?thesis
    by (auto simp: http_read_def read_lt_def recv_into_def buf_write_def Let_def LT_def ET_def)
qed

lemma static_process:
  assumes parse: "parseHttpRequest J c = Inr (True, c1)"
    and free: "\<not> fst (isLimit (sv_limiter sv) ''access_ip'' (m_address c) (clk 0))"
    and open_url: "\<not> shouldIntercept (sv_interceptor sv) ''uri_blacklist'' url" "\<not> shouldIntercept (sv_interceptor sv) ''login_unrequired'' url"
    and get: "m_method (m_http_base c1) = ''GET''" "m_url (m_http_base c1) = url" "m_get_routes (sv_router sv) url = None"
    and res: "m_response_data (m_http_response c1) = []" "m_response_headers (m_http_response c1) = []" "m_response_cookies (m_http_response c1) = []"
    and page: "serves fs (root @ url) file" "url \<noteq> ''/''" "\<not> range_isValid (m_range (m_http_base c1))"
    and size: "length (static_header (m_keep_alive (m_http_base c1)) url (int (length file))) < WRITE_BUFFER_SIZE"
  shows "\<exists>c2 sv'. http_process ssl J fs root run c sv clk = Inr (True, c2, sv') \<and>
    take (m_write_idx c2) (m_write_buf c2) = static_header (m_keep_alive (m_http_base c1)) url (int (length file)) \<and>
    m_file_fd c2 = fs_open fs (root @ url) \<and> m_file_offset c2 = m_file_offset c1 \<and> m_file_response_size c2 = int (length file) \<and>
    m_file_bytes_sent c2 = m_file_bytes_sent c1 \<and> m_header_sent c2 = m_header_sent c1 \<and> same_peer c1 c2"
proof -
  obtain rl where rl: "isLimit (sv_limiter sv) ''access_ip'' (m_address c) (clk 0) = (False, rl)"
    using free by (cases "isLimit (sv_limiter sv) ''access_ip'' (m_address c) (clk 0)") auto
  obtain b sm tm where auth: "parseAuthContext ssl (m_http_base c1) (sv_sessions sv) (sv_tokens sv) (clk 1) (clk 2) (clk 3) = (b, sm, tm)"
    by (metis prod_cases3)
  note fr = parseAuthContext_frame [OF auth]
  define c1' where "c1' = c1\<lparr>m_http_base := b, m_http_response := setNewUrl (m_http_response c1) url\<rparr>"
  have ans: "answerRequest ssl J run c1 (sv\<lparr>sv_limiter := rl\<rparr>) (clk 1) (clk 2) (clk 3) =
      Inr (c1', sv\<lparr>sv_limiter := rl, sv_sessions := sm, sv_tokens := tm\<rparr>)"
    using open_url get auth fr by (simp add: answerRequest_def dispatch_def find_route_def c1'_def Let_def)
  have nb: "\<not> isBuilt (m_http_response c1')" using res by (simp add: c1'_def isBuilt_def setNewUrl_def)
  have "\<exists>c2. generateResponse fs root c1' = (True, c2) \<and>
    take (m_write_idx c2) (m_write_buf c2) = static_header (m_keep_alive (m_http_base c1')) url (int (length file)) \<and>
    m_file_fd c2 = fs_open fs (root @ url) \<and> m_file_offset c2 = m_file_offset c1' \<and> m_file_response_size c2 = int (length file) \<and>
    m_file_bytes_sent c2 = m_file_bytes_sent c1' \<and> m_header_sent c2 = m_header_sent c1' \<and> same_peer c1' c2"
    using page res get size fr by (intro generateResponse_file) (simp_all add: c1'_def setNewUrl_def)
  then obtain c2 where g: "generateResponse fs root c1' = (True, c2)"
    and f: "take (m_write_idx c2) (m_write_buf c2) = static_header (m_keep_alive (m_http_base c1)) url (int (length file))"
      "m_file_fd c2 = fs_open fs (root @ url)" "m_file_offset c2 = m_file_offset c1" "m_file_response_size c2 = int (length file)"
      "m_file_bytes_sent c2 = m_file_bytes_sent c1" "m_header_sent c2 = m_header_sent c1" "same_peer c1 c2"
    using fr by (auto simp: c1'_def same_peer_def)
  from rl parse ans nb g have "\<exists>sv'. http_process ssl J fs root run c sv clk = Inr (True, c2, sv')"
    by (simp add: http_process_def handleRequest_def)
  with f show ?thesis by auto
qed

text \<open>A GET request for a file under the web root, with the request attributes \<open>b\<close> its headers make: outside the rate limit, for
  a path that neither interceptor list catches and no route claims.\<close>

definition page_request ::
  "filesystem \<Rightarrow> string \<Rightarrow> ('h, 'wh, 'x) server \<Rightarrow> time \<Rightarrow> string \<Rightarrow> string \<Rightarrow> (string \<times> string) list \<Rightarrow> http_base \<Rightarrow> string \<Rightarrow> bool" where
  "page_request fs root sv now ip url hs b file \<longleftrightarrow>
     length (request_text ''GET'' url ''HTTP/1.1'' hs []) \<le> READ_BUFFER_SIZE \<and>
     word_plain url \<and> (\<forall>h \<in> set hs. header_plain h) \<and>
     headers_effect ((http_base_init ip)\<lparr>m_method := ''GET'', m_url := url, m_version := ''HTTP/1.1''\<rparr>) hs = Inr b \<and>
     m_content_length b = 0 \<and> \<not> range_isValid (m_range b) \<and>
     \<not> fst (isLimit (sv_limiter sv) ''access_ip'' ip now) \<and>
     \<not> shouldIntercept (sv_interceptor sv) ''uri_blacklist'' url \<and> \<not> shouldIntercept (sv_interceptor sv) ''login_unrequired'' url \<and>
     m_get_routes (sv_router sv) url = None \<and> url \<noteq> ''/'' \<and> serves fs (root @ url) file \<and> file \<noteq> [] \<and>
     length (static_header (m_keep_alive b) url (int (length file))) < WRITE_BUFFER_SIZE"

lemma page_process:
  assumes "fd \<noteq> -1" "c = http_init old fd ip" "page_request fs root sv (clk 0) ip url hs b file"
    and "s = request_text ''GET'' url ''HTTP/1.1'' hs []"
    and "c1 = c\<lparr>m_read_buf := s @ replicate (READ_BUFFER_SIZE - length s) NUL, m_read_idx := length s\<rparr>"
  shows "\<exists>c2 sv'. http_process ssl J fs root run c1 sv clk = Inr (True, c2, sv') \<and>
    take (m_write_idx c2) (m_write_buf c2) = static_header (m_keep_alive b) url (int (length file)) \<and>
    m_file_fd c2 = fs_open fs (root @ url) \<and> m_file_offset c2 = 0 \<and> m_file_response_size c2 = int (length file) \<and>
    m_file_bytes_sent c2 = 0 \<and> \<not> m_header_sent c2 \<and>
    m_sockfd c2 = fd \<and> m_address c2 = ip \<and> \<not> m_is_closed c2 \<and> m_keep_alive (m_http_base c2) = m_keep_alive b"
proof -
  note init = http_init_fields [OF assms(1), of old ip, folded assms(2)]
  note pg = assms(3) [unfolded page_request_def]
  have h: "headers_effect ((http_base_init ip)\<lparr>m_method := ''GET'', m_url := url, m_version := ''HTTP/1.1''\<rparr>) hs = Inr b"
    and plain: "word_plain url" "\<forall>h \<in> set hs. header_plain h" using pg by blast+
  have w: "word_plain ''GET''" "word_plain ''HTTP/1.1''" by (simp_all add: word_plain_def word_ok_def is_space_def NUL_def)
  have hold: "holds (m_read_buf c1) (m_read_idx c1) (request_text ''GET'' url ''HTTP/1.1'' hs [] @ [])"
    by (simp add: assms(5) holdsI flip: assms(4))
  have "\<exists>buf b'. parseHttpRequest J c1 = Inr (True, c1\<lparr>m_http_base := b', m_read_buf := buf, m_read_idx := length ([]::string),
      m_parse_state := PARSE_DONE\<rparr>) \<and>
    parseBody J b [] (int (length ([]::string))) = Inr b' \<and> holds buf (length ([]::string)) []"
    by (rule parse_request [OF _ hold w(1) plain(1) w(2) plain(2)]) (use h pg init in \<open>simp_all add: assms(5)\<close>)
  then obtain buf b' where p: "parseHttpRequest J c1 = Inr (True, c1\<lparr>m_http_base := b', m_read_buf := buf, m_read_idx := 0,
      m_parse_state := PARSE_DONE\<rparr>)" and b': "parseBody J b [] 0 = Inr b'" by auto
  note fr = parseBody_frame [OF b']
  define d where "d = c1\<lparr>m_http_base := b', m_read_buf := buf, m_read_idx := 0, m_parse_state := PARSE_DONE\<rparr>"
  have d: "m_sockfd d = fd" "m_address d = ip" "\<not> m_is_closed d" "m_keep_alive (m_http_base d) = m_keep_alive b"
    "m_file_offset d = 0" "m_file_bytes_sent d = 0" "\<not> m_header_sent d"
    using init fr by (simp_all add: d_def assms(5))
  have "\<exists>c2 sv'. http_process ssl J fs root run c1 sv clk = Inr (True, c2, sv') \<and>
    take (m_write_idx c2) (m_write_buf c2) = static_header (m_keep_alive (m_http_base d)) url (int (length file)) \<and>
    m_file_fd c2 = fs_open fs (root @ url) \<and> m_file_offset c2 = m_file_offset d \<and> m_file_response_size c2 = int (length file) \<and>
    m_file_bytes_sent c2 = m_file_bytes_sent d \<and> m_header_sent c2 = m_header_sent d \<and> same_peer d c2"
    by (rule static_process [OF p [folded d_def]])
      (use pg init fr headers_effect_frame [OF h] in \<open>simp_all add: d_def assms(5) http_response_init_def\<close>)
  with d show ?thesis by (auto simp: same_peer_def)
qed

lemma page_write:
  assumes "take (m_write_idx c2) (m_write_buf c2) = head" "m_file_fd c2 \<noteq> -1" "m_file_offset c2 = 0"
    "m_file_response_size c2 = int (length file)" "m_file_bytes_sent c2 = 0" "\<not> m_header_sent c2"
    and "file \<noteq> []" "send_all head outs = (OK, out, Sent k # rest)" "length file \<le> k"
  shows "\<exists>c3. http_write c2 file outs = (OK, head @ file, c3) \<and> m_file_fd c3 = -1 \<and> same_peer c2 c3"
proof -
  have "send_all (take (m_write_idx c2) (m_write_buf c2)) outs = (OK, out, Sent k # rest)" using assms(1,8) by simp
  moreover have "0 < k" using assms(7,9) by (cases "file") auto
  ultimately show ?thesis using http_write_file [of c2 outs out k rest "file"] assms by auto
qed

text \<open>A page from the request to the wire: on a connection just initialised, a GET request for a file under the web root,
  outside the rate limit, for a path that neither interceptor list catches and no route claims, is read in either trigger
  mode, processed and written so that the wire has exactly the header of a 200 answer with the type and length of the file,
  followed by the whole file, and the file is closed, provided the kernel takes the header and then the file.\<close>

theorem static_page:
  assumes "fd \<noteq> -1" "c = http_init old fd ip" "mode = LT \<or> mode = ET"
    and "page_request fs root sv (clk 0) ip url hs b file"
    and "send_all (static_header (m_keep_alive b) url (int (length file))) outs = (OK, head, Sent k # rest)" "length file \<le> k"
  shows "\<exists>c1 c2 sv' c3. http_read mode c [Received (request_text ''GET'' url ''HTTP/1.1'' hs []), Recv_would_block] = (True, c1) \<and>
    http_process ssl J fs root run c1 sv clk = Inr (True, c2, sv') \<and>
    http_write c2 file outs = (OK, static_header (m_keep_alive b) url (int (length file)) @ file, c3) \<and> m_file_fd c3 = -1"
proof -
  let ?s = "request_text ''GET'' url ''HTTP/1.1'' hs []"
  note init = http_init_fields [OF assms(1), of old ip, folded assms(2)]
  note pg = assms(4) [unfolded page_request_def]
  define c1 where "c1 = c\<lparr>m_read_buf := ?s @ replicate (READ_BUFFER_SIZE - length ?s) NUL, m_read_idx := length ?s\<rparr>"
  have "?s \<noteq> []" by (simp add: request_text_def CRLF_def)
  then have read: "http_read mode c [Received ?s, Recv_would_block] = (True, c1)"
    unfolding c1_def using init assms(1,3) pg by (intro read_fresh) simp_all
  obtain c2 sv' where pr: "http_process ssl J fs root run c1 sv clk = Inr (True, c2, sv')"
    and f: "take (m_write_idx c2) (m_write_buf c2) = static_header (m_keep_alive b) url (int (length file))"
      "m_file_fd c2 = fs_open fs (root @ url)" "m_file_offset c2 = 0" "m_file_response_size c2 = int (length file)"
      "m_file_bytes_sent c2 = 0" "\<not> m_header_sent c2"
    using page_process [where clk = clk, OF assms(1,2,4) refl c1_def, of ssl J run] by blast
  have "m_file_fd c2 \<noteq> -1" "file \<noteq> []" using f(2) pg by (auto simp: serves_def)
  from page_write [OF f(1) this(1) f(3-6) this(2) assms(5,6)] read pr show ?thesis by blast
qed

lemma send_all_whole: "h \<noteq> [] \<Longrightarrow> length h \<le> n \<Longrightarrow> send_all h (Sent n # outs) = (OK, h, outs)"
  by (cases h) auto

definition demo_files :: filesystem where
  "demo_files = \<lparr>fs_stat = [''/www/login.html'' \<mapsto> 2], fs_open = (\<lambda>p. if p = ''/www/login.html'' then 9 else -1), fs_stack = 0\<rparr>"

theorem static_page_witness:
  "\<exists>c1 c2 sv' c3 head.
     http_read LT (http_init conn_new 7 ''10.0.0.1'') [Received (request_text ''GET'' ''/login.html'' ''HTTP/1.1'' [(''Host'', ''a'')] []), Recv_would_block] = (True, c1) \<and>
     http_process demo_ssl demo_json demo_files ''/www'' (\<lambda>h b r s. Inl Null_dereference) c1 demo_server (\<lambda>i. int i) = Inr (True, c2, sv') \<and>
     http_write c2 ''hi'' [Sent 1000, Sent 2] = (OK, head @ ''hi'', c3)"
proof -
  let ?hs = "[(''Host'', ''a'')]" and ?url = "''/login.html''" and ?file = "''hi''"
  define b where "b = setHeader ((http_base_init ''10.0.0.1'')\<lparr>m_method := ''GET'', m_url := ?url, m_version := ''HTTP/1.1''\<rparr>) ''Host'' ''a''"
  have p: "word_plain ?url" "\<forall>h \<in> set ?hs. header_plain h"
    by (simp_all add: word_plain_def word_ok_def is_space_def NUL_def header_plain_def header_ok_def header_line_def CR_def)
  have e: "headers_effect ((http_base_init ''10.0.0.1'')\<lparr>m_method := ''GET'', m_url := ?url, m_version := ''HTTP/1.1''\<rparr>) ?hs = Inr b"
    by (simp add: header_effect_def b_def)
  have b: "m_content_length b = 0" "\<not> range_isValid (m_range b)" "m_keep_alive b = False"
    by (simp_all add: b_def setHeader_def http_base_init_def no_range_def)
  have lim: "\<not> fst (isLimit (sv_limiter demo_server) ''access_ip'' ''10.0.0.1'' (int 0))"
    by (simp add: demo_server_def isLimit_def rl_empty_def)
  have ic: "\<not> shouldIntercept (sv_interceptor demo_server) ''uri_blacklist'' ?url"
    "\<not> shouldIntercept (sv_interceptor demo_server) ''login_unrequired'' ?url" "m_get_routes (sv_router demo_server) ?url = None"
    by (simp_all add: demo_server_def register_all_def interceptor_init_def registerTypeRule_def
      shouldIntercept_def isInterceptorClose_def List.member_iff router_new_def)
  have fs: "serves demo_files (''/www'' @ ?url) ?file" by (simp add: serves_def demo_files_def NUL_def INT_MAX_def)
  define h where "h = static_header (m_keep_alive b) ?url (int (length ?file))"
  have "length (static_header False ?url 2) = 119" by code_simp
  then have len: "length h = 119" using b(3) by (simp add: h_def)
  then have "h \<noteq> []" by auto
  then have snd: "send_all h [Sent 1000, Sent 2] = (OK, h, [Sent 2])" using len by (intro send_all_whole) auto
  have sz: "length (request_text ''GET'' ?url ''HTTP/1.1'' ?hs []) \<le> READ_BUFFER_SIZE" "length h < WRITE_BUFFER_SIZE"
    using len by (simp_all add: request_text_def request_line_def header_line_def CRLF_def READ_BUFFER_SIZE_def WRITE_BUFFER_SIZE_def)
  have "page_request demo_files ''/www'' demo_server (int 0) ''10.0.0.1'' ?url ?hs b ?file"
    unfolding page_request_def using sz p e b lim ic fs by (simp add: h_def)
  from static_page [where fd = 7 and mode = LT and clk = "\<lambda>i. int i" and old = conn_new and k = 2 and
      ssl = demo_ssl and J = demo_json and run = "\<lambda>h b r s. Inl Null_dereference", OF _ refl _ this snd [unfolded h_def]]
  show ?thesis by auto
qed

end
