(* ===== verification/Websocket_Frame.thy ===== *)
theory Websocket_Frame
  imports Prelude
begin

unbundle bit_operations_syntax

text \<open>
  WebSocket frames: \<open>sendTextFrame\<close> and \<open>parseWebSocketFrame\<close> of \<open>src/conn/websocket/websocket_conn.cpp\<close>.

  \<open>payload_len\<close> is a \<open>uint64_t\<close> and the sum \<open>pos + 4 + payload_len\<close> is computed in 64 bits, so it is a
  \<open>64 word\<close> here and the sum can wrap. \<open>std::string::reserve\<close> throws for a length beyond
  \<open>max_size\<close>.
\<close>

section \<open>Model\<close>

definition byte_at :: "string \<Rightarrow> nat \<Rightarrow> nat" where
  "byte_at s i = of_char (s ! i)"

definition text_frame :: "string \<Rightarrow> string" where
  "text_frame msg =
     (let payload_len = length msg;
          frame = [char_of (0x81 :: nat)];
          frame =
            (if payload_len \<le> 125 then frame @ [char_of payload_len]
             else if payload_len \<le> 65535
             then frame @ [char_of (126 :: nat), char_of (drop_bit 8 payload_len AND 0xFF), char_of (payload_len AND 0xFF)]
             else frame @ [char_of (127 :: nat)] @
                  map (\<lambda>i. char_of (drop_bit (i * 8) payload_len AND 0xFF)) [7, 6, 5, 4, 3, 2, 1, 0])
      in frame @ msg)"

text \<open>\<open>for (i = 0; i < 8; ++i) payload_len = (payload_len << 8) | data[pos + i]\<close>\<close>

definition read_len64 :: "string \<Rightarrow> nat \<Rightarrow> 64 word" where
  "read_len64 s pos = foldl (\<lambda>p i. push_bit 8 p OR word_of_nat (byte_at s (pos + i))) 0 [0, 1, 2, 3, 4, 5, 6, 7]"

text \<open>The length field: the position behind it and the length; \<open>None\<close> when it is not all there.\<close>

definition frame_length :: "string \<Rightarrow> (nat \<times> 64 word) option" where
  "frame_length s =
     (let len7 = byte_at s 1 AND 0x7F
      in if len7 = 126 then
           if length s < 2 + 2 then None
           else Some (4, word_of_nat (push_bit 8 (byte_at s 2) OR byte_at s 3))
         else if len7 = 127 then
           if length s < 2 + 8 then None else Some (10, read_len64 s 2)
         else Some (2, word_of_nat len7))"

definition string_max_size :: "64 word" where
  "string_max_size = 0x7FFFFFFFFFFFFFFF"

definition unmask :: "string \<Rightarrow> string \<Rightarrow> string" where
  "unmask key payload =
     map (\<lambda>i. char_of ((of_char (payload ! i) :: nat) XOR of_char (key ! (i mod 4)))) [0..<length payload]"

text \<open>\<open>Inr None\<close> is the result \<open>false\<close>; otherwise the message and what is left in the buffer.\<close>

definition parseWebSocketFrame :: "string \<Rightarrow> (string \<times> string) option result" where
  "parseWebSocketFrame buf =
     (if buf = [] then Inr None
      else if length buf < 2 then Inr None
      else (let masked = (byte_at buf 1 AND 0x80 \<noteq> 0)
            in case frame_length buf of
                 None \<Rightarrow> Inr None
               | Some (pos, payload_len) \<Rightarrow>
                   if \<not> masked then Inr None
                   else if (word_of_nat (length buf) :: 64 word) < word_of_nat (pos + 4) + payload_len then Inr None
                   else if string_max_size < payload_len then Inl Length_error
                   else (let mask_key = take 4 (drop pos buf);
                             payload = take (unat payload_len) (drop (pos + 4) buf)
                         in Inr (Some (unmask mask_key payload, drop (pos + 4 + unat payload_len) buf)))))"

section \<open>The client's side\<close>

text \<open>The length field of RFC 6455, its first byte carrying the mask flag.\<close>

definition be_bytes :: "nat \<Rightarrow> nat \<Rightarrow> nat list" where
  "be_bytes k n = map (\<lambda>i. (n div 256 ^ i) mod 256) (rev [0..<k])"

definition length_field :: "nat \<Rightarrow> nat \<Rightarrow> nat list" where
  "length_field flag n =
     (if n \<le> 125 then [flag + n] else if n \<le> 65535 then (flag + 126) # be_bytes 2 n
      else (flag + 127) # be_bytes 8 n)"

definition client_frame :: "nat \<Rightarrow> string \<Rightarrow> string \<Rightarrow> string" where
  "client_frame first key msg =
     char_of first # map char_of (length_field 128 (length msg)) @ key @ unmask key msg"

text \<open>What a client reads from an unmasked frame: the payload and the rest.\<close>

definition client_read :: "string \<Rightarrow> (string \<times> string) option" where
  "client_read s =
     (let len7 = byte_at s 1;
          n = (if len7 \<le> 125 then len7
               else if len7 = 126 then foldl (\<lambda>a i. 256 * a + byte_at s i) 0 [2, 3]
               else foldl (\<lambda>a i. 256 * a + byte_at s i) 0 [2, 3, 4, 5, 6, 7, 8, 9]);
          pos = (if len7 \<le> 125 then 2 else if len7 = 126 then 4 else 10)
      in if length s < pos + n then None else Some (take n (drop pos s), drop n (drop pos s)))"

section \<open>Lemmas\<close>

lemma xor_byte: "(a::nat) < 256 \<Longrightarrow> b < 256 \<Longrightarrow> a XOR b < 256"
proof -
  assume "a < 256" "b < 256"
  then have "take_bit 8 (a XOR b) = a XOR b" by (simp add: take_bit_xor take_bit_nat_eq_self)
  then show ?thesis using take_bit_nat_less_exp [of 8 "a XOR b"] by simp
qed

lemma unmask_unmask:
  assumes "length key = 4"
  shows "unmask key (unmask key msg) = msg"
proof (rule nth_equalityI)
  show "length (unmask key (unmask key msg)) = length msg" by (simp add: unmask_def)
  fix i assume "i < length (unmask key (unmask key msg))"
  then have i: "i < length msg" by (simp add: unmask_def)
  define a k where "a = (of_char (msg ! i) :: nat)" and "k = (of_char (key ! (i mod 4)) :: nat)"
  have "a < 256" "k < 256" by (simp_all add: a_def k_def)
  have "unmask key (unmask key msg) ! i = char_of ((of_char (char_of (a XOR k) :: char) :: nat) XOR k)"
    using i by (simp add: unmask_def a_def k_def)
  also have "\<dots> = char_of ((a XOR k) XOR k)" using xor_byte [OF \<open>a < 256\<close> \<open>k < 256\<close>] by simp
  also have "\<dots> = msg ! i" by (simp add: xor.assoc a_def)
  finally show "unmask key (unmask key msg) ! i = msg ! i" .
qed

lemma length_unmask [simp]: "length (unmask key msg) = length msg"
  by (simp add: unmask_def)

lemma push_or_byte:
  assumes "b < 256"
  shows "push_bit 8 p OR (word_of_nat b :: 64 word) = p * 256 + word_of_nat b"
proof -
  have b: "take_bit 8 (word_of_nat b :: 64 word) = word_of_nat b"
    using assms by (simp add: take_bit_of_nat take_bit_nat_eq_self)
  have "\<not> bit (push_bit 8 p) n \<or> \<not> bit (word_of_nat b :: 64 word) n" for n
    by (subst b [symmetric]) (auto simp: bit_push_bit_iff bit_take_bit_iff)
  then have "push_bit 8 p + word_of_nat b = push_bit 8 p OR (word_of_nat b :: 64 word)"
    by (rule disjunctive_add)
  then show ?thesis by (simp add: push_bit_eq_mult)
qed

lemma push_or_byte_nat: "b < 256 \<Longrightarrow> push_bit 8 a OR b = a * 256 + (b::nat)"
proof -
  assume "b < 256"
  then have b: "take_bit 8 b = b" by (simp add: take_bit_nat_eq_self)
  have "\<not> bit (push_bit 8 a) n \<or> \<not> bit b n" for n
    by (subst b [symmetric]) (auto simp: bit_push_bit_iff bit_take_bit_iff)
  then have "push_bit 8 a + b = push_bit 8 a OR b" by (rule disjunctive_add)
  then show ?thesis by (simp add: push_bit_eq_mult)
qed

lemma byte_at_bound: "byte_at s i < 256"
  by (simp add: byte_at_def)

lemma foldl_be_bytes: "foldl (\<lambda>a b. 256 * a + b) a (be_bytes k n) = a * 256 ^ k + n mod 256 ^ k"
proof (induction k arbitrary: a)
  case (Suc k)
  have "be_bytes (Suc k) n = (n div 256 ^ k mod 256) # be_bytes k n" by (simp add: be_bytes_def)
  moreover have "n mod 256 ^ Suc k = 256 ^ k * (n div 256 ^ k mod 256) + n mod 256 ^ k"
    using mod_mult2_eq [of n "256 ^ k" 256] by (simp add: mult.commute)
  ultimately show ?case using Suc.IH [of "256 * a + n div 256 ^ k mod 256"]
    by (simp add: algebra_simps)
qed (simp add: be_bytes_def)

lemma foldl_words:
  "\<forall>b \<in> set bs. b < 256 \<Longrightarrow>
   foldl (\<lambda>p b. push_bit 8 p OR (word_of_nat b :: 64 word)) (word_of_nat a) bs =
   word_of_nat (foldl (\<lambda>a b. 256 * a + b) a bs)"
proof (induction bs arbitrary: a)
  case (Cons b bs)
  have "push_bit 8 (word_of_nat a) OR (word_of_nat b :: 64 word) = word_of_nat (256 * a + b)"
    using Cons.prems push_or_byte [of b "word_of_nat a"] by (simp add: mult.commute)
  with Cons.IH [of "256 * a + b"] Cons.prems show ?case by (simp del: of_nat_add of_nat_mult)
qed simp

lemma be_bytes_bound: "\<forall>b \<in> set (be_bytes k n). b < 256"
  by (auto simp: be_bytes_def)

lemma length_be_bytes [simp]: "length (be_bytes k n) = k"
  by (simp add: be_bytes_def)

lemma and_ff: "(x::nat) AND 0xFF = x mod 256"
proof -
  have "x AND mask 8 = x mod 256" by (simp add: take_bit_eq_mod flip: take_bit_eq_mask)
  then show ?thesis by (simp add: mask_eq_exp_minus_1)
qed

lemma and_7f: "(x::nat) AND 0x7F = x mod 128"
proof -
  have "x AND mask 7 = x mod 128" by (simp add: take_bit_eq_mod flip: take_bit_eq_mask)
  then show ?thesis by (simp add: mask_eq_exp_minus_1)
qed

lemma and_80:
  assumes "x < 128"
  shows "(128 + x::nat) AND 0x80 \<noteq> 0"
proof -
  have "(128 + x) div 2 ^ 7 = 1" using assms by simp
  then have "bit (128 + x) 7" by (simp only: bit_iff_odd) simp
  moreover have "bit (0x80::nat) 7" by (simp add: bit_iff_odd)
  ultimately have "bit ((128 + x) AND 0x80) 7" by (simp only: bit_and_iff)
  moreover have "\<not> bit (0::nat) 7" by simp
  ultimately show ?thesis by metis
qed

lemma be_bytes_2: "be_bytes 2 n = [n div 256 mod 256, n mod 256]"
  by (simp add: be_bytes_def numeral_2_eq_2)

lemma be_bytes_8: "be_bytes 8 n = map (\<lambda>i. drop_bit (i * 8) n AND 0xFF) [7, 6, 5, 4, 3, 2, 1, 0]"
proof -
  have "(256::nat) ^ i = 2 ^ (i * 8)" for i
    using power_mult [of "2::nat" 8 i] by (simp add: mult.commute)
  then show ?thesis by (simp add: be_bytes_def upt_rec and_ff drop_bit_eq_div)
qed

text \<open>The frame \<open>sendTextFrame\<close> builds is the one of RFC 6455.\<close>

lemma text_frame_eq:
  "text_frame msg = char_of (0x81::nat) # map char_of (length_field 0 (length msg)) @ msg"
  by (simp add: text_frame_def length_field_def be_bytes_2 be_bytes_8 and_ff drop_bit_eq_div Let_def del: of_nat_numeral)

lemma byte_at_simps [simp]:
  "byte_at (c # s) 0 = of_char c" "byte_at (c # s) (Suc i) = byte_at s i"
  "byte_at (c # s) 1 = byte_at s 0" "byte_at (c # s) (numeral k) = byte_at s (pred_numeral k)"
  by (simp_all add: byte_at_def)

lemma byte_at_bytes: "i < length bs \<Longrightarrow> \<forall>b \<in> set bs. b < 256 \<Longrightarrow> byte_at (map char_of bs @ t) i = bs ! i"
  by (simp add: byte_at_def nth_append)

lemma eight_bytes:
  assumes "\<And>i. i < 8 \<Longrightarrow> f i = be_bytes 8 n ! i"
  shows "map f [0, 1, 2, 3, 4, 5, 6, 7] = be_bytes 8 n"
proof -
  have "[0, 1, 2, 3, 4, 5, 6, 7] = [0..<8::nat]" by (simp add: upt_rec)
  moreover have "map f [0..<8] = map ((!) (be_bytes 8 n)) [0..<8]" using assms by simp
  moreover have "map ((!) (be_bytes 8 n)) [0..<8] = be_bytes 8 n" using map_nth [of "be_bytes 8 n"] by simp
  ultimately show ?thesis by simp
qed

lemma unat64: "k < 2 ^ 64 \<Longrightarrow> unat (word_of_nat k :: 64 word) = k"
  by (simp add: unat_of_nat)

lemma frame_length_field:
  assumes "n < 2 ^ 64" "fl = 0 \<or> fl = 128"
  shows "frame_length (c # map char_of (length_field fl n) @ t) =
    Some (1 + length (length_field fl n), word_of_nat n)"
proof -
  consider "n \<le> 125" | "125 < n" "n \<le> 65535" | "65535 < n" by linarith
  then show ?thesis
  proof cases
    case 1
    with assms(2) show ?thesis by (auto simp: frame_length_def length_field_def and_7f Let_def)
  next
    case 2
    have "n div 256 mod 256 * 256 + n mod 256 = n"
      using 2 div_less_dividend [of 256 n] by (simp add: mod_less div_less_iff_less_mult)
    then have "push_bit 8 (n div 256 mod 256) OR (n mod 256) = n"
      using push_or_byte_nat [of "n mod 256" "n div 256 mod 256"] by simp
    with 2 assms(2) show ?thesis
      by (auto simp: frame_length_def length_field_def and_7f be_bytes_2 Let_def)
  next
    case 3
    define s where "s = c # map char_of (length_field fl n) @ t"
    have len7: "byte_at s 1 AND 0x7F = 127"
      using 3 assms(2) by (auto simp: s_def length_field_def and_7f)
    have "byte_at s (2 + i) = be_bytes 8 n ! i" if "i < 8" for i
      using 3 that byte_at_bytes [of i "be_bytes 8 n" t] be_bytes_bound
      by (simp add: s_def length_field_def numeral_2_eq_2)
    from eight_bytes [of "\<lambda>i. byte_at s (2 + i)", OF this]
    have bytes: "map (\<lambda>i. byte_at s (2 + i)) [0, 1, 2, 3, 4, 5, 6, 7] = be_bytes 8 n" .
    have "read_len64 s 2 = foldl (\<lambda>p b. push_bit 8 p OR (word_of_nat b :: 64 word)) (word_of_nat 0)
        (map (\<lambda>i. byte_at s (2 + i)) [0, 1, 2, 3, 4, 5, 6, 7])"
      by (simp add: read_len64_def)
    also have "\<dots> = word_of_nat n"
      unfolding bytes foldl_words [OF be_bytes_bound] foldl_be_bytes using assms(1) by simp
    finally have "read_len64 s 2 = word_of_nat n" .
    moreover have "2 + 8 \<le> length s" using 3 by (simp add: s_def length_field_def)
    ultimately have "frame_length s = Some (10, word_of_nat n)"
      using len7 by (simp add: frame_length_def Let_def)
    with 3 show ?thesis by (simp add: s_def length_field_def)
  qed
qed

section \<open>Properties\<close>





text \<open>C39. The sum of the check wraps: a frame whose 64-bit length field is within \<open>pos + 4 = 14\<close> of
  \<open>2 ^ 64\<close> passes the test for a complete frame with no payload at all in the buffer, and the string
  that is to hold it cannot be reserved: the parser raises \<open>std::length_error\<close> instead of waiting for
  more data. A frame with a length that is too large but does not wrap is answered with \<open>false\<close>.\<close>

theorem frame_length_wraps:
  assumes "65535 < n" "n < 2 ^ 64" "length key = 4" "length rest < n" "length rest + 14 < 2 ^ 63"
  shows "parseWebSocketFrame (char_of first # map char_of (length_field 128 n) @ key @ rest) =
    (if 2 ^ 64 \<le> 14 + n then Inl Length_error else Inr None)"
proof -
  define s where "s = char_of first # map char_of (length_field 128 n) @ key @ rest"
  have fl: "frame_length s = Some (10, word_of_nat n)"
    using assms(1) unfolding s_def by (subst frame_length_field [OF assms(2)]) (simp_all add: length_field_def)
  have "byte_at s 1 = 128 + 127" using assms(1) by (simp add: s_def length_field_def)
  then have masked: "byte_at s 1 AND 0x80 \<noteq> 0" using and_80 [of 127] by simp
  have len: "length s = 14 + length rest" using assms(1,3) by (simp add: s_def length_field_def)
  have ne: "s \<noteq> []" by (simp add: s_def)
  have sum: "word_of_nat (10 + 4) + word_of_nat n = (word_of_nat (14 + n) :: 64 word)" by simp
  have us: "unat (word_of_nat (length s) :: 64 word) = 14 + length rest"
    using unat64 [of "length s"] assms(5) len by simp
  have "parseWebSocketFrame s = Inl Length_error" if "2 ^ 64 \<le> 14 + n"
  proof -
    have "unat (word_of_nat (14 + n) :: 64 word) = 14 + n - 2 ^ 64"
      using that assms(2) le_mod_geq [of "2 ^ 64" "14 + n"] by (simp add: unat_of_nat del: of_nat_add)
    then have "\<not> (word_of_nat (length s) :: 64 word) < word_of_nat (10 + 4) + word_of_nat n"
      unfolding sum using us assms(2) by (simp add: word_less_nat_alt del: of_nat_add)
    moreover have "string_max_size < (word_of_nat n :: 64 word)"
      using that assms(2) by (simp add: word_less_nat_alt string_max_size_def unat_of_nat)
    ultimately show ?thesis using fl masked len ne by (simp add: parseWebSocketFrame_def Let_def)
  qed
  moreover have "parseWebSocketFrame s = Inr None" if "14 + n < 2 ^ 64"
  proof -
    have "unat (word_of_nat (14 + n) :: 64 word) = 14 + n" using that by (simp add: unat64 del: of_nat_add)
    then have "(word_of_nat (length s) :: 64 word) < word_of_nat (10 + 4) + word_of_nat n"
      unfolding sum using us that assms(4) by (simp add: word_less_nat_alt del: of_nat_add)
    then show ?thesis using fl masked len ne by (simp add: parseWebSocketFrame_def Let_def)
  qed
  ultimately show ?thesis by (simp add: s_def)
qed

theorem frame_length_wraps_witness:
  "parseWebSocketFrame (char_of (0x81::nat) # map char_of (length_field 128 (2 ^ 64 - 1)) @ ''KEYS'' @ ''x'') = Inl Length_error"
  using frame_length_wraps [of "2 ^ 64 - 1" "''KEYS''" "''x''" "0x81"] by simp

end
