(* ===== verification/Websocket_Conn.thy ===== *)
theory Websocket_Conn
  imports Base_Conn Websocket_Frame Crypto_Utils Session_Manager Router Server_Config
begin

text \<open>
  WebSocket connections: \<open>src/conn/websocket/websocket_conn.h\<close>, \<open>websocket_conn.cpp\<close>,
  \<open>websocket_conn_manager.h\<close> and \<open>websocket_conn_manager.cpp\<close>.

  The two regular expressions are matched the way \<open>std::regex_search\<close> does (leftmost, greedy, with
  backtracking): a pattern is a list of character classes, each taken once or as often as possible, with a flag that
  says whether its text belongs to the captured group.
\<close>

section \<open>Regular expressions\<close>

datatype re_item = One "char \<Rightarrow> bool" | Many "char \<Rightarrow> bool"

primrec first_some :: "'a option list \<Rightarrow> 'a option" where
  "first_some [] = None"
| "first_some (x # xs) = (case x of None \<Rightarrow> first_some xs | Some y \<Rightarrow> Some y)"

text \<open>The captured text of the first way to match at the beginning of the string.\<close>

primrec re_match :: "(bool \<times> re_item) list \<Rightarrow> string \<Rightarrow> string option" where
  "re_match [] s = Some []"
| "re_match (it # r) s =
     (case snd it of
        One p \<Rightarrow>
          (case s of
             [] \<Rightarrow> None
           | c # s' \<Rightarrow> if p c then map_option (\<lambda>t. (if fst it then [c] else []) @ t) (re_match r s') else None)
      | Many p \<Rightarrow>
          first_some (map (\<lambda>k. map_option (\<lambda>t. (if fst it then take k s else []) @ t) (re_match r (drop k s)))
            (rev [0..<Suc (length (takeWhile p s))])))"

fun regex_search :: "(bool \<times> re_item) list \<Rightarrow> string \<Rightarrow> string option" where
  "regex_search re [] = re_match re []"
| "regex_search re (c # cs) = (case re_match re (c # cs) of None \<Rightarrow> regex_search re cs | Some t \<Rightarrow> Some t)"

definition lit :: "string \<Rightarrow> (bool \<times> re_item) list" where
  "lit s = map (\<lambda>c. (False, One (\<lambda>x. x = c))) s"

text \<open>\<open>GET\s+[^\s]*[?&]sessionId=([^& ]+)\<close> and \<open>GET\s+(/[^ ?]*)[^ ]*\s+HTTP\<close>\<close>

definition session_regex :: "(bool \<times> re_item) list" where
  "session_regex =
     lit ''GET'' @ [(False, One is_space), (False, Many is_space), (False, Many (\<lambda>c. \<not> is_space c)),
       (False, One (\<lambda>c. c = CHR ''?'' \<or> c = CHR ''&''))] @ lit ''sessionId='' @
     [(True, One (\<lambda>c. c \<noteq> CHR ''&'' \<and> c \<noteq> CHR '' '')), (True, Many (\<lambda>c. c \<noteq> CHR ''&'' \<and> c \<noteq> CHR '' ''))]"

definition path_regex :: "(bool \<times> re_item) list" where
  "path_regex =
     lit ''GET'' @ [(False, One is_space), (False, Many is_space), (True, One (\<lambda>c. c = CHR ''/'')),
       (True, Many (\<lambda>c. c \<noteq> CHR '' '' \<and> c \<noteq> CHR ''?'')), (False, Many (\<lambda>c. c \<noteq> CHR '' '')),
       (False, One is_space), (False, Many is_space)] @ lit ''HTTP''"

definition extractSessionIdFromRequest :: "string \<Rightarrow> string" where
  "extractSessionIdFromRequest request = (case regex_search session_regex request of None \<Rightarrow> [] | Some s \<Rightarrow> s)"

definition extractPathFromRequest :: "string \<Rightarrow> string" where
  "extractPathFromRequest request = (case regex_search path_regex request of None \<Rightarrow> ''/'' | Some s \<Rightarrow> s)"

section \<open>The table of sessions\<close>

record ws_manager =
  m_session_to_fd :: "string \<rightharpoonup> int"
  m_fd_to_session :: "int \<rightharpoonup> string"

definition ws_manager_new :: ws_manager where
  "ws_manager_new = \<lparr>m_session_to_fd = Map.empty, m_fd_to_session = Map.empty\<rparr>"

definition bindSession :: "ws_manager \<Rightarrow> int \<Rightarrow> string \<Rightarrow> ws_manager" where
  "bindSession m fd sessionId =
     m\<lparr>m_session_to_fd := (m_session_to_fd m)(sessionId \<mapsto> fd),
       m_fd_to_session := (m_fd_to_session m)(fd \<mapsto> sessionId)\<rparr>"

definition removeFd :: "ws_manager \<Rightarrow> int \<Rightarrow> ws_manager" where
  "removeFd m fd =
     (case m_fd_to_session m fd of
        None \<Rightarrow> m
      | Some s \<Rightarrow> m\<lparr>m_session_to_fd := (m_session_to_fd m)(s := None),
                     m_fd_to_session := (m_fd_to_session m)(fd := None)\<rparr>)"

definition isSessionAlive :: "session_manager \<Rightarrow> string \<Rightarrow> bool" where
  "isSessionAlive sm sessionId = isSessionIdValid sm sessionId"

definition getSessionIdByFd :: "ws_manager \<Rightarrow> int \<Rightarrow> string" where
  "getSessionIdByFd m fd = (case m_fd_to_session m fd of None \<Rightarrow> [] | Some s \<Rightarrow> s)"

section \<open>The connection\<close>

datatype ws_status = HANDSHAKE | CONNECTED

record ws_conn =
  ws_sockfd :: int
  ws_address :: string
  ws_is_closed :: bool
  ws_m_status :: ws_status
  ws_path :: string
  ws_read_buf :: string
  ws_write_buf :: string

definition ws_conn_new :: ws_conn where
  "ws_conn_new = \<lparr>ws_sockfd = -1, ws_address = [], ws_is_closed = False, ws_m_status = HANDSHAKE, ws_path = [],
     ws_read_buf = [], ws_write_buf = []\<rparr>"

definition ws_init :: "ws_conn \<Rightarrow> int \<Rightarrow> string \<Rightarrow> ws_conn" where
  "ws_init c sockfd addr =
     (if ws_sockfd c \<noteq> -1 \<and> sockfd = ws_sockfd c \<and> \<not> ws_is_closed c then c
      else c\<lparr>ws_sockfd := sockfd, ws_address := addr, ws_is_closed := False, ws_m_status := HANDSHAKE,
             ws_read_buf := [], ws_write_buf := []\<rparr>)"

text \<open>\<open>m_is_closed.exchange(true)\<close> gives the old value: the guard lets only a second call through.\<close>

definition ws_closeConn :: "ws_conn \<Rightarrow> ws_manager \<Rightarrow> ws_conn \<times> ws_manager" where
  "ws_closeConn c m =
     (let old = ws_is_closed c; c = c\<lparr>ws_is_closed := True\<rparr>
      in if \<not> old then (c, m)
         else if ws_sockfd c \<noteq> -1 then (c\<lparr>ws_sockfd := -1\<rparr>, removeFd m (ws_sockfd c))
         else (c, m))"

definition ws_isClosed :: "ws_conn \<Rightarrow> bool" where
  "ws_isClosed c = False"

text \<open>\<open>recv\<close> into the local array of 4096 bytes, appended to the buffer.\<close>

fun ws_read_et :: "ws_conn \<Rightarrow> recv_outcome list \<Rightarrow> bool \<times> ws_conn" where
  "ws_read_et c [] = (True, c)"
| "ws_read_et c (Recv_would_block # _) = (True, c)"
| "ws_read_et c (Recv_error # _) = (False, c)"
| "ws_read_et c (Peer_closed # _) = (False, c)"
| "ws_read_et c (Received s # outs) =
     (if s = [] then (False, c) else ws_read_et (c\<lparr>ws_read_buf := ws_read_buf c @ take 4096 s\<rparr>) outs)"

definition ws_read :: "int \<Rightarrow> ws_conn \<Rightarrow> recv_outcome list \<Rightarrow> bool \<times> ws_conn" where
  "ws_read mode c outs =
     (if ws_sockfd c = -1 then (False, c)
      else if mode = LT then
        (case outs of
           Received s # _ \<Rightarrow>
             if s = [] then (False, c) else (True, c\<lparr>ws_read_buf := ws_read_buf c @ take 4096 s\<rparr>)
         | _ \<Rightarrow> (False, c))
      else if mode = ET then ws_read_et c outs
      else (False, c))"

text \<open>The loop of \<open>write\<close>: here a \<open>send\<close> that takes nothing is tried again.\<close>

fun ws_send_all :: "string \<Rightarrow> send_outcome list \<Rightarrow> write_status \<times> string" where
  "ws_send_all [] outs = (OK, [])"
| "ws_send_all (c # cs) [] = (AGAIN, [])"
| "ws_send_all (c # cs) (Send_would_block # outs) = (AGAIN, [])"
| "ws_send_all (c # cs) (Send_error # outs) = (ERROR, [])"
| "ws_send_all (c # cs) (Sent n # outs) =
     (case ws_send_all (drop n (c # cs)) outs of (st, wire) \<Rightarrow> (st, take n (c # cs) @ wire))"

definition ws_write :: "ws_conn \<Rightarrow> send_outcome list \<Rightarrow> write_status \<times> string \<times> ws_conn" where
  "ws_write c outs =
     (if ws_sockfd c = -1 \<or> ws_is_closed c then (ERROR, [], c)
      else (case ws_send_all (ws_write_buf c) outs of
              (st, wire) \<Rightarrow> if st = OK then (OK, wire, c\<lparr>ws_write_buf := []\<rparr>) else (st, wire, c)))"

definition computeAcceptKey :: "openssl \<Rightarrow> string \<Rightarrow> string" where
  "computeAcceptKey ssl client_key =
     (let GUID = ''258EAFA5-E914-47DA-95CA-C5AB0DC85B11'';
          to_hash = client_key @ GUID
      in base64Encode ssl (sha1 ssl to_hash))"

definition handshake_response :: "string \<Rightarrow> string" where
  "handshake_response accept_key =
     ''HTTP/1.1 101 Switching Protocols'' @ CRLF @ ''Upgrade: websocket'' @ CRLF @ ''Connection: Upgrade'' @ CRLF @
     ''Sec-WebSocket-Accept: '' @ accept_key @ CRLF @ CRLF"

definition handleHandshake :: "openssl \<Rightarrow> ws_conn \<Rightarrow> bool \<times> ws_conn" where
  "handleHandshake ssl c =
     (if ws_m_status c = CONNECTED then (False, c)
      else case find_sub (CRLF @ CRLF) (ws_read_buf c) of
        None \<Rightarrow> (False, c)
      | Some _ \<Rightarrow>
          (let key_prefix = ''Sec-WebSocket-Key: ''
           in case find_sub key_prefix (ws_read_buf c) of
                None \<Rightarrow> (False, c)
              | Some key_pos \<Rightarrow>
                  (let tail = drop (key_pos + length key_prefix) (ws_read_buf c)
                   in case find_sub CRLF tail of
                        None \<Rightarrow> (False, c)
                      | Some n \<Rightarrow>
                          (let client_key = take n tail;
                               accept_key = computeAcceptKey ssl client_key
                           in (True, c\<lparr>ws_write_buf := ws_write_buf c @ handshake_response accept_key,
                                      ws_m_status := CONNECTED\<rparr>)))))"

definition sendTextFrame :: "ws_conn \<Rightarrow> string \<Rightarrow> ws_conn" where
  "sendTextFrame c msg = c\<lparr>ws_write_buf := ws_write_buf c @ text_frame msg\<rparr>"

text \<open>\<open>process\<close>: a handler of the router gets the connection, the session id and the message, and gives back
  the connection and the rest of the state.\<close>

definition ws_process ::
  "openssl \<Rightarrow> ('wh \<Rightarrow> ws_conn \<Rightarrow> string \<Rightarrow> string \<Rightarrow> ws_conn \<times> 's \<Rightarrow> (ws_conn \<times> 's) result) \<Rightarrow> ('h, 'wh) router \<Rightarrow>
   ws_conn \<Rightarrow> ws_manager \<Rightarrow> 's \<Rightarrow> (bool \<times> ws_conn \<times> ws_manager \<times> 's) result" where
  "ws_process ssl run rt c m s =
     (case ws_m_status c of
        HANDSHAKE \<Rightarrow>
          (let (ok, c) = handleHandshake ssl c
           in if \<not> ok then Inr (False, c, m, s)
              else (let sessionId = extractSessionIdFromRequest (ws_read_buf c);
                        c = c\<lparr>ws_path := extractPathFromRequest (ws_read_buf c)\<rparr>;
                        m = (if sessionId \<noteq> [] then bindSession m (ws_sockfd c) sessionId else m)
                    in Inr (True, c\<lparr>ws_read_buf := []\<rparr>, m, s)))
      | CONNECTED \<Rightarrow>
          rbind (parseWebSocketFrame (ws_read_buf c)) (\<lambda>frame.
            case frame of
              None \<Rightarrow> Inr (False, c, m, s)
            | Some (msg, left) \<Rightarrow>
                (let c = c\<lparr>ws_read_buf := left\<rparr>;
                     sessionId = getSessionIdByFd m (ws_sockfd c)
                 in rbind (ws_dispatch run rt (ws_path c) c sessionId msg (c, s)) (\<lambda>(c, s).
                    Inr (True, c, m, s)))))"

text \<open>\<open>sendToSession\<close>: \<open>getConn\<close> looks a connection up by descriptor; the result has the connection with
  the frame appended.\<close>

definition sendToSession ::
  "ws_manager \<Rightarrow> (int \<Rightarrow> ws_conn option) \<Rightarrow> string \<Rightarrow> string \<Rightarrow> (int \<times> ws_conn) option" where
  "sendToSession m getConn sessionId msg =
     (case m_session_to_fd m sessionId of
        None \<Rightarrow> None
      | Some fd \<Rightarrow>
          (case getConn fd of
             None \<Rightarrow> None
           | Some c \<Rightarrow> if ws_isClosed c then None else Some (fd, sendTextFrame c msg)))"

section \<open>Lemmas on matching\<close>

lemma first_some_unique:
  assumes "k \<in> set ks" "f k = Some y" "\<And>j. j \<in> set ks \<Longrightarrow> j \<noteq> k \<Longrightarrow> f j = None"
  shows "first_some (map f ks) = Some y"
  using assms
proof (induction ks)
  case (Cons x xs)
  show ?case
  proof (cases "x = k")
    case False
    then have "f x = None" using Cons.prems by simp
    with Cons False show ?thesis by simp
  qed (use Cons.prems in simp)
qed simp

lemma re_match_lit: "re_match (lit s @ r) (s @ t) = re_match r t"
proof (induction s)
  case (Cons c s)
  have "map_option ((@) []) (re_match r t) = re_match r t" by (cases "re_match r t") simp_all
  with Cons show ?case by (simp add: lit_def)
qed (simp add: lit_def)

lemma re_match_Many_max:
  assumes "\<forall>c \<in> set w. p c" "t = [] \<or> \<not> p (hd t)" "re_match r t = Some y"
  shows "re_match ((cap, Many p) # r) (w @ t) = Some ((if cap then w else []) @ y)"
proof -
  have tw: "takeWhile p w = w" using assms(1) by (simp add: takeWhile_eq_all_conv)
  have "length (takeWhile p (w @ t)) = length w"
    using assms(1,2) by (cases t) (simp_all add: takeWhile_append tw)
  then show ?thesis using assms(3) by simp
qed

lemma regex_search_here: "re_match re s = Some t \<Longrightarrow> regex_search re s = Some t"
  by (cases s) simp_all

lemma re_match_One: "p c \<Longrightarrow> re_match r s = Some y \<Longrightarrow>
    re_match ((cap, One p) # r) (c # s) = Some ((if cap then [c] else []) @ y)"
  by simp

declare re_match.simps(2) [simp del]

definition path_char :: "char \<Rightarrow> bool" where
  "path_char c \<longleftrightarrow> \<not> is_space c \<and> c \<noteq> CHR ''?'' \<and> c \<noteq> CHR ''&''"

lemma path_regex_match:
  assumes "\<forall>c \<in> set w. path_char c" "\<forall>c \<in> set q. c \<noteq> CHR '' ''" "q = [] \<or> hd q = CHR ''?''"
  shows "re_match path_regex (''GET /'' @ w @ q @ '' HTTP'' @ rest) = Some (CHR ''/'' # w)"
proof -
  have sp: "is_space (CHR '' '')" "\<not> is_space (CHR ''/'')" "\<not> is_space (CHR ''H'')" by (simp_all add: is_space_def)
  have "re_match (lit ''HTTP'') (''HTTP'' @ rest) = Some []" using re_match_lit [of "''HTTP''" "[]" rest] by simp
  from re_match_Many_max [of "[]" is_space, OF _ _ this]
  have "re_match ((False, Many is_space) # lit ''HTTP'') (''HTTP'' @ rest) = Some []" using sp by simp
  from re_match_One [of is_space "CHR '' ''", OF sp(1) this]
  have 1: "re_match ((False, One is_space) # (False, Many is_space) # lit ''HTTP'') (CHR '' '' # ''HTTP'' @ rest) = Some []"
    by simp
  from re_match_Many_max [of q "\<lambda>c. c \<noteq> CHR '' ''", OF assms(2) _ this]
  have 2: "re_match ((False, Many (\<lambda>c. c \<noteq> CHR '' '')) # (False, One is_space) # (False, Many is_space) # lit ''HTTP'')
      (q @ CHR '' '' # ''HTTP'' @ rest) = Some []" by simp
  have w: "\<forall>c \<in> set w. c \<noteq> CHR '' '' \<and> c \<noteq> CHR ''?''" using assms(1) sp(1) by (auto simp: path_char_def)
  from re_match_Many_max [OF w _ 2, of True] assms(3)
  have 3: "re_match ((True, Many (\<lambda>c. c \<noteq> CHR '' '' \<and> c \<noteq> CHR ''?'')) # (False, Many (\<lambda>c. c \<noteq> CHR '' '')) #
      (False, One is_space) # (False, Many is_space) # lit ''HTTP'') (w @ q @ CHR '' '' # ''HTTP'' @ rest) = Some w"
    by (cases q) simp_all
  from re_match_One [of "\<lambda>c. c = CHR ''/''", OF _ this, of "CHR ''/''" True]
  have 4: "re_match ((True, One (\<lambda>c. c = CHR ''/'')) # (True, Many (\<lambda>c. c \<noteq> CHR '' '' \<and> c \<noteq> CHR ''?'')) #
      (False, Many (\<lambda>c. c \<noteq> CHR '' '')) # (False, One is_space) # (False, Many is_space) # lit ''HTTP'')
      (CHR ''/'' # w @ q @ CHR '' '' # ''HTTP'' @ rest) = Some (CHR ''/'' # w)" by simp
  from re_match_Many_max [of "[]" is_space, OF _ _ this, of False] sp(2)
  have 5: "re_match ((False, Many is_space) # (True, One (\<lambda>c. c = CHR ''/'')) # (True, Many (\<lambda>c. c \<noteq> CHR '' '' \<and> c \<noteq> CHR ''?'')) #
      (False, Many (\<lambda>c. c \<noteq> CHR '' '')) # (False, One is_space) # (False, Many is_space) # lit ''HTTP'')
      (CHR ''/'' # w @ q @ CHR '' '' # ''HTTP'' @ rest) = Some (CHR ''/'' # w)" by simp
  from re_match_One [of is_space "CHR '' ''", OF sp(1) this, of False] show ?thesis
    using re_match_lit [of "''GET''"] unfolding path_regex_def by simp
qed

text \<open>The place where the greedy part of the first pattern has to stop is the only question mark.\<close>

lemma session_regex_match:
  assumes "\<forall>c \<in> set w. path_char c" "\<forall>c \<in> set sid. path_char c" "sid \<noteq> []"
  shows "re_match session_regex (''GET /'' @ w @ ''?sessionId='' @ sid @ '' HTTP'' @ rest) = Some sid"
proof -
  define cls where "cls = (\<lambda>c. c \<noteq> CHR ''&'' \<and> c \<noteq> CHR '' '')"
  define tl1 where "tl1 = [(True, One cls), (True, Many cls)]"
  define tl2 where "tl2 = (False, One (\<lambda>c. c = CHR ''?'' \<or> c = CHR ''&'')) # lit ''sessionId='' @ tl1"
  define u where "u = CHR ''/'' # w @ ''?sessionId='' @ sid"
  define z where "z = '' HTTP'' @ rest"
  have sp: "is_space (CHR '' '')" "\<not> is_space (CHR ''/'')" by (simp_all add: is_space_def)
  obtain a sid' where sid: "sid = a # sid'" using assms(3) by (cases sid) auto
  have cls: "\<forall>c \<in> set sid. cls c" using assms(2) sp(1) by (auto simp: path_char_def cls_def)
  have "re_match [(True, Many cls)] (sid' @ z) = Some sid'"
    using re_match_Many_max [of sid' cls z "[]" "[]" True] cls by (simp add: sid z_def cls_def)
  from re_match_One [of cls a, OF _ this, of True] cls have 1: "re_match tl1 (sid @ z) = Some sid"
    by (simp add: tl1_def sid)
  have at: "re_match tl2 (''?sessionId='' @ sid @ z) = Some sid"
    using re_match_One [of _ _ _ "''sessionId='' @ sid @ z" sid False] re_match_lit [of "''sessionId=''" tl1 "sid @ z"] 1
    unfolding tl2_def by simp
  have nosp: "\<forall>c \<in> set u. \<not> is_space c"
    using assms(1,2) by (auto simp: u_def path_char_def is_space_def)
  have tw: "takeWhile (\<lambda>c. \<not> is_space c) (u @ z) = u"
    using nosp sp(1) by (simp add: takeWhile_append2 z_def)
  have here: "re_match tl2 (drop (Suc (length w)) (u @ z)) = Some sid" using at by (simp add: u_def)
  have nowhere: "re_match tl2 (drop k (u @ z)) = None" if k: "k \<le> length u" "k \<noteq> Suc (length w)" for k
  proof -
    have "(u @ z) ! k \<noteq> CHR ''?'' \<and> (u @ z) ! k \<noteq> CHR ''&''"
    proof -
      consider "k < Suc (length w)" | "Suc (length w) < k" "k < length u" | "k = length u" using k by linarith
      then show ?thesis
      proof cases
        case 1
        have "u @ z = (CHR ''/'' # w) @ ''?sessionId='' @ sid @ z" by (simp add: u_def)
        then have "(u @ z) ! k = (CHR ''/'' # w) ! k"
          using nth_append_left [of k "CHR ''/'' # w"] 1 by (simp only: length_Cons)
        moreover have "(CHR ''/'' # w) ! k \<in> set (CHR ''/'' # w)" using 1 by (intro nth_mem) simp
        moreover have "\<forall>c \<in> set (CHR ''/'' # w). c \<noteq> CHR ''?'' \<and> c \<noteq> CHR ''&''"
          using assms(1) by (simp add: path_char_def)
        ultimately show ?thesis by metis
      next
        case 2
        define pre where "pre = CHR ''/'' # w @ ''?''"
        define mid where "mid = ''sessionId='' @ sid"
        have u2: "u @ z = pre @ mid @ z" "length u = length pre + length mid" "length pre = Suc (Suc (length w))"
          by (simp_all add: u_def pre_def mid_def)
        have lt: "k - length pre < length mid" "length pre \<le> k" using 2 u2 by linarith+
        then have "(u @ z) ! k = mid ! (k - length pre)"
          unfolding u2(1) by (simp add: nth_append)
        with lt(1) have "(u @ z) ! k \<in> set (''sessionId='' @ sid)" unfolding mid_def [symmetric] by simp
        moreover have "\<forall>c \<in> set (''sessionId='' @ sid). c \<noteq> CHR ''?'' \<and> c \<noteq> CHR ''&''"
          using assms(2) by (simp add: path_char_def)
        ultimately show ?thesis by metis
      next
        case 3
        then show ?thesis by (simp add: z_def)
      qed
    qed
    moreover have "k < length (u @ z)" using k by (simp add: z_def)
    ultimately show ?thesis
      using Cons_nth_drop_Suc [of k "u @ z"] by (auto simp: tl2_def re_match.simps(2) split: list.split)
  qed
  have 2: "re_match ((False, Many (\<lambda>c. \<not> is_space c)) # tl2) (u @ z) = Some sid"
  proof -
    have "first_some (map (\<lambda>k. map_option (\<lambda>t. (if False then take k (u @ z) else []) @ t) (re_match tl2 (drop k (u @ z))))
        (rev [0..<Suc (length u)])) = Some sid"
    proof (rule first_some_unique [of "Suc (length w)"])
      have "Suc (length w) \<le> length u" by (simp add: u_def)
      then show "Suc (length w) \<in> set (rev [0..<Suc (length u)])" by (auto simp: le_less)
      show "map_option (\<lambda>t. (if False then take (Suc (length w)) (u @ z) else []) @ t)
          (re_match tl2 (drop (Suc (length w)) (u @ z))) = Some sid" unfolding here by simp
      fix j assume "j \<in> set (rev [0..<Suc (length u)])" "j \<noteq> Suc (length w)"
      then have "re_match tl2 (drop j (u @ z)) = None" by (intro nowhere) auto
      then show "map_option (\<lambda>t. (if False then take j (u @ z) else []) @ t) (re_match tl2 (drop j (u @ z))) = None"
        by (simp only: option.map)
    qed
    then show ?thesis by (simp only: re_match.simps(2) snd_conv fst_conv re_item.case tw)
  qed
  from re_match_Many_max [of "[]" is_space, OF _ _ this, of False] sp(2)
  have "re_match ((False, Many is_space) # (False, Many (\<lambda>c. \<not> is_space c)) # tl2) (u @ z) = Some sid"
    by (simp add: u_def)
  from re_match_One [of is_space "CHR '' ''", OF sp(1) this, of False]
  have "re_match ((False, One is_space) # (False, Many is_space) # (False, Many (\<lambda>c. \<not> is_space c)) # tl2) (CHR '' '' # u @ z) = Some sid"
    by simp
  then show ?thesis
    using re_match_lit [of "''GET''"] unfolding session_regex_def tl2_def tl1_def cls_def u_def z_def by simp
qed

section \<open>Properties\<close>

text \<open>C38. The opening handshake: a complete request whose first \<open>Sec-WebSocket-Key\<close> line has the key \<open>k\<close>
  is answered with the 101 response that carries \<open>base64(sha1(k + GUID))\<close>, and the connection counts as
  connected.\<close>

theorem handshake_accepts:
  assumes "ws_m_status c = HANDSHAKE" "ws_read_buf c = pre @ ''Sec-WebSocket-Key: '' @ k @ CRLF @ post"
    and "find_sub ''Sec-WebSocket-Key: '' (ws_read_buf c) = Some (length pre)" "CR \<notin> set k"
    and "contains_sub (CRLF @ CRLF) (ws_read_buf c)"
  shows "handleHandshake ssl c =
    (True, c\<lparr>ws_write_buf := ws_write_buf c @ handshake_response
        (EVP_EncodeBlock ssl (SHA1 ssl (k @ ''258EAFA5-E914-47DA-95CA-C5AB0DC85B11''))),
      ws_m_status := CONNECTED\<rparr>)"
proof -
  obtain i where i: "find_sub (CRLF @ CRLF) (ws_read_buf c) = Some i"
    using assms(5) by (auto simp: contains_sub_def)
  define key_prefix where "key_prefix = ''Sec-WebSocket-Key: ''"
  have "drop (length pre + length key_prefix) (ws_read_buf c) = k @ CRLF @ post"
    using assms(2) drop_drop [of "length key_prefix" "length pre" "ws_read_buf c"]
    by (simp add: key_prefix_def [symmetric] add.commute)
  moreover have "find_sub CRLF (k @ CRLF @ post) = Some (length k)"
    using find_sub_first [OF assms(4), of "[LF]" post] by (simp add: CRLF_def)
  ultimately show ?thesis
    using assms(1,3) i unfolding handleHandshake_def key_prefix_def [symmetric] Let_def
    by (simp add: computeAcceptKey_def sha1_def)
qed

definition ws_demo_request :: string where
  "ws_demo_request = ''GET /chat?sessionId=s1 HTTP/1.1'' @ CRLF @ ''Sec-WebSocket-Key: AAAA'' @ CRLF @ CRLF"

theorem handshake_accepts_witness:
  "fst (handleHandshake demo_ssl (ws_conn_new\<lparr>ws_read_buf := ws_demo_request\<rparr>))"
proof -
  define c where "c = ws_conn_new\<lparr>ws_read_buf := ws_demo_request\<rparr>"
  define pre where "pre = ''GET /chat?sessionId=s1 HTTP/1.1'' @ CRLF"
  have buf: "ws_read_buf c = pre @ ''Sec-WebSocket-Key: '' @ ''AAAA'' @ CRLF @ CRLF"
    by (simp add: c_def ws_demo_request_def pre_def)
  have find: "find_sub ''Sec-WebSocket-Key: '' (ws_read_buf c) = Some (length pre)"
    by (simp add: c_def ws_demo_request_def pre_def CRLF_def CR_def LF_def)
  have "contains_sub (CRLF @ CRLF) (ws_read_buf c)"
    by (simp add: c_def ws_demo_request_def contains_sub_def CRLF_def CR_def LF_def)
  from handshake_accepts [OF _ buf find _ this, of demo_ssl] show ?thesis
    by (simp add: c_def ws_conn_new_def CR_def)
qed

text \<open>What the handshake extracts from the target \<open>/path?sessionId=sid\<close>: exactly the path and exactly
  the session id, for a path and an id without blanks, \<open>?\<close> and \<open>&\<close>; a target without a query gives its path.\<close>

theorem handshake_target:
  assumes "\<forall>c \<in> set w. path_char c" "\<forall>c \<in> set sid. path_char c" "sid \<noteq> []"
  shows "extractSessionIdFromRequest (''GET /'' @ w @ ''?sessionId='' @ sid @ '' HTTP'' @ rest) = sid \<and>
    extractPathFromRequest (''GET /'' @ w @ ''?sessionId='' @ sid @ '' HTTP'' @ rest) = CHR ''/'' # w \<and>
    extractPathFromRequest (''GET /'' @ w @ '' HTTP'' @ rest) = CHR ''/'' # w"
proof -
  have q: "\<forall>c \<in> set (''?sessionId='' @ sid). c \<noteq> CHR '' ''"
  proof -
    have "is_space (CHR '' '')" by (simp add: is_space_def)
    then have "\<forall>c \<in> set sid. c \<noteq> CHR '' ''" using assms(2) unfolding path_char_def by metis
    then show ?thesis by simp
  qed
  have "re_match path_regex (''GET /'' @ w @ ''?sessionId='' @ sid @ '' HTTP'' @ rest) = Some (CHR ''/'' # w)"
    using path_regex_match [OF assms(1) q, of rest] by simp
  note r1 = regex_search_here [OF this]
  have "re_match path_regex (''GET /'' @ w @ '' HTTP'' @ rest) = Some (CHR ''/'' # w)"
    using path_regex_match [OF assms(1), of "[]" rest] by simp
  note r2 = regex_search_here [OF this]
  note r3 = regex_search_here [OF session_regex_match [OF assms, of rest]]
  show ?thesis unfolding extractSessionIdFromRequest_def extractPathFromRequest_def r1 r2 r3 by simp
qed

theorem handshake_target_witness:
  "extractSessionIdFromRequest ws_demo_request = ''s1'' \<and> extractPathFromRequest ws_demo_request = ''/chat''"
proof -
  define r where "r = ''/1.1'' @ CRLF @ ''Sec-WebSocket-Key: AAAA'' @ CRLF @ CRLF"
  have eq: "ws_demo_request = ''GET /'' @ ''chat'' @ ''?sessionId='' @ ''s1'' @ '' HTTP'' @ r"
    by (simp add: ws_demo_request_def r_def)
  have p: "\<forall>c \<in> set ''chat''. path_char c" "\<forall>c \<in> set ''s1''. path_char c" "''s1'' \<noteq> ([]::string)"
    by (simp_all add: path_char_def is_space_def)
  from handshake_target [OF p] show ?thesis unfolding eq by blast
qed

text \<open>A session that reconnects loses its new connection when the old one is removed: after the
  session was bound to a second descriptor, \<open>removeFd\<close> of the first one deletes the session's entry, so
  \<open>sendToSession\<close> fails although the second descriptor is still bound to the session.\<close>

theorem rebind_lost:
  assumes "fd1 \<noteq> fd2"
  shows "sendToSession (removeFd (bindSession (bindSession m fd1 sid) fd2 sid) fd1) getConn sid msg = None \<and>
    getSessionIdByFd (removeFd (bindSession (bindSession m fd1 sid) fd2 sid) fd1) fd2 = sid"
  using assms by (simp add: sendToSession_def removeFd_def bindSession_def getSessionIdByFd_def)

theorem rebind_lost_witness:
  "sendToSession (removeFd (bindSession (bindSession ws_manager_new 4 ''s'') 5 ''s'') 4) (\<lambda>_. Some ws_conn_new) ''s'' ''hi''
     = None"
  using rebind_lost [of 4 5] by simp

text \<open>Closing: the first \<open>closeConn\<close> of an open connection only sets the flag; the descriptor stays open
  and the session bound, and \<open>isClosed\<close> still answers false. Only the second call closes the descriptor and
  removes the binding.\<close>

theorem ws_close_needs_two:
  assumes "\<not> ws_is_closed c" "ws_sockfd c \<noteq> -1"
  shows "ws_closeConn c m = (c\<lparr>ws_is_closed := True\<rparr>, m) \<and>
    \<not> ws_isClosed (fst (ws_closeConn c m)) \<and>
    (case ws_closeConn c m of (c1, m1) \<Rightarrow>
       ws_closeConn c1 m1 = (c1\<lparr>ws_sockfd := -1\<rparr>, removeFd m (ws_sockfd c)))"
  using assms by (simp add: ws_closeConn_def ws_isClosed_def Let_def)

theorem ws_close_needs_two_witness:
  "ws_sockfd (fst (ws_closeConn (ws_init ws_conn_new 9 []) ws_manager_new)) = 9"
  using ws_close_needs_two [of "ws_init ws_conn_new 9 []" ws_manager_new]
  by (simp add: ws_init_def ws_conn_new_def)

end
