(* ===== verification/Tcp_Conn.thy ===== *)
theory Tcp_Conn
  imports Websocket_Conn
begin

text \<open>
  The plain TCP connection: \<open>src/conn/tcp/tcp_conn.h\<close> and \<open>tcp_conn.cpp\<close>, a class no factory makes yet. Its functions \<open>isClosed\<close>, \<open>write\<close>,
  \<open>process\<close> and the getters have no \<open>return\<close> statement, so that a call of them is undefined (\<open>Missing_return\<close>); \<open>closeConn\<close>, which is all the
  destructor does, and \<open>setEpollWriteCallback\<close> are empty. \<open>init\<close> and \<open>read\<close> do on its buffer what \<open>WebSocketConn\<close> does on its own.
\<close>

datatype tcp_status = TCP_INIT | TCP_HANDSHAKE | TCP_CONNECTED | TCP_CLOSED

record tcp_conn =
  tcp_sockfd :: int
  tcp_address :: string
  tcp_is_closed :: bool
  tcp_m_status :: tcp_status
  tcp_read_buf :: string
  tcp_write_buf :: string
  tcp_m_keep_alive :: bool

definition TcpConn_new :: tcp_conn where
  "TcpConn_new = \<lparr>tcp_sockfd = -1, tcp_address = [], tcp_is_closed = False, tcp_m_status = TCP_HANDSHAKE,
     tcp_read_buf = [], tcp_write_buf = [],
     tcp_m_keep_alive = True\<rparr>"

definition tcp_init :: "tcp_conn \<Rightarrow> int \<Rightarrow> string \<Rightarrow> tcp_conn" where
  "tcp_init c sockfd addr =
     (if tcp_sockfd c \<noteq> -1 \<and> sockfd = tcp_sockfd c \<and> \<not> tcp_is_closed c then c
      else c\<lparr>tcp_sockfd := sockfd, tcp_address := addr, tcp_is_closed := False, tcp_m_status := TCP_HANDSHAKE,
             tcp_read_buf := [], tcp_write_buf := []\<rparr>)"

definition tcp_closeConn :: "tcp_conn \<Rightarrow> tcp_conn" where
  "tcp_closeConn c = c"

definition tcp_destroy :: "tcp_conn \<Rightarrow> tcp_conn" where
  "tcp_destroy c = tcp_closeConn c"

definition tcp_setEpollWriteCallback :: "tcp_conn \<Rightarrow> 'cb \<Rightarrow> tcp_conn" where
  "tcp_setEpollWriteCallback c cb = c"

text \<open>The functions whose bodies are empty or commented out.\<close>

definition tcp_isClosed :: "tcp_conn \<Rightarrow> bool result" where
  "tcp_isClosed c = Inl Missing_return"

definition tcp_write :: "tcp_conn \<Rightarrow> write_status result" where
  "tcp_write c = Inl Missing_return"

definition tcp_process :: "tcp_conn \<Rightarrow> bool result" where
  "tcp_process c = Inl Missing_return"

definition tcp_getSockFd :: "tcp_conn \<Rightarrow> int result" where
  "tcp_getSockFd c = Inl Missing_return"

definition tcp_getAddr :: "tcp_conn \<Rightarrow> string result" where
  "tcp_getAddr c = Inl Missing_return"

definition tcp_getKeepAlive :: "tcp_conn \<Rightarrow> bool result" where
  "tcp_getKeepAlive c = Inl Missing_return"

fun tcp_read_et :: "tcp_conn \<Rightarrow> recv_outcome list \<Rightarrow> bool \<times> tcp_conn" where
  "tcp_read_et c [] = (True, c)"
| "tcp_read_et c (Recv_would_block # _) = (True, c)"
| "tcp_read_et c (Recv_error # _) = (False, c)"
| "tcp_read_et c (Peer_closed # _) = (False, c)"
| "tcp_read_et c (Received s # outs) =
     (if s = [] then (False, c) else tcp_read_et (c\<lparr>tcp_read_buf := tcp_read_buf c @ take 4096 s\<rparr>) outs)"

definition tcp_read :: "int \<Rightarrow> tcp_conn \<Rightarrow> recv_outcome list \<Rightarrow> bool \<times> tcp_conn" where
  "tcp_read mode c outs =
     (if tcp_sockfd c = -1 then (False, c)
      else if mode = LT then
        (case outs of
           Received s # _ \<Rightarrow>
             if s = [] then (False, c) else (True, c\<lparr>tcp_read_buf := tcp_read_buf c @ take 4096 s\<rparr>)
         | _ \<Rightarrow> (False, c))
      else if mode = ET then tcp_read_et c outs
      else (False, c))"

section \<open>The same as on a WebSocket connection\<close>

definition same_stream :: "tcp_conn \<Rightarrow> ws_conn \<Rightarrow> bool" where
  "same_stream t w \<longleftrightarrow> ws_sockfd w = tcp_sockfd t \<and> ws_address w = tcp_address t \<and> ws_is_closed w = tcp_is_closed t \<and>
     ws_read_buf w = tcp_read_buf t \<and> ws_write_buf w = tcp_write_buf t"

lemma same_stream_new: "same_stream TcpConn_new ws_conn_new"
  by (simp add: same_stream_def TcpConn_new_def ws_conn_new_def)

lemma same_stream_init: "same_stream t w \<Longrightarrow> same_stream (tcp_init t fd addr) (ws_init w fd addr)"
  by (simp add: same_stream_def tcp_init_def ws_init_def)

lemma same_stream_read_et:
  "same_stream t w \<Longrightarrow> fst (tcp_read_et t outs) = fst (ws_read_et w outs) \<and> same_stream (snd (tcp_read_et t outs)) (snd (ws_read_et w outs))"
proof (induction t outs arbitrary: w rule: tcp_read_et.induct)
  case (5 c s outs)
  show ?case
  proof (cases "s = []")
    case False
    with "5.IH" [OF False, of "w\<lparr>ws_read_buf := ws_read_buf w @ take 4096 s\<rparr>"] "5.prems" show ?thesis
      by (simp add: same_stream_def)
  qed (use "5.prems" in simp)
qed simp_all

lemma tcp_read_like_ws:
  assumes "same_stream t w"
  shows "fst (tcp_read mode t outs) = fst (ws_read mode w outs)"
    "same_stream (snd (tcp_read mode t outs)) (snd (ws_read mode w outs))"
  using assms same_stream_read_et [OF assms, of outs]
  by (auto simp: tcp_read_def ws_read_def same_stream_def split: list.splits recv_outcome.splits)

end
