(* ===== verification/Sql_Pool.thy ===== *)
theory Sql_Pool
  imports Prelude "HOL-Library.Multiset"
begin

text \<open>
  The pool of database connections: \<open>src/db/sql_connection_pool.h\<close>, \<open>sql_connection_pool.cpp\<close>,
  \<open>sql_conn_raii.h\<close> and \<open>sql_conn_raii.cpp\<close>.

  libmysqlclient and the server behind it are not part of the repository: the functions of the client
  library that the sources call are the fields of the record \<open>mysql\<close>, over a state \<open>'d\<close> of the other side. A
  \<open>MYSQL*\<close> or \<open>MYSQL_STMT*\<close> is a number, \<open>0\<close> the null pointer. A \<open>bool\<close> result is whether the call returned zero.
  \<open>getConn\<close> waits on a condition variable while the queue is empty: \<open>None\<close> is a call that waits.

  The locale \<open>resource_pool\<close> is what the clients of the pool rely on.
\<close>

section \<open>The client library\<close>

datatype my_bind = Bind_zero | Bind_string string | Bind_long int

text \<open>One answer of \<open>mysql_stmt_fetch\<close>: the columns of a row, \<open>None\<close> for a null column, or an error. A column
  longer than its buffer is reported with its full length.\<close>

datatype my_fetch = Fetch_row "string option list" | Fetch_error

record 'd mysql =
  mysql_init :: "'d \<Rightarrow> nat \<times> 'd"
  mysql_real_connect :: "nat \<Rightarrow> string \<Rightarrow> string \<Rightarrow> string \<Rightarrow> string \<Rightarrow> int \<Rightarrow> 'd \<Rightarrow> nat \<times> 'd"
  mysql_close :: "nat \<Rightarrow> 'd \<Rightarrow> 'd"
  mysql_query :: "nat \<Rightarrow> string \<Rightarrow> 'd \<Rightarrow> bool \<times> 'd"
  mysql_commit :: "nat \<Rightarrow> 'd \<Rightarrow> bool \<times> 'd"
  mysql_rollback :: "nat \<Rightarrow> 'd \<Rightarrow> bool \<times> 'd"
  mysql_stmt_init :: "nat \<Rightarrow> 'd \<Rightarrow> nat \<times> 'd"
  mysql_stmt_close :: "nat \<Rightarrow> 'd \<Rightarrow> 'd"
  mysql_stmt_prepare :: "nat \<Rightarrow> string \<Rightarrow> 'd \<Rightarrow> bool \<times> 'd"
  mysql_stmt_param_count :: "nat \<Rightarrow> 'd \<Rightarrow> nat"
  mysql_stmt_bind_param :: "nat \<Rightarrow> my_bind list \<Rightarrow> 'd \<Rightarrow> bool \<times> 'd"
  mysql_stmt_execute :: "nat \<Rightarrow> 'd \<Rightarrow> bool \<times> 'd"
  mysql_stmt_store_result :: "nat \<Rightarrow> 'd \<Rightarrow> bool \<times> 'd"
  mysql_stmt_result_metadata :: "nat \<Rightarrow> 'd \<Rightarrow> string list option"
  mysql_stmt_bind_result :: "nat \<Rightarrow> 'd \<Rightarrow> bool \<times> 'd"
  mysql_stmt_fetches :: "nat \<Rightarrow> 'd \<Rightarrow> my_fetch list \<times> 'd"

section \<open>The pool\<close>

record sql_pool =
  m_conn_queue :: "nat list"
  m_max_conn :: int
  m_free_conn :: int
  m_host :: string
  m_user :: string
  m_password :: string
  m_db_name :: string
  m_port :: int

definition pool_new :: sql_pool where
  "pool_new = \<lparr>m_conn_queue = [], m_max_conn = 0, m_free_conn = 0, m_host = [], m_user = [], m_password = [],
               m_db_name = [], m_port = 3306\<rparr>"

definition pool_base_text :: string where "pool_base_text = ''[SqlConnPool] ''"

text \<open>The loop of \<open>init\<close>, with the number of rounds left. An exception leaves what was queued before it.\<close>

fun connect_loop :: "'d mysql \<Rightarrow> nat \<Rightarrow> sql_pool \<Rightarrow> 'd \<Rightarrow> unit result \<times> sql_pool \<times> 'd" where
  "connect_loop my 0 p d = (Inr (), p, d)"
| "connect_loop my (Suc k) p d =
     (case mysql_init my d of (conn, d) \<Rightarrow>
        if conn = 0 then (Inl (Runtime_error (pool_base_text @ ''MySQL init failed.'')), p, d)
        else (case mysql_real_connect my conn (c_str (m_host p)) (c_str (m_user p)) (c_str (m_password p))
                     (c_str (m_db_name p)) (m_port p) d of (conn, d) \<Rightarrow>
                if conn = 0 then (Inl (Runtime_error (pool_base_text @ ''MySQL connect failed.'')), p, d)
                else connect_loop my k
                       (p\<lparr>m_conn_queue := m_conn_queue p @ [conn], m_free_conn := m_free_conn p + 1\<rparr>) d))"

definition pool_init ::
  "'d mysql \<Rightarrow> sql_pool \<Rightarrow> string \<Rightarrow> int \<Rightarrow> string \<Rightarrow> string \<Rightarrow> string \<Rightarrow> int \<Rightarrow> 'd \<Rightarrow> unit result \<times> sql_pool \<times> 'd" where
  "pool_init my p host port user pwd db_name conn_size d =
     connect_loop my (nat conn_size)
       (p\<lparr>m_host := host, m_port := port, m_user := user, m_password := pwd, m_db_name := db_name,
          m_max_conn := conn_size\<rparr>) d"

definition getConn :: "sql_pool \<Rightarrow> (nat \<times> sql_pool) option" where
  "getConn p =
     (case m_conn_queue p of
        [] \<Rightarrow> None
      | conn # rest \<Rightarrow> Some (conn, p\<lparr>m_conn_queue := rest, m_free_conn := m_free_conn p - 1\<rparr>))"

definition releaseConn :: "sql_pool \<Rightarrow> nat \<Rightarrow> sql_pool" where
  "releaseConn p conn =
     (if conn = 0 then p
      else p\<lparr>m_conn_queue := m_conn_queue p @ [conn], m_free_conn := m_free_conn p + 1\<rparr>)"

definition pool_shutdown :: "'d mysql \<Rightarrow> sql_pool \<Rightarrow> 'd \<Rightarrow> sql_pool \<times> 'd" where
  "pool_shutdown my p d =
     (p\<lparr>m_conn_queue := [], m_free_conn := 0, m_max_conn := 0\<rparr>,
      foldl (\<lambda>d conn. mysql_close my conn d) d (m_conn_queue p))"

definition getFreeConnCount :: "sql_pool \<Rightarrow> int" where
  "getFreeConnCount p = m_free_conn p"

text \<open>A block with a \<open>SqlConnRAII\<close> on top: the connection goes back however the block is left.\<close>

definition with_conn :: "sql_pool \<Rightarrow> 'd \<Rightarrow> (nat \<Rightarrow> 'd \<Rightarrow> 'a result \<times> 'd) \<Rightarrow> 'a result \<times> sql_pool \<times> 'd" where
  "with_conn p d body =
     (case getConn p of
        None \<Rightarrow> (Inl Blocked, p, d)
      | Some (conn, p1) \<Rightarrow> (case body conn d of (r, d1) \<Rightarrow> (r, releaseConn p1 conn, d1)))"

section \<open>Borrowing and returning\<close>

text \<open>The state of a pool together with the connections its clients hold.\<close>

inductive lend_step ::
  "('p \<Rightarrow> (nat \<times> 'p) option) \<Rightarrow> ('p \<Rightarrow> nat \<Rightarrow> 'p) \<Rightarrow> 'p \<times> nat list \<Rightarrow> 'p \<times> nat list \<Rightarrow> bool"
  for get put where
  borrow: "get p = Some (c, p') \<Longrightarrow> lend_step get put (p, lent) (p', c # lent)"
| give_back: "c \<in> set lent \<Longrightarrow> lend_step get put (p, lent) (put p c, remove1 c lent)"

inductive_cases lend_stepE [elim]: "lend_step get put (p, lent) s"

locale resource_pool =
  fixes get :: "'p \<Rightarrow> (nat \<times> 'p) option" and put :: "'p \<Rightarrow> nat \<Rightarrow> 'p"
    and idle :: "'p \<Rightarrow> nat list" and count :: "'p \<Rightarrow> int"
  assumes get_None: "get p = None \<longleftrightarrow> idle p = []"
    and get_Some: "get p = Some (c, p') \<Longrightarrow> idle p = c # idle p' \<and> count p' = count p - 1"
    and put_idle: "c \<noteq> 0 \<Longrightarrow> idle (put p c) = idle p @ [c] \<and> count (put p c) = count p + 1"
begin

lemma step_conserves:
  assumes "lend_step get put (p, lent) (p', lent')" "0 \<notin> set (idle p @ lent)"
  shows "mset (idle p') + mset lent' = mset (idle p) + mset lent"
  using assms(1)
proof (cases rule: lend_step.cases)
  case (borrow c)
  with get_Some [OF this(2)] show ?thesis by simp
next
  case (give_back c)
  then have "c \<noteq> 0" using assms(2) by (metis Un_iff set_append)
  with give_back put_idle [of c p] show ?thesis by simp
qed

lemma step_count:
  assumes "lend_step get put (p, lent) (p', lent')" "0 \<notin> set (idle p @ lent)"
    "count p = int (length (idle p))"
  shows "count p' = int (length (idle p'))"
  using assms(1)
proof (cases rule: lend_step.cases)
  case (borrow c)
  with get_Some [OF this(2)] assms(3) show ?thesis by simp
next
  case (give_back c)
  then have "c \<noteq> 0" using assms(2) by (metis Un_iff set_append)
  with give_back put_idle [of c p] assms(3) show ?thesis by simp
qed

lemma conservation:
  assumes "(lend_step get put)\<^sup>*\<^sup>* s s'" "s = (p0, [])" "s' = (p, lent)"
    and "0 \<notin> set (idle p0)" "count p0 = int (length (idle p0))"
  shows "mset (idle p) + mset lent = mset (idle p0) \<and> count p = int (length (idle p))"
  using assms(1,3)
proof (induction arbitrary: p lent rule: rtranclp_induct)
  case base
  with assms(2,5) show ?case by simp
next
  case (step y z)
  obtain q l where y: "y = (q, l)" by (cases y)
  have IH: "mset (idle q) + mset l = mset (idle p0)" "count q = int (length (idle q))"
    using step.IH [OF y] by auto
  have "set (idle q @ l) = set (idle p0)"
    using arg_cong [OF IH(1), of set_mset] by simp
  then have "0 \<notin> set (idle q @ l)" using assms(4) by simp
  moreover have "lend_step get put (q, l) (p, lent)" using step.hyps(2) y step.prems by simp
  ultimately show ?case using step_conserves step_count IH by metis
qed

lemma nobody_shares:
  assumes "(lend_step get put)\<^sup>*\<^sup>* (p0, []) (p, lent)" "0 \<notin> set (idle p0)"
    "count p0 = int (length (idle p0))" "distinct (idle p0)"
  shows "distinct (idle p @ lent) \<and> length (idle p) + length lent = length (idle p0) \<and>
    (get p = None \<longleftrightarrow> length lent = length (idle p0))"
proof -
  have c: "mset (idle p @ lent) = mset (idle p0)"
    using conservation [OF assms(1) refl refl assms(2,3)] by simp
  from c have "distinct (idle p @ lent)" using assms(4) by (metis mset_eq_imp_distinct_iff)
  moreover from c have "length (idle p @ lent) = length (idle p0)" by (rule mset_eq_length)
  ultimately show ?thesis using get_None [of p] by auto
qed

end

interpretation pool: resource_pool getConn releaseConn m_conn_queue m_free_conn
  by unfold_locales (auto simp: getConn_def releaseConn_def split: list.splits)

section \<open>Lemmas\<close>

lemma connect_loop_ok:
  "connect_loop my k p d = (r, p', d') \<Longrightarrow> 0 \<notin> set (m_conn_queue p) \<Longrightarrow>
   m_free_conn p = int (length (m_conn_queue p)) \<Longrightarrow>
   0 \<notin> set (m_conn_queue p') \<and> m_free_conn p' = int (length (m_conn_queue p')) \<and> m_max_conn p' = m_max_conn p \<and>
   (r = Inr () \<longrightarrow> length (m_conn_queue p') = length (m_conn_queue p) + k)"
proof (induction k arbitrary: p d)
  case (Suc k)
  obtain c1 d1 where 1: "mysql_init my d = (c1, d1)" by fastforce
  obtain c2 d2 where 2: "mysql_real_connect my c1 (c_str (m_host p)) (c_str (m_user p)) (c_str (m_password p))
      (c_str (m_db_name p)) (m_port p) d1 = (c2, d2)" by fastforce
  show ?case
  proof (cases "c1 = 0 \<or> c2 = 0")
    case True
    with Suc.prems 1 2 show ?thesis by (auto split: if_splits)
  next
    case False
    define q where "q = p\<lparr>m_conn_queue := m_conn_queue p @ [c2], m_free_conn := m_free_conn p + 1\<rparr>"
    have "connect_loop my k q d2 = (r, p', d')" using Suc.prems(1) 1 2 False by (simp add: q_def)
    from Suc.IH [OF this] Suc.prems(2,3) False show ?thesis by (simp add: q_def)
  qed
qed auto

lemma with_conn_returns:
  assumes "getConn p = Some (conn, p1)" "body conn d = (r, d1)"
  shows "with_conn p d body = (r, releaseConn p1 conn, d1)"
  using assms by (simp add: with_conn_def)

text \<open>Whatever the block does, the pool has the same connections afterwards.\<close>

lemma with_conn_pool:
  assumes "with_conn p d body = (r, p', d')" "0 \<notin> set (m_conn_queue p)"
  shows "mset (m_conn_queue p') = mset (m_conn_queue p) \<and> m_free_conn p' = m_free_conn p \<and>
    (m_conn_queue p = [] \<longrightarrow> r = Inl Blocked \<and> d' = d)"
  using assms by (auto simp: with_conn_def getConn_def releaseConn_def split: list.splits prod.splits if_splits)

section \<open>A concrete instance, for evaluation\<close>

text \<open>A server with one table and one transaction at a time; the user \<open>ann\<close> has the password \<open>secret\<close>.\<close>

record demo_db =
  db_next :: nat
  db_rows :: "my_bind list list"
  db_pending :: "my_bind list list"
  db_in_tx :: bool
  db_bound :: "my_bind list"
  db_sql :: string

definition demo_db0 :: demo_db where
  "demo_db0 = \<lparr>db_next = 0, db_rows = [], db_pending = [], db_in_tx = False, db_bound = [], db_sql = []\<rparr>"

definition demo_mysql :: "demo_db mysql" where
  "demo_mysql =
     \<lparr>mysql_init = (\<lambda>d. (Suc (db_next d), d\<lparr>db_next := Suc (db_next d)\<rparr>)),
      mysql_real_connect = (\<lambda>c _ _ _ _ _ d. (c, d)),
      mysql_close = (\<lambda>_ d. d),
      mysql_query = (\<lambda>_ q d. if q = ''START TRANSACTION'' then (True, d\<lparr>db_in_tx := True, db_pending := db_rows d\<rparr>)
                             else (True, d)),
      mysql_commit = (\<lambda>_ d. (True, d\<lparr>db_rows := db_pending d, db_in_tx := False\<rparr>)),
      mysql_rollback = (\<lambda>_ d. (True, d\<lparr>db_in_tx := False\<rparr>)),
      mysql_stmt_init = (\<lambda>c d. (c, d)),
      mysql_stmt_close = (\<lambda>_ d. d),
      mysql_stmt_prepare = (\<lambda>_ q d. (True, d\<lparr>db_sql := q\<rparr>)),
      mysql_stmt_param_count = (\<lambda>_ d. length (filter (\<lambda>c. c = CHR ''?'') (db_sql d))),
      mysql_stmt_bind_param = (\<lambda>_ bs d. (True, d\<lparr>db_bound := bs\<rparr>)),
      mysql_stmt_execute = (\<lambda>_ d. (True, if db_in_tx d then d\<lparr>db_pending := db_bound d # db_pending d\<rparr>
                                         else d\<lparr>db_rows := db_bound d # db_rows d\<rparr>)),
      mysql_stmt_store_result = (\<lambda>_ d. (True, d)),
      mysql_stmt_result_metadata = (\<lambda>_ d. Some [''password'']),
      mysql_stmt_bind_result = (\<lambda>_ d. (True, d)),
      mysql_stmt_fetches = (\<lambda>_ d. (if db_bound d = [Bind_string ''ann''] then [Fetch_row [Some ''secret'']] else [], d))\<rparr>"

section \<open>Properties\<close>

text \<open>C12. The pool neither loses nor duplicates connections: after \<open>init\<close> and any interleaving of \<open>getConn\<close>
  and \<open>releaseConn\<close> by clients that give back what they hold, the queue and the clients together hold exactly
  the connections opened, no connection is with two clients or with a client and in the queue, \<open>m_free_conn\<close>
  is the length of the queue, and \<open>getConn\<close> waits exactly when all \<open>conn_size\<close> connections are lent.\<close>

theorem pool_conservation:
  assumes "pool_init my pool_new host port user pwd db conn_size d = (Inr (), p0, d')"
    and "distinct (m_conn_queue p0)" "0 \<le> conn_size"
    and "(lend_step getConn releaseConn)\<^sup>*\<^sup>* (p0, []) (p, lent)"
  shows "mset (m_conn_queue p) + mset lent = mset (m_conn_queue p0) \<and> distinct (m_conn_queue p @ lent) \<and>
    getFreeConnCount p = int (length (m_conn_queue p)) \<and>
    int (length (m_conn_queue p) + length lent) = conn_size \<and>
    (getConn p = None \<longleftrightarrow> int (length lent) = conn_size)"
proof -
  have i: "0 \<notin> set (m_conn_queue p0)" "m_free_conn p0 = int (length (m_conn_queue p0))"
    "int (length (m_conn_queue p0)) = conn_size"
    using connect_loop_ok [OF assms(1) [unfolded pool_init_def]] assms(3) by (simp_all add: pool_new_def)
  have "mset (m_conn_queue p) + mset lent = mset (m_conn_queue p0)" "m_free_conn p = int (length (m_conn_queue p))"
    using pool.conservation [OF assms(4) refl refl i(1,2)] by auto
  moreover have "distinct (m_conn_queue p @ lent)"
    "length (m_conn_queue p) + length lent = length (m_conn_queue p0)"
    "getConn p = None \<longleftrightarrow> length lent = length (m_conn_queue p0)"
    using pool.nobody_shares [OF assms(4) i(1,2) assms(2)] by auto
  ultimately show ?thesis using i(3) by (auto simp: getFreeConnCount_def)
qed

theorem pool_conservation_witness:
  "(case pool_init demo_mysql pool_new ''localhost'' 3306 ''u'' ''p'' ''db'' 2 demo_db0 of (_, p0, _) \<Rightarrow>
     case getConn p0 of Some (c, p1) \<Rightarrow>
       distinct (m_conn_queue p1 @ [c]) \<and> getFreeConnCount p1 = 1 \<and> getConn p1 \<noteq> None)"
proof -
  obtain p0 d' where i: "pool_init demo_mysql pool_new ''localhost'' 3306 ''u'' ''p'' ''db'' 2 demo_db0 = (Inr (), p0, d')"
    and q: "m_conn_queue p0 = [1, 2]"
    by (simp add: pool_init_def demo_mysql_def demo_db0_def pool_new_def numeral_2_eq_2)
  obtain c p1 where g: "getConn p0 = Some (c, p1)" "m_conn_queue p1 = [2]" using q by (simp add: getConn_def)
  then have "(lend_step getConn releaseConn)\<^sup>*\<^sup>* (p0, []) (p1, [c])" by (blast intro: lend_step.borrow)
  from pool_conservation [OF i _ _ this] q g show ?thesis by (simp add: i)
qed

end
