(* ===== verification/Sql_Executor.thy ===== *)
theory Sql_Executor
  imports Sql_Pool
begin

text \<open>
  Prepared statements and transactions: \<open>src/db/sql_executor.h\<close>, \<open>sql_executor.cpp\<close>, \<open>sql_transaction.h\<close> and
  \<open>sql_transaction.cpp\<close>.

  A bound parameter is a value, so the buffers the class allocates for it and frees in its destructor do not
  appear. Every column of a result is fetched into a buffer of 1024 bytes, and the string made from it takes
  the length the library reports: a longer column reads past the buffer. A destructor is an operation of its
  own, called where the block of the object ends.
\<close>

section \<open>Statements\<close>

record sql_executor =
  ex_conn :: nat
  m_stmt :: nat
  m_bindParams :: "my_bind list"

definition SqlExecutor_new :: "'d mysql \<Rightarrow> nat \<Rightarrow> 'd \<Rightarrow> sql_executor result \<times> 'd" where
  "SqlExecutor_new my conn d =
     (case mysql_stmt_init my conn d of (stmt, d) \<Rightarrow>
        if stmt = 0 then (Inl (Runtime_error ''Failed to init statement.''), d)
        else (Inr \<lparr>ex_conn = conn, m_stmt = stmt, m_bindParams = []\<rparr>, d))"

definition SqlExecutor_destroy :: "'d mysql \<Rightarrow> sql_executor \<Rightarrow> 'd \<Rightarrow> 'd" where
  "SqlExecutor_destroy my ex d = (if m_stmt ex \<noteq> 0 then mysql_stmt_close my (m_stmt ex) d else d)"

definition prepare :: "'d mysql \<Rightarrow> sql_executor \<Rightarrow> string \<Rightarrow> 'd \<Rightarrow> bool \<times> 'd" where
  "prepare my ex sql d = mysql_stmt_prepare my (m_stmt ex) sql d"

text \<open>\<open>resize(index + 1)\<close> adds zeroed entries.\<close>

definition set_bind :: "my_bind list \<Rightarrow> nat \<Rightarrow> my_bind \<Rightarrow> my_bind list" where
  "set_bind ps index b =
     (let ps = (if length ps \<le> index then ps @ replicate (index + 1 - length ps) Bind_zero else ps) in ps[index := b])"

definition bindParam_string :: "sql_executor \<Rightarrow> nat \<Rightarrow> string \<Rightarrow> bool \<times> sql_executor" where
  "bindParam_string ex index val = (True, ex\<lparr>m_bindParams := set_bind (m_bindParams ex) index (Bind_string val)\<rparr>)"

definition bindParam_int :: "sql_executor \<Rightarrow> nat \<Rightarrow> int \<Rightarrow> bool \<times> sql_executor" where
  "bindParam_int ex index val = (True, ex\<lparr>m_bindParams := set_bind (m_bindParams ex) index (Bind_long val)\<rparr>)"

definition execute :: "'d mysql \<Rightarrow> sql_executor \<Rightarrow> 'd \<Rightarrow> bool \<times> 'd" where
  "execute my ex d =
     (if m_bindParams ex \<noteq> [] then
        if length (m_bindParams ex) \<noteq> mysql_stmt_param_count my (m_stmt ex) d then (False, d)
        else (case mysql_stmt_bind_param my (m_stmt ex) (m_bindParams ex) d of (ok, d) \<Rightarrow>
                if \<not> ok then (False, d) else mysql_stmt_execute my (m_stmt ex) d)
      else mysql_stmt_execute my (m_stmt ex) d)"

type_synonym sql_row = "string \<rightharpoonup> string"

definition column_buffer :: nat where "column_buffer = 1024"

text \<open>One row: the columns in order, a later column of the same name winning.\<close>

fun fetch_row :: "(string \<times> string option) list \<Rightarrow> sql_row \<Rightarrow> sql_row result" where
  "fetch_row [] row = Inr row"
| "fetch_row ((name, None) # cols) row = fetch_row cols (row(name \<mapsto> ''NULL''))"
| "fetch_row ((name, Some v) # cols) row =
     (if column_buffer < length v then Inl Buffer_overread else fetch_row cols (row(name \<mapsto> v)))"

text \<open>The \<open>while\<close> loop over the answers of \<open>mysql_stmt_fetch\<close>; the end of the list is \<open>MYSQL_NO_DATA\<close>.\<close>

fun fetch_rows :: "string list \<Rightarrow> my_fetch list \<Rightarrow> sql_row list result" where
  "fetch_rows names [] = Inr []"
| "fetch_rows names (Fetch_error # outs) = Inr []"
| "fetch_rows names (Fetch_row vals # outs) =
     rbind (fetch_row (zip names vals) Map.empty) (\<lambda>row. rbind (fetch_rows names outs) (\<lambda>rows. Inr (row # rows)))"

definition fetchAll :: "'d mysql \<Rightarrow> sql_executor \<Rightarrow> 'd \<Rightarrow> sql_row list result \<times> 'd" where
  "fetchAll my ex d =
     (case mysql_stmt_store_result my (m_stmt ex) d of (ok, d) \<Rightarrow>
        if \<not> ok then (Inr [], d)
        else (case mysql_stmt_result_metadata my (m_stmt ex) d of
                None \<Rightarrow> (Inr [], d)
              | Some names \<Rightarrow>
                  (case mysql_stmt_bind_result my (m_stmt ex) d of (ok, d) \<Rightarrow>
                     if \<not> ok then (Inr [], d)
                     else (case mysql_stmt_fetches my (m_stmt ex) d of (outs, d) \<Rightarrow> (fetch_rows names outs, d)))))"

section \<open>Transactions\<close>

record sql_transaction =
  tx_conn :: nat
  m_committed :: bool

definition tx_begin :: "'d mysql \<Rightarrow> nat \<Rightarrow> 'd \<Rightarrow> unit result \<times> 'd" where
  "tx_begin my conn d =
     (case mysql_query my conn ''START TRANSACTION'' d of (ok, d) \<Rightarrow>
        (if ok then Inr () else Inl (Runtime_error ''START TRANSACTION failed''), d))"

definition SqlTransaction_new :: "'d mysql \<Rightarrow> nat \<Rightarrow> 'd \<Rightarrow> sql_transaction result \<times> 'd" where
  "SqlTransaction_new my conn d =
     (case tx_begin my conn d of (r, d) \<Rightarrow> (rbind r (\<lambda>_. Inr \<lparr>tx_conn = conn, m_committed = False\<rparr>), d))"

definition tx_commit :: "'d mysql \<Rightarrow> sql_transaction \<Rightarrow> 'd \<Rightarrow> unit result \<times> sql_transaction \<times> 'd" where
  "tx_commit my tx d =
     (case mysql_commit my (tx_conn tx) d of (ok, d) \<Rightarrow>
        if ok then (Inr (), tx\<lparr>m_committed := True\<rparr>, d) else (Inl (Runtime_error ''COMMIT failed''), tx, d))"

definition tx_rollback :: "'d mysql \<Rightarrow> sql_transaction \<Rightarrow> 'd \<Rightarrow> 'd" where
  "tx_rollback my tx d = (if m_committed tx then d else snd (mysql_rollback my (tx_conn tx) d))"

text \<open>\<open>~SqlTransaction\<close>\<close>

definition SqlTransaction_destroy :: "'d mysql \<Rightarrow> sql_transaction \<Rightarrow> 'd \<Rightarrow> 'd" where
  "SqlTransaction_destroy my tx d = tx_rollback my tx d"

section \<open>What a transactional server promises\<close>

text \<open>The view of the server: the content everybody sees, the content inside the open transaction of a
  connection, the connection and text of a prepared statement and its parameters.\<close>

record 'v db_view =
  committed :: 'v
  open_tx :: "nat \<Rightarrow> 'v option"
  prepared :: "nat \<Rightarrow> (nat \<times> string) option"
  params :: "nat \<Rightarrow> my_bind list"

definition same_data :: "('d \<Rightarrow> 'v db_view) \<Rightarrow> 'd \<Rightarrow> 'd \<Rightarrow> bool" where
  "same_data view d d' \<longleftrightarrow> committed (view d') = committed (view d) \<and> open_tx (view d') = open_tx (view d)"

text \<open>\<open>eff sql ps v\<close> is what the statement \<open>sql\<close> with parameters \<open>ps\<close> makes of the content \<open>v\<close>.\<close>

definition start_law :: "'d mysql \<Rightarrow> ('d \<Rightarrow> 'v db_view) \<Rightarrow> bool" where
  "start_law my view \<longleftrightarrow>
     (\<forall>c d ok d'. mysql_query my c ''START TRANSACTION'' d = (ok, d') \<longrightarrow> open_tx (view d) c = None \<longrightarrow>
        committed (view d') = committed (view d) \<and> (ok \<longrightarrow> open_tx (view d') c = Some (committed (view d))))"

definition stmt_init_law :: "'d mysql \<Rightarrow> ('d \<Rightarrow> 'v db_view) \<Rightarrow> bool" where
  "stmt_init_law my view \<longleftrightarrow>
     (\<forall>c d s d'. mysql_stmt_init my c d = (s, d') \<longrightarrow>
        same_data view d d' \<and> (s \<noteq> 0 \<longrightarrow> (\<exists>t. prepared (view d') s = Some (c, t))))"

definition prepare_law :: "'d mysql \<Rightarrow> ('d \<Rightarrow> 'v db_view) \<Rightarrow> bool" where
  "prepare_law my view \<longleftrightarrow>
     (\<forall>s q d ok d' c t. mysql_stmt_prepare my s q d = (ok, d') \<longrightarrow> prepared (view d) s = Some (c, t) \<longrightarrow>
        same_data view d d' \<and> (ok \<longrightarrow> prepared (view d') s = Some (c, q)))"

definition bind_law :: "'d mysql \<Rightarrow> ('d \<Rightarrow> 'v db_view) \<Rightarrow> bool" where
  "bind_law my view \<longleftrightarrow>
     (\<forall>s bs d ok d'. mysql_stmt_bind_param my s bs d = (ok, d') \<longrightarrow>
        same_data view d d' \<and> prepared (view d') = prepared (view d) \<and> (ok \<longrightarrow> params (view d') s = bs))"

definition execute_law :: "'d mysql \<Rightarrow> ('d \<Rightarrow> 'v db_view) \<Rightarrow> (string \<Rightarrow> my_bind list \<Rightarrow> 'v \<Rightarrow> 'v) \<Rightarrow> bool" where
  "execute_law my view eff \<longleftrightarrow>
     (\<forall>s d ok d' c q v. mysql_stmt_execute my s d = (ok, d') \<longrightarrow> prepared (view d) s = Some (c, q) \<longrightarrow>
        open_tx (view d) c = Some v \<longrightarrow> committed (view d') = committed (view d) \<and>
        (ok \<longrightarrow> open_tx (view d') c = Some (eff q (params (view d) s) v)))"

definition close_law :: "'d mysql \<Rightarrow> ('d \<Rightarrow> 'v db_view) \<Rightarrow> bool" where
  "close_law my view \<longleftrightarrow>
     (\<forall>s d. same_data view d (mysql_stmt_close my s d))"

definition commit_law :: "'d mysql \<Rightarrow> ('d \<Rightarrow> 'v db_view) \<Rightarrow> bool" where
  "commit_law my view \<longleftrightarrow>
     (\<forall>c d ok d' v. mysql_commit my c d = (ok, d') \<longrightarrow> open_tx (view d) c = Some v \<longrightarrow>
        committed (view d') = (if ok then v else committed (view d)))"

definition rollback_law :: "'d mysql \<Rightarrow> ('d \<Rightarrow> 'v db_view) \<Rightarrow> bool" where
  "rollback_law my view \<longleftrightarrow>
     (\<forall>c d. committed (view (snd (mysql_rollback my c d))) = committed (view d))"

definition tx_server :: "'d mysql \<Rightarrow> ('d \<Rightarrow> 'v db_view) \<Rightarrow> (string \<Rightarrow> my_bind list \<Rightarrow> 'v \<Rightarrow> 'v) \<Rightarrow> bool" where
  "tx_server my view eff \<longleftrightarrow>
     start_law my view \<and> stmt_init_law my view \<and> prepare_law my view \<and> bind_law my view \<and> execute_law my view eff \<and> close_law my view \<and> commit_law my view \<and> rollback_law my view"

lemmas tx_laws = start_law_def stmt_init_law_def prepare_law_def bind_law_def execute_law_def close_law_def commit_law_def rollback_law_def

section \<open>Lemmas\<close>

lemma set_bind_append [simp]: "set_bind ps (length ps) b = ps @ [b]"
  by (simp add: set_bind_def Let_def)

lemma set_bind_nth:
  "length (set_bind ps i b) = max (length ps) (Suc i) \<and> set_bind ps i b ! i = b \<and>
   (\<forall>j < length ps. j \<noteq> i \<longrightarrow> set_bind ps i b ! j = ps ! j)"
  by (auto simp: set_bind_def Let_def nth_append)

text \<open>Rows whose columns fit are read completely.\<close>

lemma fetch_row_ok:
  "\<forall>c \<in> set cols. case snd c of None \<Rightarrow> True | Some v \<Rightarrow> length v \<le> column_buffer \<Longrightarrow>
   fetch_row cols row = Inr (row ++ map_of (rev (map (\<lambda>(n, v). (n, case v of None \<Rightarrow> ''NULL'' | Some s \<Rightarrow> s)) cols)))"
proof (induction cols arbitrary: row)
  case (Cons c cols)
  obtain n v where c: "c = (n, v)" by (cases c)
  have IH: "fetch_row cols (row(n \<mapsto> w)) =
      Inr (row(n \<mapsto> w) ++ map_of (rev (map (\<lambda>(n, v). (n, case v of None \<Rightarrow> ''NULL'' | Some s \<Rightarrow> s)) cols)))" for w
    using Cons.prems by (intro Cons.IH) simp
  show ?case
  proof (cases v)
    case None
    with c show ?thesis by (simp add: IH)
  next
    case (Some s)
    with Cons.prems c show ?thesis by (simp add: IH)
  qed
qed simp

end
