(* ===== verification/User_Dao.thy ===== *)
theory User_Dao
  imports Sql_Executor
begin

text \<open>
  The data access objects and the service above them: \<open>src/mvc/dao/user_dao.cpp\<close>,
  \<open>src/mvc/dao/test_tx_dao.cpp\<close> and \<open>src/mvc/service/user_service.cpp\<close>.

  Every function takes a connection from the pool for the length of its block (\<open>with_conn\<close>); the destructors
  of the objects in the block run in reverse order of their construction on every way out, exceptions included.
\<close>

section \<open>Users\<close>

definition check_sql :: string where
  "check_sql = ''SELECT password FROM user WHERE username = ? LIMIT 1''"

text \<open>The part of \<open>checkUser\<close> between the construction and the destruction of the statement.\<close>

definition check_body :: "'d mysql \<Rightarrow> sql_executor \<Rightarrow> string \<Rightarrow> string \<Rightarrow> 'd \<Rightarrow> bool result \<times> 'd" where
  "check_body my ex username password d =
     (case prepare my ex check_sql d of (ok, d) \<Rightarrow>
        if \<not> ok then (Inr False, d)
        else (case bindParam_string ex 0 username of (ok, ex) \<Rightarrow>
                if \<not> ok then (Inr False, d)
                else (case execute my ex d of (ok, d) \<Rightarrow>
                        if \<not> ok then (Inr False, d)
                        else (case fetchAll my ex d of (results, d) \<Rightarrow>
                                (rbind results (\<lambda>rows. case rows of
                                     [] \<Rightarrow> Inr False
                                   | row # _ \<Rightarrow>
                                       (let stored_pwd = (case row ''password'' of None \<Rightarrow> [] | Some s \<Rightarrow> s)
                                        in Inr (stored_pwd = password))), d)))))"

definition checkUser :: "'d mysql \<Rightarrow> sql_pool \<Rightarrow> string \<Rightarrow> string \<Rightarrow> 'd \<Rightarrow> bool result \<times> sql_pool \<times> 'd" where
  "checkUser my p username password d =
     with_conn p d (\<lambda>conn d.
       if conn = 0 then (Inr False, d)
       else (case SqlExecutor_new my conn d of
               (Inl e, d) \<Rightarrow> (Inl e, d)
             | (Inr ex, d) \<Rightarrow> (case check_body my ex username password d of (r, d) \<Rightarrow> (r, SqlExecutor_destroy my ex d))))"

definition insert_query :: "string \<Rightarrow> string \<Rightarrow> string" where
  "insert_query username password =
     ''INSERT INTO user(username, password) VALUES('' @ [CHR 0x27] @ username @ [CHR 0x27] @ '', '' @ [CHR 0x27] @
     password @ [CHR 0x27] @ '')''"

definition insertUser :: "'d mysql \<Rightarrow> sql_pool \<Rightarrow> string \<Rightarrow> string \<Rightarrow> 'd \<Rightarrow> bool result \<times> sql_pool \<times> 'd" where
  "insertUser my p username password d =
     with_conn p d (\<lambda>conn d.
       if conn = 0 then (Inr False, d)
       else (case mysql_query my conn (c_str (insert_query username password)) d of (ok, d) \<Rightarrow> (Inr ok, d)))"

text \<open>\<open>UserService\<close> passes the calls on.\<close>

definition service_login :: "'d mysql \<Rightarrow> sql_pool \<Rightarrow> string \<Rightarrow> string \<Rightarrow> 'd \<Rightarrow> bool result \<times> sql_pool \<times> 'd" where
  "service_login my p username password d = checkUser my p username password d"

definition service_registerUser :: "'d mysql \<Rightarrow> sql_pool \<Rightarrow> string \<Rightarrow> string \<Rightarrow> 'd \<Rightarrow> bool result \<times> sql_pool \<times> 'd" where
  "service_registerUser my p username password d = insertUser my p username password d"

section \<open>The transaction test\<close>

definition tx_sql :: string where
  "tx_sql = ''INSERT INTO test_tx_user (username, age) VALUES (?, ?)''"

definition tx_body ::
  "'d mysql \<Rightarrow> sql_executor \<Rightarrow> sql_transaction \<Rightarrow> string \<Rightarrow> int \<Rightarrow> 'd \<Rightarrow> bool result \<times> sql_transaction \<times> 'd" where
  "tx_body my ex tx username age d =
     (case prepare my ex tx_sql d of (ok, d) \<Rightarrow>
        if \<not> ok then (Inr False, tx, d)
        else (let (_, ex) = bindParam_string ex 0 username;
                  (_, ex) = bindParam_int ex 1 age
              in case execute my ex d of (ok, d) \<Rightarrow>
                   if \<not> ok then (Inr False, tx, d)
                   else if username = ''rollback'' then (Inr False, tx, d)
                   else (case tx_commit my tx d of (r, tx, d) \<Rightarrow> (rbind r (\<lambda>_. Inr True), tx, d))))"

definition tx_insertUser :: "'d mysql \<Rightarrow> sql_pool \<Rightarrow> string \<Rightarrow> int \<Rightarrow> 'd \<Rightarrow> bool result \<times> sql_pool \<times> 'd" where
  "tx_insertUser my p username age d =
     with_conn p d (\<lambda>conn d.
       if conn = 0 then (Inr False, d)
       else (case SqlTransaction_new my conn d of
               (Inl e, d) \<Rightarrow> (Inl e, d)
             | (Inr tx, d) \<Rightarrow>
                 (case SqlExecutor_new my conn d of
                    (Inl e, d) \<Rightarrow> (Inl e, SqlTransaction_destroy my tx d)
                  | (Inr ex, d) \<Rightarrow>
                      (case tx_body my ex tx username age d of (r, tx, d) \<Rightarrow>
                         (r, SqlTransaction_destroy my tx (SqlExecutor_destroy my ex d))))))"

section \<open>Lemmas\<close>

lemma same_data_trans: "same_data view a b \<Longrightarrow> same_data view b c \<Longrightarrow> same_data view a c"
  by (simp add: same_data_def)

text \<open>The laws of \<open>tx_server\<close>, one by one.\<close>

lemma tx_serverD:
  assumes "tx_server my view eff"
  shows "start_law my view" "stmt_init_law my view" "prepare_law my view" "bind_law my view"
    "execute_law my view eff" "close_law my view" "commit_law my view" "rollback_law my view"
  using assms by (simp_all add: tx_server_def)

lemma rollback_keeps:
  assumes "tx_server my view eff"
  shows "committed (view (SqlTransaction_destroy my tx d)) = committed (view d)"
  using tx_serverD(8) [OF assms, unfolded rollback_law_def] by (simp add: SqlTransaction_destroy_def tx_rollback_def)

lemma destroy_keeps:
  assumes "tx_server my view eff"
  shows "committed (view (SqlExecutor_destroy my ex d)) = committed (view d)"
  using tx_serverD(6) [OF assms, unfolded close_law_def] by (simp add: SqlExecutor_destroy_def same_data_def)

text \<open>Binding and executing inside a transaction.\<close>

lemma execute_in_tx:
  assumes "tx_server my view eff" "execute my ex d = (ok, d')" "m_bindParams ex \<noteq> []"
    and "prepared (view d) (m_stmt ex) = Some (c, q)" "open_tx (view d) c = Some v"
  shows "committed (view d') = committed (view d) \<and> (ok \<longrightarrow> open_tx (view d') c = Some (eff q (m_bindParams ex) v))"
proof (cases "length (m_bindParams ex) = mysql_stmt_param_count my (m_stmt ex) d")
  case True
  obtain ok1 d1 where b: "mysql_stmt_bind_param my (m_stmt ex) (m_bindParams ex) d = (ok1, d1)" by fastforce
  have d1: "same_data view d d1" "prepared (view d1) = prepared (view d)" "ok1 \<longrightarrow> params (view d1) (m_stmt ex) = m_bindParams ex"
    using tx_serverD(4) [OF assms(1), unfolded bind_law_def, rule_format, OF b] by auto
  show ?thesis
  proof (cases ok1)
    case ok: True
    then have "mysql_stmt_execute my (m_stmt ex) d1 = (ok, d')" using assms(2,3) True b by (simp add: execute_def)
    from tx_serverD(5) [OF assms(1), unfolded execute_law_def, rule_format, OF this, of c q v] d1 ok assms(4,5) show ?thesis by (simp add: same_data_def)
  next
    case False
    then have "d' = d1" "\<not> ok" using assms(2,3) True b by (auto simp: execute_def)
    with d1 show ?thesis by (simp add: same_data_def)
  qed
next
  case False
  with assms(2,3) show ?thesis by (auto simp: execute_def)
qed

text \<open>The body of the block: nothing is committed unless it returns true.\<close>

lemma tx_body_effect:
  assumes "tx_server my view eff" "tx_body my ex tx username age d = (r, tx', d')"
    and "m_bindParams ex = []" "tx_conn tx = c" "\<not> m_committed tx"
    and "prepared (view d) (m_stmt ex) = Some (c, t)" "open_tx (view d) c = Some v"
  shows "if r = Inr True
    then username \<noteq> ''rollback'' \<and> committed (view d') = eff tx_sql [Bind_string username, Bind_long age] v
    else committed (view d') = committed (view d)"
proof -
  obtain ok1 d1 where p: "mysql_stmt_prepare my (m_stmt ex) tx_sql d = (ok1, d1)" by fastforce
  define ex2 where "ex2 = ex\<lparr>m_bindParams := [Bind_string username, Bind_long age]\<rparr>"
  obtain ok2 d2 where e: "execute my ex2 d1 = (ok2, d2)" by fastforce
  obtain ok3 d3 where m: "mysql_commit my c d2 = (ok3, d3)" by fastforce
  have d1: "same_data view d d1" "ok1 \<longrightarrow> prepared (view d1) (m_stmt ex) = Some (c, tx_sql)"
    using tx_serverD(3) [OF assms(1), unfolded prepare_law_def, rule_format, OF p assms(6)] by auto
  have binds: "snd (bindParam_int (snd (bindParam_string ex 0 username)) 1 age) = ex2"
    using set_bind_append [of "[]"] set_bind_append [of "[Bind_string username]"]
    by (simp add: bindParam_string_def bindParam_int_def ex2_def assms(3))
  have body: "(r, tx', d') =
      (if \<not> ok1 then (Inr False, tx, d1) else if \<not> ok2 then (Inr False, tx, d2)
       else if username = ''rollback'' then (Inr False, tx, d2)
       else if ok3 then (Inr True, tx\<lparr>m_committed := True\<rparr>, d3) else (Inl (Runtime_error ''COMMIT failed''), tx, d3))"
    using assms(2,4) p e m binds
    by (simp add: tx_body_def prepare_def bindParam_string_def bindParam_int_def tx_commit_def split: if_splits)
  show ?thesis
  proof (cases ok1)
    case True
    have d2: "committed (view d2) = committed (view d)"
      "ok2 \<longrightarrow> open_tx (view d2) c = Some (eff tx_sql [Bind_string username, Bind_long age] v)"
      using execute_in_tx [OF assms(1) e, of c tx_sql v] True d1 assms(7) by (simp_all add: ex2_def same_data_def)
    have "ok2 \<Longrightarrow> committed (view d3) =
        (if ok3 then eff tx_sql [Bind_string username, Bind_long age] v else committed (view d2))"
      using tx_serverD(7) [OF assms(1), unfolded commit_law_def, rule_format, OF m] d2(2) by simp
    with body True d2 show ?thesis by (auto split: if_splits)
  next
    case False
    with body d1 show ?thesis by (auto simp: same_data_def)
  qed
qed

section \<open>Properties\<close>


definition demo_view :: "demo_db \<Rightarrow> my_bind list list db_view" where
  "demo_view d = \<lparr>committed = db_rows d, open_tx = (\<lambda>c. if db_in_tx d then Some (db_pending d) else None),
                  prepared = (\<lambda>s. Some (s, db_sql d)), params = (\<lambda>_. db_bound d)\<rparr>"


end
