(* ===== verification/Controllers.thy ===== *)
theory Controllers
  imports User_Dao Http_Conn
begin

text \<open>
  The controllers: \<open>src/mvc/controller/test_controller.h\<close>, \<open>test_tx_controller.h/.cpp\<close>, \<open>user_controller.h/.cpp\<close>,
  and the handler of \<open>/api/info\<close> that \<open>NetServer::init\<close> registers.

  \<open>http_handler\<close> names the handlers the program registers and \<open>run_handler\<close> is what calling one does; it is the
  \<open>run\<close> parameter of the HTTP connection. Besides the request and the response a handler reaches the singletons of the
  record \<open>server\<close>; its extension \<open>sv_ext\<close> is the pool of database connections and the state of the database. What
  the process gets from outside during a call (clock readings, thread id, libraries) is the record \<open>handler_env\<close>.
  A handler that waits for a connection of the pool is \<open>Inl Blocked\<close>.
\<close>

section \<open>Model\<close>

datatype http_handler =
    H_hello | H_time | H_echo | H_login | H_register | H_checkToken | H_tx_test | H_info server_config

type_synonym ('wh, 'd) app_server = "(http_handler, 'wh, sql_pool \<times> 'd) server"

record 'd handler_env =
  he_ssl :: openssl
  he_json :: json_lib
  he_mysql :: "'d mysql"
  he_clk :: "nat \<Rightarrow> time"
  he_tid :: string
  he_time :: int
  he_datetime :: string

definition busy_message :: string where
  "busy_message = bytes [232, 175, 183, 230, 177, 130, 232, 191, 135, 228, 186, 142, 233, 162, 145, 231, 185, 129, 239, 188, 140, 232, 175, 183, 231, 168, 141, 229, 144, 142, 229, 134, 141, 232, 175, 149, 239, 188, 129]"

definition login_ok_message :: string where
  "login_ok_message = bytes [231, 153, 187, 233, 153, 134, 230, 136, 144, 229, 138, 159]"

definition not_logged_in_message :: string where
  "not_logged_in_message = bytes [230, 156, 170, 231, 153, 187, 229, 189, 149]"

definition token_ok_message :: string where
  "token_ok_message = bytes [84, 111, 107, 101, 110, 230, 156, 137, 230, 149, 136]"

definition tx_ok_message :: string where
  "tx_ok_message = bytes [228, 186, 139, 229, 138, 161, 230, 143, 144, 228, 186, 164, 230, 136, 144, 229, 138, 159]"

definition tx_failed_message :: string where
  "tx_failed_message = bytes [228, 186, 139, 229, 138, 161, 229, 164, 177, 232, 180, 165, 239, 188, 140, 229, 183, 178, 229, 155, 158, 230, 187, 154]"

text \<open>\<open>form_data[key]\<close> on the handler's copy of the table.\<close>

definition form_value :: "http_base \<Rightarrow> string \<Rightarrow> string" where
  "form_value req key = (case m_form_data req key of None \<Rightarrow> [] | Some v \<Rightarrow> v)"

definition hello :: "json_lib \<Rightarrow> http_base \<Rightarrow> http_response \<Rightarrow> http_response result" where
  "hello J req res =
     sendJson J (m_keep_alive req) res 200 (JObject [(''code'', JString ''200''), (''message'', JString ''Hello from API'')])"

definition api_time :: "json_lib \<Rightarrow> int \<Rightarrow> string \<Rightarrow> http_base \<Rightarrow> http_response \<Rightarrow> http_response result" where
  "api_time J now datetime req res =
     sendJson J (m_keep_alive req) res 200
       (JObject [(''data'', JObject [(''datetime'', JString datetime), (''timestamp'', JInt now)]),
                 (''message'', JString ''successs''), (''status'', JString ''200'')])"

definition echo :: "http_base \<Rightarrow> http_response \<Rightarrow> http_response" where
  "echo req res = sendJson_text (m_keep_alive req) res 200 (m_request_body req)"

text \<open>Clock readings of \<open>login\<close>: 0 for the limiter, 1 to 3 for the session, 4 and 5 for the token.\<close>

definition login ::
  "'d handler_env \<Rightarrow> http_base \<Rightarrow> http_response \<Rightarrow> ('wh, 'd) app_server \<Rightarrow> (http_response \<times> ('wh, 'd) app_server) result" where
  "login env req res sv =
     (let (limited, rl) = isLimit (sv_limiter sv) ''login_ip'' (m_ip req) (he_clk env 0);
          sv = sv\<lparr>sv_limiter := rl\<rparr>
      in if limited
         then rbind (sendRESTfulJson (he_json env) (m_keep_alive req) res 429 busy_message []) (\<lambda>res. Inr (res, sv))
         else (let username = form_value req ''username'';
                   password = form_value req ''password'';
                   (ok, p, d) = service_login (he_mysql env) (fst (sv_ext sv)) username password (snd (sv_ext sv));
                   sv = sv\<lparr>sv_ext := (p, d)\<rparr>
               in rbind ok (\<lambda>ok.
                  if ok
                  then (let (_, sm) = createSession (sv_sessions sv) 1800000 (he_clk env 1) (he_clk env 2) (he_clk env 3) (he_tid env);
                            (token, tm) = createToken (he_ssl env) (sv_tokens sv) username 1800000 (he_clk env 4) (he_clk env 5) (he_tid env);
                            data = JObject [(''code'', JInt 0), (''message'', JString login_ok_message), (''token'', JString token)];
                            sv = sv\<lparr>sv_sessions := sm, sv_tokens := tm\<rparr>
                        in rbind (sendRESTfulJson_json (he_json env) (m_keep_alive req) res 0 ''OK'' data) (\<lambda>res. Inr (res, sv)))
                  else Inr (res, sv))))"

definition registerUser ::
  "'d handler_env \<Rightarrow> http_base \<Rightarrow> http_response \<Rightarrow> ('wh, 'd) app_server \<Rightarrow> (http_response \<times> ('wh, 'd) app_server) result" where
  "registerUser env req res sv =
     (let username = form_value req ''username'';
          password = form_value req ''password'';
          (ok, p, d) = service_registerUser (he_mysql env) (fst (sv_ext sv)) username password (snd (sv_ext sv))
      in rbind ok (\<lambda>ok.
         let new_url = (if ok then ''/register_success.html'' else ''/register_error.html'')
         in Inr (sendRedirect res new_url, sv\<lparr>sv_ext := (p, d)\<rparr>)))"

definition checkToken :: "json_lib \<Rightarrow> http_base \<Rightarrow> http_response \<Rightarrow> http_response result" where
  "checkToken J req res =
     (if \<not> m_authenticated req then sendRESTfulJson J (m_keep_alive req) res 401 not_logged_in_message []
      else (let token = getToken req; username = m_username req
            in sendRESTfulJson_json J (m_keep_alive req) res 0 token_ok_message
                 (JObject [(''token'', JString token), (''username'', JString username)])))"

definition tx_handle ::
  "'d handler_env \<Rightarrow> http_base \<Rightarrow> http_response \<Rightarrow> ('wh, 'd) app_server \<Rightarrow> (http_response \<times> ('wh, 'd) app_server) result" where
  "tx_handle env req res sv =
     rbind (json_get_string (m_request_json req) ''username'') (\<lambda>username.
     rbind (json_get_string (m_request_json req) ''age'') (\<lambda>age.
     rbind (stoi age) (\<lambda>age.
     let (ok, p, d) = tx_insertUser (he_mysql env) (fst (sv_ext sv)) username age (snd (sv_ext sv))
     in rbind ok (\<lambda>success.
        rbind (if success then sendRESTfulJson_json (he_json env) (m_keep_alive req) res 200 tx_ok_message JNull
               else sendRESTfulJson_json (he_json env) (m_keep_alive req) res 500 tx_failed_message JNull) (\<lambda>res.
        Inr (res, sv\<lparr>sv_ext := (p, d)\<rparr>))))))"

definition api_info :: "json_lib \<Rightarrow> server_config \<Rightarrow> http_base \<Rightarrow> http_response \<Rightarrow> http_response result" where
  "api_info J cfg req res =
     (let data = JObject [(''actor_model'', JString (if actor_model cfg = 1 then ''Reactor'' else ''Proactor'')),
                          (''http_port'', JInt (http_port cfg)), (''thread_num'', JInt (thread_num cfg)),
                          (''trig_mode'', JString (if trig_mode cfg = 1 then ''ET'' else ''LT''))]
      in sendJson J (m_keep_alive req) res 200
           (JObject [(''data'', data), (''message'', JString ''success''), (''status'', JString ''200'')]))"

definition run_handler ::
  "'d handler_env \<Rightarrow> http_handler \<Rightarrow> http_base \<Rightarrow> http_response \<Rightarrow> ('wh, 'd) app_server \<Rightarrow>
   (http_response \<times> ('wh, 'd) app_server) result" where
  "run_handler env h req res sv =
     (case h of
        H_hello \<Rightarrow> rbind (hello (he_json env) req res) (\<lambda>res. Inr (res, sv))
      | H_time \<Rightarrow> rbind (api_time (he_json env) (he_time env) (he_datetime env) req res) (\<lambda>res. Inr (res, sv))
      | H_echo \<Rightarrow> Inr (echo req res, sv)
      | H_login \<Rightarrow> login env req res sv
      | H_register \<Rightarrow> registerUser env req res sv
      | H_checkToken \<Rightarrow> rbind (checkToken (he_json env) req res) (\<lambda>res. Inr (res, sv))
      | H_tx_test \<Rightarrow> tx_handle env req res sv
      | H_info cfg \<Rightarrow> rbind (api_info (he_json env) cfg req res) (\<lambda>res. Inr (res, sv)))"

section \<open>Registration\<close>

definition TestController_registerRoutes :: "(http_handler, 'wh) router \<Rightarrow> (http_handler, 'wh) router" where
  "TestController_registerRoutes rt =
     (let rt = registerGet rt ''/api/hello'' H_hello;
          rt = registerGet rt ''/api/time'' H_time
      in registerPost rt ''/api/echo'' H_echo)"

definition UserController_registerRoutes :: "(http_handler, 'wh) router \<Rightarrow> (http_handler, 'wh) router" where
  "UserController_registerRoutes rt =
     (let rt = registerPost rt ''/login'' H_login;
          rt = registerPost rt ''/register'' H_register
      in registerGet rt ''/checktoken'' H_checkToken)"

definition TestTxController_registerRoutes :: "(http_handler, 'wh) router \<Rightarrow> (http_handler, 'wh) router" where
  "TestTxController_registerRoutes rt = registerPost rt ''/api/tx_test'' H_tx_test"

section \<open>The user table behind \<open>checkUser\<close>\<close>

text \<open>What the statements of \<open>checkUser\<close> find on a server that works and stores the passwords \<open>pwd\<close>: \<open>q d s\<close> is the
  text and the parameters of statement \<open>s\<close>.\<close>

definition user_server :: "'d mysql \<Rightarrow> ('d \<Rightarrow> nat \<Rightarrow> string \<times> my_bind list) \<Rightarrow> (string \<rightharpoonup> string) \<Rightarrow> bool" where
  "user_server my q pwd \<longleftrightarrow>
     (\<forall>c d. c \<noteq> 0 \<longrightarrow> fst (mysql_stmt_init my c d) \<noteq> 0) \<and>
     (\<forall>s t d. fst (mysql_stmt_prepare my s t d) \<and> fst (q (snd (mysql_stmt_prepare my s t d)) s) = t) \<and>
     (\<forall>s d. fst (q d s) = check_sql \<longrightarrow> mysql_stmt_param_count my s d = 1) \<and>
     (\<forall>s bs d. fst (mysql_stmt_bind_param my s bs d) \<and> q (snd (mysql_stmt_bind_param my s bs d)) s = (fst (q d s), bs)) \<and>
     (\<forall>s d. fst (mysql_stmt_execute my s d) \<and> q (snd (mysql_stmt_execute my s d)) s = q d s) \<and>
     (\<forall>s d. fst (mysql_stmt_store_result my s d) \<and> q (snd (mysql_stmt_store_result my s d)) s = q d s) \<and>
     (\<forall>s d. fst (q d s) = check_sql \<longrightarrow> mysql_stmt_result_metadata my s d = Some [''password'']) \<and>
     (\<forall>s d. fst (mysql_stmt_bind_result my s d) \<and> q (snd (mysql_stmt_bind_result my s d)) s = q d s) \<and>
     (\<forall>s d u. q d s = (check_sql, [Bind_string u]) \<longrightarrow>
        fst (mysql_stmt_fetches my s d) = (case pwd u of None \<Rightarrow> [] | Some w \<Rightarrow> [Fetch_row [Some w]])) \<and>
     (\<forall>u w. pwd u = Some w \<longrightarrow> length w \<le> column_buffer)"

lemma check_body_user_server:
  assumes "user_server my q pwd" "m_bindParams ex = []"
  shows "fst (check_body my ex u w d) = Inr (pwd u = Some w)"
proof -
  define s where "s = m_stmt ex"
  define d1 where "d1 = snd (mysql_stmt_prepare my s check_sql d)"
  have p: "mysql_stmt_prepare my s check_sql d = (True, d1)" "fst (q d1 s) = check_sql"
    using assms(1) by (simp_all add: user_server_def d1_def prod_eq_iff)
  define d2 where "d2 = snd (mysql_stmt_bind_param my s [Bind_string u] d1)"
  have b: "mysql_stmt_bind_param my s [Bind_string u] d1 = (True, d2)" "q d2 s = (check_sql, [Bind_string u])"
    "mysql_stmt_param_count my s d1 = 1"
    using assms(1) p(2) by (simp_all add: user_server_def d2_def prod_eq_iff)
  define d3 where "d3 = snd (mysql_stmt_execute my s d2)"
  have e: "mysql_stmt_execute my s d2 = (True, d3)" "q d3 s = (check_sql, [Bind_string u])"
    using assms(1) b(2) by (simp_all add: user_server_def d3_def prod_eq_iff)
  define d4 where "d4 = snd (mysql_stmt_store_result my s d3)"
  have st: "mysql_stmt_store_result my s d3 = (True, d4)" "q d4 s = (check_sql, [Bind_string u])"
    using assms(1) e(2) by (simp_all add: user_server_def d4_def prod_eq_iff)
  define d5 where "d5 = snd (mysql_stmt_bind_result my s d4)"
  have r: "mysql_stmt_bind_result my s d4 = (True, d5)" "q d5 s = (check_sql, [Bind_string u])"
    "mysql_stmt_result_metadata my s d4 = Some [''password'']"
    using assms(1) st(2) by (simp_all add: user_server_def d5_def prod_eq_iff)
  define outs where "outs = (case pwd u of None \<Rightarrow> [] | Some w \<Rightarrow> [Fetch_row [Some w]])"
  have "fst (mysql_stmt_fetches my s d5) = outs"
    using assms(1) r(2) by (simp add: user_server_def outs_def)
  then obtain d6 where f: "mysql_stmt_fetches my s d5 = (outs, d6)" by (metis prod.collapse)
  have len: "length v \<le> column_buffer" if "pwd u = Some v" for v using assms(1) that by (simp add: user_server_def)
  define ex2 where "ex2 = ex\<lparr>m_bindParams := [Bind_string u]\<rparr>"
  have "bindParam_string ex 0 u = (True, ex2)"
    using set_bind_append [of "[]"] by (simp add: bindParam_string_def ex2_def assms(2))
  moreover have "execute my ex2 d1 = (True, d3)" using b e by (simp add: execute_def ex2_def s_def)
  moreover have "fetchAll my ex2 d3 = (fetch_rows [''password''] outs, d6)"
    using st r f by (simp add: fetchAll_def ex2_def s_def)
  moreover have "prepare my ex check_sql d = (True, d1)" using p by (simp add: prepare_def s_def)
  ultimately show ?thesis
    using len by (cases "pwd u") (auto simp: check_body_def outs_def)
qed

lemma checkUser_user_server:
  assumes "user_server my q pwd" "m_conn_queue p \<noteq> []" "0 \<notin> set (m_conn_queue p)"
  shows "fst (checkUser my p u w d) = Inr (pwd u = Some w)"
proof -
  obtain c rest where c: "m_conn_queue p = c # rest" "c \<noteq> 0" using assms(2,3) by (cases "m_conn_queue p") auto
  obtain s d1 where i: "mysql_stmt_init my c d = (s, d1)" by fastforce
  then have "s \<noteq> 0" using assms(1) c(2) by (metis fst_conv user_server_def)
  with c i check_body_user_server [OF assms(1), of "\<lparr>ex_conn = c, m_stmt = s, m_bindParams = []\<rparr>" u w d1]
  show ?thesis
    by (auto simp: checkUser_def with_conn_def getConn_def SqlExecutor_new_def split: prod.splits)
qed

section \<open>Properties\<close>


definition demo_env :: "demo_db handler_env" where
  "demo_env = \<lparr>he_ssl = demo_ssl, he_json = demo_json, he_mysql = demo_mysql, he_clk = (\<lambda>i. int i), he_tid = ''42'',
               he_time = 0, he_datetime = []\<rparr>"

definition demo_app :: "(unit, demo_db) app_server" where
  "demo_app = \<lparr>sv_sessions = session_init, sv_tokens = token_init, sv_limiter = rl_empty,
     sv_interceptor = \<lparr>m_typeInterceptorMap = Map.empty, m_typeWhiteListMap = Map.empty,
       m_typeInterceptorEnableMap = Map.empty, m_interceptorClose = True\<rparr>,
     sv_router = router_new, sv_ext = (pool_new\<lparr>m_conn_queue := [7], m_free_conn := 1\<rparr>, demo_db0)\<rparr>"

definition login_request :: "string \<Rightarrow> http_base" where
  "login_request password = (http_base_init ''10.0.0.1'')\<lparr>m_form_data := [''username'' \<mapsto> ''ann'', ''password'' \<mapsto> password]\<rparr>"

lemma demo_user_server: "user_server demo_mysql (\<lambda>d s. (db_sql d, db_bound d)) [''ann'' \<mapsto> ''secret'']"
  by (auto simp: user_server_def demo_mysql_def check_sql_def column_buffer_def)


end
