(* ===== verification/Thread_Pool.thy ===== *)
theory Thread_Pool
  imports Prelude "HOL-Library.Multiset"
begin

text \<open>
  The thread pool: \<open>src/threadpool/thread_pool.h\<close> and \<open>thread_pool.cpp\<close>.

  The shared state is the queue of tasks and the flag \<open>m_stop\<close>; every thread is at one of four places of
  \<open>worker()\<close>: about to test \<open>m_stop\<close> (\<open>At_loop\<close>), inside \<open>m_cv.wait\<close> (\<open>At_wait\<close>), executing a task, or returned.
  One step is one access to the shared state: the test of the atomic flag, one section under \<open>m_mutex\<close>, the end of
  a task. The wait ends only when its predicate holds, whichever notification woke the thread: every change of the
  predicate is made under the mutex and followed by a notification, so a thread whose predicate holds is not left
  asleep. Which thread moves next is open. A task is a value that returns when it is executed.

  The lists \<open>added\<close>, \<open>started\<close> and \<open>finished\<close> record the history.
\<close>

section \<open>Model\<close>

datatype 't worker = At_loop | At_wait | Executing 't | Returned

record 't thread_pool =
  m_threads :: "'t worker list"
  m_tasks :: "'t list"
  m_stop :: bool
  added :: "'t list"
  started :: "'t list"
  finished :: "'t list"

definition ThreadPool_new :: "nat \<Rightarrow> 't thread_pool" where
  "ThreadPool_new thread_count =
     \<lparr>m_threads = replicate thread_count At_loop, m_tasks = [], m_stop = False, added = [], started = [], finished = []\<rparr>"

definition addTask :: "'t thread_pool \<Rightarrow> 't \<Rightarrow> 't thread_pool" where
  "addTask p task = p\<lparr>m_tasks := m_tasks p @ [task], added := added p @ [task]\<rparr>"

text \<open>The first half of \<open>shutdown\<close>; the joins wait for every thread to return.\<close>

definition pool_stop :: "'t thread_pool \<Rightarrow> 't thread_pool" where
  "pool_stop p = p\<lparr>m_stop := True\<rparr>"

definition joined :: "'t thread_pool \<Rightarrow> bool" where
  "joined p \<longleftrightarrow> (\<forall>w \<in> set (m_threads p). w = Returned)"

text \<open>One step of thread \<open>i\<close>; \<open>None\<close> when it waits or has returned.\<close>

definition worker_step :: "'t thread_pool \<Rightarrow> nat \<Rightarrow> 't thread_pool option" where
  "worker_step p i =
     (if i < length (m_threads p) then
        (case m_threads p ! i of
           At_loop \<Rightarrow> Some (p\<lparr>m_threads := (m_threads p)[i := if m_stop p then Returned else At_wait]\<rparr>)
         | At_wait \<Rightarrow>
             if \<not> (m_stop p \<or> m_tasks p \<noteq> []) then None
             else (case m_tasks p of
                     [] \<Rightarrow> Some (p\<lparr>m_threads := (m_threads p)[i := Returned]\<rparr>)
                   | task # rest \<Rightarrow>
                       Some (p\<lparr>m_threads := (m_threads p)[i := Executing task], m_tasks := rest,
                               started := started p @ [task]\<rparr>))
         | Executing task \<Rightarrow>
             Some (p\<lparr>m_threads := (m_threads p)[i := At_loop], finished := finished p @ [task]\<rparr>)
         | Returned \<Rightarrow> None)
      else None)"

inductive pool_step :: "'t thread_pool \<Rightarrow> 't thread_pool \<Rightarrow> bool" where
  add: "pool_step p (addTask p task)"
| stop: "pool_step p (pool_stop p)"
| work: "worker_step p i = Some p' \<Longrightarrow> pool_step p p'"

inductive_cases pool_stepE: "pool_step p p'"

text \<open>Steps of the threads alone.\<close>

definition thread_step :: "'t thread_pool \<Rightarrow> 't thread_pool \<Rightarrow> bool" where
  "thread_step p p' \<longleftrightarrow> (\<exists>i. worker_step p i = Some p')"

section \<open>The invariant\<close>

fun executing :: "'t worker \<Rightarrow> 't list" where
  "executing (Executing t) = [t]"
| "executing _ = []"

definition running :: "'t thread_pool \<Rightarrow> 't list" where
  "running p = concat (map executing (m_threads p))"

definition tp_inv :: "'t thread_pool \<Rightarrow> bool" where
  "tp_inv p \<longleftrightarrow>
     added p = started p @ m_tasks p \<and> mset (started p) = mset (finished p) + mset (running p) \<and>
     (m_stop p \<or> Returned \<notin> set (m_threads p))"

lemma mset_running_update:
  "i < length ws \<Longrightarrow>
   mset (concat (map executing (ws[i := w]))) + mset (executing (ws ! i)) =
   mset (concat (map executing ws)) + mset (executing w)"
  by (induction ws arbitrary: i) (auto split: nat.splits)

lemma running_update:
  assumes "i < length (m_threads p)"
  shows "mset (running (p\<lparr>m_threads := (m_threads p)[i := w]\<rparr>)) + mset (executing (m_threads p ! i)) =
    mset (running p) + mset (executing w)"
  using mset_running_update [OF assms, of w] by (simp add: running_def)

lemma tp_inv_new: "tp_inv (ThreadPool_new n)"
  by (auto simp: tp_inv_def ThreadPool_new_def running_def)

lemma tp_inv_worker:
  assumes "tp_inv p" "worker_step p i = Some p'"
  shows "tp_inv p'"
proof -
  have i: "i < length (m_threads p)" using assms(2) by (simp add: worker_step_def split: if_splits)
  note upd = running_update [OF i]
  have ret: "Returned \<notin> set ((m_threads p)[i := w])" if "Returned \<notin> set (m_threads p)" "w \<noteq> Returned" for w
    using that set_update_subset_insert [of "m_threads p" i w] by blast
  show ?thesis
  proof (cases "m_threads p ! i")
    case At_loop
    with assms i upd [of "if m_stop p then Returned else At_wait"] ret show ?thesis
      by (auto simp: tp_inv_def worker_step_def running_def)
  next
    case At_wait
    show ?thesis
    proof (cases "m_tasks p")
      case Nil
      with At_wait assms i upd [of Returned] show ?thesis
        by (auto simp: tp_inv_def worker_step_def running_def split: if_splits)
    next
      case (Cons t r)
      with At_wait assms i upd [of "Executing t"] ret show ?thesis
        by (auto simp: tp_inv_def worker_step_def running_def)
    qed
  next
    case (Executing t)
    with assms i upd [of At_loop] ret show ?thesis
      by (auto simp: tp_inv_def worker_step_def running_def)
  next
    case Returned
    with assms i show ?thesis by (simp add: worker_step_def)
  qed
qed

lemma tp_inv_calls: "tp_inv p \<Longrightarrow> tp_inv (addTask p task)" "tp_inv p \<Longrightarrow> tp_inv (pool_stop p)"
  by (auto simp: tp_inv_def addTask_def pool_stop_def running_def)

lemma tp_inv_step: "pool_step p p' \<Longrightarrow> tp_inv p \<Longrightarrow> tp_inv p'"
  by (erule pool_stepE) (auto intro: tp_inv_worker tp_inv_calls)

lemma tp_inv_reach: "pool_step\<^sup>*\<^sup>* p p' \<Longrightarrow> tp_inv p \<Longrightarrow> tp_inv p'"
  by (induction rule: rtranclp_induct) (auto intro: tp_inv_step)

section \<open>Progress\<close>

fun worker_fuel :: "'t worker \<Rightarrow> nat" where
  "worker_fuel At_loop = 2"
| "worker_fuel At_wait = 1"
| "worker_fuel (Executing _) = 3"
| "worker_fuel Returned = 0"

text \<open>A bound on the number of steps the threads can make before something is added.\<close>

definition pool_fuel :: "'t thread_pool \<Rightarrow> nat" where
  "pool_fuel p = 3 * length (m_tasks p) + sum_list (map worker_fuel (m_threads p))"

lemma sum_fuel_update:
  "i < length ws \<Longrightarrow>
   sum_list (map worker_fuel (ws[i := w])) + worker_fuel (ws ! i) = sum_list (map worker_fuel ws) + worker_fuel w"
  by (induction ws arbitrary: i) (auto split: nat.splits)

lemma worker_step_fuel:
  assumes "worker_step p i = Some p'"
  shows "pool_fuel p' < pool_fuel p"
proof -
  have i: "i < length (m_threads p)" using assms by (simp add: worker_step_def split: if_splits)
  note upd = sum_fuel_update [OF i]
  show ?thesis
  proof (cases "m_threads p ! i")
    case At_loop
    with assms i upd [of "if m_stop p then Returned else At_wait"] show ?thesis
      by (auto simp: worker_step_def pool_fuel_def split: if_splits)
  next
    case At_wait
    show ?thesis
    proof (cases "m_tasks p")
      case Nil
      with At_wait assms i upd [of Returned] show ?thesis
        by (auto simp: worker_step_def pool_fuel_def split: if_splits)
    next
      case (Cons t r)
      with At_wait assms i upd [of "Executing t"] show ?thesis
        by (auto simp: worker_step_def pool_fuel_def)
    qed
  next
    case (Executing t)
    with assms i upd [of At_loop] show ?thesis by (auto simp: worker_step_def pool_fuel_def)
  next
    case Returned
    with assms i show ?thesis by (simp add: worker_step_def)
  qed
qed

lemma thread_step_fuel: "thread_step p p' \<Longrightarrow> pool_fuel p' < pool_fuel p"
  by (auto simp: thread_step_def dest: worker_step_fuel)

lemma worker_step_frame:
  "worker_step p i = Some p' \<Longrightarrow>
   length (m_threads p') = length (m_threads p) \<and> m_stop p' = m_stop p \<and> added p' = added p"
  by (auto simp: worker_step_def split: if_splits worker.splits list.splits)

lemma thread_steps_frame:
  "thread_step\<^sup>*\<^sup>* p p' \<Longrightarrow> length (m_threads p') = length (m_threads p) \<and> m_stop p' = m_stop p \<and> added p' = added p"
  by (induction rule: rtranclp_induct) (auto simp: thread_step_def dest: worker_step_frame)

lemma pool_steps_threads: "pool_step\<^sup>*\<^sup>* p p' \<Longrightarrow> length (m_threads p') = length (m_threads p)"
  by (induction rule: rtranclp_induct) (auto elim!: pool_stepE dest: worker_step_frame simp: addTask_def pool_stop_def)

lemma thread_steps_reach: "thread_step\<^sup>*\<^sup>* p p' \<Longrightarrow> pool_step\<^sup>*\<^sup>* p p'"
proof (induction rule: rtranclp_induct)
  case (step y z)
  then have "pool_step y z" by (auto simp: thread_step_def intro: pool_step.work)
  with step show ?case by (meson rtranclp.rtrancl_into_rtrancl)
qed simp

text \<open>What it means that no thread can move.\<close>

lemma stuck_worker:
  assumes "\<not> (\<exists>p'. thread_step p p')" "w \<in> set (m_threads p)"
  shows "w = Returned \<or> w = At_wait \<and> \<not> m_stop p \<and> m_tasks p = []"
proof -
  obtain i where i: "i < length (m_threads p)" "m_threads p ! i = w" using assms(2) by (metis in_set_conv_nth)
  have "worker_step p i = None" using assms(1) by (cases "worker_step p i") (auto simp: thread_step_def)
  with i show ?thesis by (cases w) (auto simp: worker_step_def split: if_splits list.splits)
qed

lemma no_running:
  "\<forall>w \<in> set (m_threads p). w = Returned \<or> w = At_wait \<Longrightarrow> running p = []"
  by (auto simp: running_def)

section \<open>Properties\<close>

text \<open>C14. Order and uniqueness: in every interleaving of calls of \<open>addTask\<close>, of a shutdown and of the threads, the
  tasks started so far are a beginning of the tasks added, in the order they were added, and the rest is exactly the queue;
  every started task is finished or being executed by one thread, so no task is lost, repeated or overtaken.\<close>

theorem tasks_fifo:
  assumes "pool_step\<^sup>*\<^sup>* (ThreadPool_new n) p"
  shows "added p = started p @ m_tasks p \<and> mset (started p) = mset (finished p) + mset (running p)"
  using tp_inv_reach [OF assms tp_inv_new] by (simp add: tp_inv_def)

theorem tasks_fifo_witness:
  "added (addTask (ThreadPool_new 1) ''a'') = started (addTask (ThreadPool_new 1) ''a'') @ m_tasks (addTask (ThreadPool_new 1) ''a'')"
proof -
  have "pool_step\<^sup>*\<^sup>* (ThreadPool_new 1) (addTask (ThreadPool_new 1) ''a'')" by (blast intro: pool_step.add)
  from tasks_fifo [OF this] show ?thesis by simp
qed

text \<open>C15. Progress: from every reachable state of a pool with at least one thread the threads alone can make at most
  \<open>pool_fuel\<close> steps, and wherever they come to rest, either the pool was not shut down and every task ever added has been
  executed, or it was and every thread has returned, so that the joins of \<open>shutdown\<close> end. After a shutdown the queue
  need not be empty: what it still holds is never executed.\<close>

theorem pool_progress:
  assumes "pool_step\<^sup>*\<^sup>* (ThreadPool_new n) p" "0 < n"
    and "(thread_step ^^ k) p p'"
  shows "k \<le> pool_fuel p \<and>
    ((\<nexists>p''. thread_step p' p'') \<longrightarrow>
       (if m_stop p then joined p' else mset (finished p') = mset (added p)))"
proof -
  have "pool_fuel p' + k \<le> pool_fuel p" using assms(3)
  proof (induction k arbitrary: p')
    case (Suc k)
    then obtain q where "(thread_step ^^ k) p q" "thread_step q p'" by auto
    with Suc.IH [of q] thread_step_fuel [of q p'] show ?case by simp
  qed simp
  moreover have reach: "thread_step\<^sup>*\<^sup>* p p'" using assms(3) by (rule relpowp_imp_rtranclp)
  have "if m_stop p then joined p' else mset (finished p') = mset (added p)" if "\<nexists>p''. thread_step p' p''"
  proof -
    have inv: "tp_inv p'"
      using tp_inv_reach [OF _ tp_inv_new] assms(1) thread_steps_reach [OF reach] by (meson rtranclp_trans)
    have f: "length (m_threads p') = n" "m_stop p' = m_stop p" "added p' = added p"
      using thread_steps_frame [OF reach] pool_steps_threads [OF assms(1)] by (auto simp: ThreadPool_new_def)
    note stuck = stuck_worker [OF that]
    show ?thesis
    proof (cases "m_stop p")
      case True
      with stuck f show ?thesis by (auto simp: joined_def)
    next
      case False
      have "m_threads p' \<noteq> []" using f assms(2) by auto
      then have "hd (m_threads p') \<in> set (m_threads p')" by simp
      then have "m_tasks p' = []" using stuck inv False f by (fastforce simp: tp_inv_def)
      moreover have "running p' = []" using stuck by (blast intro: no_running)
      ultimately show ?thesis using inv False f by (simp add: tp_inv_def)
    qed
  qed
  ultimately show ?thesis by simp
qed

theorem pool_progress_witness:
  "\<exists>p'. (thread_step ^^ 3) (addTask (ThreadPool_new 1) ''a'') p' \<and> 3 \<le> pool_fuel (addTask (ThreadPool_new 1) ''a'')"
proof -
  define p where "p = addTask (ThreadPool_new 1) ''a''"
  have r: "pool_step\<^sup>*\<^sup>* (ThreadPool_new 1) p" by (auto simp: p_def intro: pool_step.add)
  define p1 p2 p3 where "p1 = p\<lparr>m_threads := [At_wait]\<rparr>"
    and "p2 = p\<lparr>m_threads := [Executing ''a''], m_tasks := [], started := [''a'']\<rparr>"
    and "p3 = p2\<lparr>m_threads := [At_loop], finished := [''a'']\<rparr>"
  have "worker_step p 0 = Some p1" "worker_step p1 0 = Some p2" "worker_step p2 0 = Some p3"
    by (simp_all add: worker_step_def p_def p1_def p2_def p3_def addTask_def ThreadPool_new_def)
  then have "thread_step p p1" "thread_step p1 p2" "thread_step p2 p3" unfolding thread_step_def by blast+
  then have s: "(thread_step ^^ 3) p p3" unfolding numeral_3_eq_3 by (meson relpowp_0_I relpowp_Suc_I)
  have "3 \<le> pool_fuel p" using pool_progress [OF r _ s] by simp
  with s show ?thesis unfolding p_def by (intro exI conjI)
qed

end
