(* ===== verification/Async_Log.thy ===== *)
theory Async_Log
  imports Prelude
begin

text \<open>
  The log: \<open>src/log/log.h\<close>, \<open>log.cpp\<close> and \<open>log_utils.h\<close>.

  Entries go through a queue to one writing thread. The state has the members of the class, the lines of the log file, the
  place of the thread in \<open>logThread()\<close> and the place of the caller of \<open>shutdown()\<close>. In \<open>m_cv.wait\<close> the thread evaluates
  the predicate with the mutex held (\<open>T_wait\<close>), then goes to sleep: \<open>T_block\<close> is the moment between, with the mutex still
  held. A notification reaches only a sleeping thread. Entries that passed the test of \<open>m_close_log\<close> but are not yet in the
  queue are \<open>log_pending\<close>. Time stamps and the text \<open>vsnprintf\<close> makes are arguments, writing to the file succeeds. The
  destructor has places of its own; the thread that runs it is the one that calls \<open>shutdown()\<close>.
\<close>

section \<open>Entries\<close>

datatype log_level = DEBUG | INFO | WARN | ERROR_level

definition level_num :: "log_level \<Rightarrow> nat" where
  "level_num l = (case l of DEBUG \<Rightarrow> 0 | INFO \<Rightarrow> 1 | WARN \<Rightarrow> 2 | ERROR_level \<Rightarrow> 3)"

instantiation log_level :: linorder
begin

definition less_eq_log_level :: "log_level \<Rightarrow> log_level \<Rightarrow> bool" where
  "less_eq_log_level a b \<longleftrightarrow> level_num a \<le> level_num b"

definition less_log_level :: "log_level \<Rightarrow> log_level \<Rightarrow> bool" where
  "less_log_level a b \<longleftrightarrow> level_num a < level_num b"

instance
  by intro_classes (auto simp: less_eq_log_level_def less_log_level_def level_num_def split: log_level.splits)

end

definition levelToString :: "log_level \<Rightarrow> string" where
  "levelToString level =
     (case level of DEBUG \<Rightarrow> ''DEBUG'' | INFO \<Rightarrow> ''INFO'' | WARN \<Rightarrow> ''WARN'' | ERROR_level \<Rightarrow> ''ERROR'')"

text \<open>\<open>stamp\<close> is the text of \<open>std::put_time\<close>.\<close>

definition formatLog :: "string \<Rightarrow> log_level \<Rightarrow> string \<Rightarrow> string" where
  "formatLog stamp level message = stamp @ '' ['' @ levelToString level @ ''] '' @ message"

section \<open>State\<close>

datatype log_thread = T_none | T_loop | T_wait | T_block | T_asleep | T_exit

datatype log_closer = C_idle | C_running | C_closed | C_joining | C_joined | C_done

datatype log_dtor = D_alive | D_stopped | D_joining | D_done

record async_log =
  m_close_log :: bool
  m_level :: log_level
  m_running :: bool
  m_log_queue :: "string list"
  m_log_open :: bool
  m_log_file :: "string list"
  log_thread_at :: log_thread
  log_closer_at :: log_closer
  log_dtor_at :: log_dtor
  log_pending :: "string list"
  log_accepted :: "string list"

definition Log_new :: async_log where
  "Log_new = \<lparr>m_close_log = False, m_level = INFO, m_running = False, m_log_queue = [], m_log_open = False,
              m_log_file = [], log_thread_at = T_none, log_closer_at = C_idle,
              log_dtor_at = D_alive, log_pending = [], log_accepted = []\<rparr>"

text \<open>\<open>file_ok\<close>: the file could be opened.\<close>

definition log_init :: "async_log \<Rightarrow> log_level \<Rightarrow> bool \<Rightarrow> bool \<Rightarrow> async_log" where
  "log_init l level enable_log file_ok =
     (let l = l\<lparr>m_close_log := \<not> enable_log\<rparr>
      in if m_close_log l then l
         else if \<not> file_ok then l
         else l\<lparr>m_log_open := True, m_level := level, m_running := True, log_thread_at := T_loop\<rparr>)"

definition setLogEnabled :: "async_log \<Rightarrow> bool \<Rightarrow> async_log" where
  "setLogEnabled l enabled = l\<lparr>m_close_log := \<not> enabled\<rparr>"

definition log_isClosed :: "async_log \<Rightarrow> bool" where
  "log_isClosed l = m_close_log l"

text \<open>The entry a call of \<open>write\<close> makes, if any, and what it does with it.\<close>

definition log_entry :: "async_log \<Rightarrow> string \<Rightarrow> log_level \<Rightarrow> string \<Rightarrow> string option" where
  "log_entry l stamp level message =
     (if m_close_log l then None
      else if m_level l \<le> level then Some (formatLog stamp level message) else None)"

definition log_notify :: "async_log \<Rightarrow> async_log" where
  "log_notify l = (if log_thread_at l = T_asleep then l\<lparr>log_thread_at := T_wait\<rparr> else l)"

definition log_push :: "async_log \<Rightarrow> string \<Rightarrow> async_log" where
  "log_push l e = log_notify (l\<lparr>m_log_queue := m_log_queue l @ [e], log_accepted := log_accepted l @ [e]\<rparr>)"

definition log_write :: "async_log \<Rightarrow> string \<Rightarrow> log_level \<Rightarrow> string \<Rightarrow> async_log" where
  "log_write l stamp level message =
     (case log_entry l stamp level message of None \<Rightarrow> l | Some e \<Rightarrow> log_push l e)"

text \<open>\<open>writef\<close>: \<open>text\<close> is what the format expands to; the buffer keeps 1023 bytes of it.\<close>

definition log_writef :: "async_log \<Rightarrow> string \<Rightarrow> log_level \<Rightarrow> string \<Rightarrow> async_log" where
  "log_writef l stamp level txt =
     (if m_close_log l \<or> level < m_level l then l else log_write l stamp level (c_str (take 1023 txt)))"

text \<open>The wrappers of \<open>log_utils.h\<close>.\<close>

definition LOG :: "log_level \<Rightarrow> async_log \<Rightarrow> string \<Rightarrow> string \<Rightarrow> async_log" where
  "LOG level l stamp msg = (if \<not> log_isClosed l then log_write l stamp level msg else l)"

definition LOGF :: "log_level \<Rightarrow> async_log \<Rightarrow> string \<Rightarrow> string \<Rightarrow> async_log" where
  "LOGF level l stamp txt = (if \<not> log_isClosed l then log_writef l stamp level txt else l)"

definition drain_queue :: "async_log \<Rightarrow> async_log" where
  "drain_queue l = l\<lparr>m_log_file := m_log_file l @ m_log_queue l, m_log_queue := []\<rparr>"

text \<open>One step of \<open>logThread()\<close>; \<open>None\<close> when it sleeps, has returned or does not exist.\<close>

definition logThread :: "async_log \<Rightarrow> async_log option" where
  "logThread l =
     (case log_thread_at l of
        T_loop \<Rightarrow> Some (l\<lparr>log_thread_at := if m_running l then T_wait else T_exit\<rparr>)
      | T_wait \<Rightarrow>
          if m_log_queue l \<noteq> [] \<or> \<not> m_running l then Some ((drain_queue l)\<lparr>log_thread_at := T_loop\<rparr>)
          else Some (l\<lparr>log_thread_at := T_block\<rparr>)
      | T_block \<Rightarrow> Some (l\<lparr>log_thread_at := T_asleep\<rparr>)
      | _ \<Rightarrow> None)"

text \<open>One step of \<open>shutdown()\<close>; \<open>None\<close> when it waits in \<open>join\<close> or is over. The mutex of its last part is free once the
  thread has returned.\<close>

definition log_shutdown :: "async_log \<Rightarrow> async_log option" where
  "log_shutdown l =
     (case log_closer_at l of
        C_idle \<Rightarrow>
          if m_close_log l \<or> \<not> m_running l then None
          else Some (l\<lparr>m_running := False, log_closer_at := C_running\<rparr>)
      | C_running \<Rightarrow> Some (l\<lparr>m_close_log := True, log_closer_at := C_closed\<rparr>)
      | C_closed \<Rightarrow> Some ((log_notify l)\<lparr>log_closer_at := C_joining\<rparr>)
      | C_joining \<Rightarrow> if log_thread_at l = T_exit then Some (l\<lparr>log_closer_at := C_joined\<rparr>) else None
      | C_joined \<Rightarrow> Some ((drain_queue l)\<lparr>m_log_open := False, log_closer_at := C_done\<rparr>)
      | C_done \<Rightarrow> None)"

text \<open>\<open>flush()\<close> takes the mutex, so it has to wait while the thread holds it (\<open>None\<close>). \<open>std::endl\<close> has flushed every line
  when it was written: there is nothing left for \<open>flush\<close> to write.\<close>

definition log_flush :: "async_log \<Rightarrow> async_log option" where
  "log_flush l = (if log_thread_at l = T_block then None else Some l)"

text \<open>One step of the destructor, which runs once no call of \<open>shutdown()\<close> is under way; \<open>None\<close> when it waits in \<open>join\<close> or is over. A thread that
  was never started or has been joined is not \<open>joinable\<close>.\<close>

definition log_destroy :: "async_log \<Rightarrow> async_log option" where
  "log_destroy l =
     (case log_dtor_at l of
        D_alive \<Rightarrow>
          if log_closer_at l = C_idle \<or> log_closer_at l = C_done then Some (l\<lparr>m_running := False, log_dtor_at := D_stopped\<rparr>)
          else None
      | D_stopped \<Rightarrow> Some ((log_notify l)\<lparr>log_dtor_at := D_joining\<rparr>)
      | D_joining \<Rightarrow>
          if log_thread_at l = T_none \<or> log_thread_at l = T_exit then Some (l\<lparr>m_log_open := False, log_dtor_at := D_done\<rparr>)
          else None
      | D_done \<Rightarrow> None)"

text \<open>The steps of all threads together: a caller of \<open>write\<close> passes the tests, then enters the queue while nobody
  holds the mutex.\<close>

inductive log_step :: "async_log \<Rightarrow> async_log \<Rightarrow> bool" where
  enter: "log_entry l stamp level message = Some e \<Longrightarrow> log_step l (l\<lparr>log_pending := e # log_pending l\<rparr>)"
| push: "e \<in> set (log_pending l) \<Longrightarrow> log_thread_at l \<noteq> T_block \<Longrightarrow>
    log_step l (log_push (l\<lparr>log_pending := remove1 e (log_pending l)\<rparr>) e)"
| thread: "logThread l = Some l' \<Longrightarrow> log_step l l'"
| closing: "log_dtor_at l = D_alive \<Longrightarrow> log_shutdown l = Some l' \<Longrightarrow> log_step l l'"
| destroying: "log_destroy l = Some l' \<Longrightarrow> log_step l l'"
| spurious: "log_thread_at l = T_asleep \<Longrightarrow> log_step l (l\<lparr>log_thread_at := T_wait\<rparr>)"

inductive_cases log_stepE: "log_step l l'"

section \<open>The invariant\<close>

definition log_inv :: "async_log \<Rightarrow> bool" where
  "log_inv l \<longleftrightarrow> log_accepted l = m_log_file l @ m_log_queue l"

lemmas log_defs = log_push_def log_notify_def drain_queue_def

lemma log_inv_ops: "log_inv l \<Longrightarrow> log_inv (log_push l e)" "log_inv l \<Longrightarrow> log_inv (drain_queue l)"
  "log_inv l \<Longrightarrow> log_inv (log_notify l)"
  by (auto simp: log_inv_def log_defs)

lemma log_inv_fields [simp]:
  "log_inv (l\<lparr>log_pending := ps\<rparr>) = log_inv l" "log_inv (l\<lparr>log_thread_at := t\<rparr>) = log_inv l"
  "log_inv (l\<lparr>log_closer_at := c\<rparr>) = log_inv l" "log_inv (l\<lparr>m_running := b\<rparr>) = log_inv l"
  "log_inv (l\<lparr>m_close_log := b\<rparr>) = log_inv l" "log_inv (l\<lparr>m_log_open := b\<rparr>) = log_inv l"
  "log_inv (l\<lparr>log_dtor_at := d\<rparr>) = log_inv l"
  by (simp_all add: log_inv_def)

lemma log_inv_thread: "logThread l = Some l' \<Longrightarrow> log_inv l \<Longrightarrow> log_inv l'"
  by (auto simp: logThread_def log_inv_ops split: log_thread.splits if_splits)

lemma log_inv_shutdown: "log_shutdown l = Some l' \<Longrightarrow> log_inv l \<Longrightarrow> log_inv l'"
  by (auto simp: log_shutdown_def log_inv_ops split: log_closer.splits if_splits)

lemma log_inv_destroy: "log_destroy l = Some l' \<Longrightarrow> log_inv l \<Longrightarrow> log_inv l'"
  by (auto simp: log_destroy_def log_inv_ops split: log_dtor.splits if_splits)

lemma log_inv_step: "log_step l l' \<Longrightarrow> log_inv l \<Longrightarrow> log_inv l'"
  by (erule log_stepE) (auto intro: log_inv_ops log_inv_thread log_inv_shutdown log_inv_destroy)

lemma log_inv_reach: "log_step\<^sup>*\<^sup>* l l' \<Longrightarrow> log_inv l \<Longrightarrow> log_inv l'"
  by (induction rule: rtranclp_induct) (auto intro: log_inv_step)

section \<open>Properties\<close>

text \<open>C23. The log file is the accepted entries in order: in every interleaving of writers, the writing thread, a
  shutdown and the destructor, the lines of the file followed by the queue are exactly the entries that entered the queue, in the order they
  entered; no entry is lost, repeated or reordered on the way to the file.\<close>

theorem log_in_order:
  assumes "log_step\<^sup>*\<^sup>* (log_init Log_new level True True) l"
  shows "log_accepted l = m_log_file l @ m_log_queue l"
proof -
  have "log_inv (log_init Log_new level True True)" by (simp add: log_inv_def log_init_def Log_new_def)
  from log_inv_reach [OF assms this] show ?thesis by (simp add: log_inv_def)
qed

theorem log_in_order_witness:
  "\<exists>l. log_step\<^sup>*\<^sup>* (log_init Log_new INFO True True) l \<and> m_log_queue l = [''t [WARN] hot''] \<and>
     log_accepted l = m_log_file l @ m_log_queue l"
proof -
  define l0 where "l0 = log_init Log_new INFO True True"
  define e where "e = ''t [WARN] hot''"
  have "log_entry l0 ''t'' WARN ''hot'' = Some e"
    by (simp add: log_entry_def l0_def log_init_def Log_new_def formatLog_def levelToString_def e_def
        less_eq_log_level_def level_num_def)
  then have 1: "log_step l0 (l0\<lparr>log_pending := e # log_pending l0\<rparr>)" by (rule log_step.enter)
  define l1 where "l1 = l0\<lparr>log_pending := e # log_pending l0\<rparr>"
  have 2: "log_step l1 (log_push (l1\<lparr>log_pending := remove1 e (log_pending l1)\<rparr>) e)"
    by (rule log_step.push) (simp_all add: l1_def l0_def log_init_def Log_new_def)
  define l2 where "l2 = log_push (l1\<lparr>log_pending := remove1 e (log_pending l1)\<rparr>) e"
  have "log_step\<^sup>*\<^sup>* l0 l2" using 1 2 unfolding l1_def [symmetric] l2_def [symmetric] by simp
  moreover have "m_log_queue l2 = [e]" by (simp add: l2_def l1_def l0_def log_init_def Log_new_def log_defs)
  moreover have "log_accepted l2 = m_log_file l2 @ m_log_queue l2"
    using log_in_order [of INFO l2] calculation(1) by (simp add: l0_def)
  ultimately show ?thesis unfolding l0_def e_def by blast
qed

text \<open>A shutdown that has come to its end has written everything that was queued by then, and closed the file.\<close>

lemma shutdown_drains:
  assumes "log_closer_at l = C_joined" "log_shutdown l = Some l'" "log_inv l"
  shows "m_log_file l' = log_accepted l' \<and> m_log_queue l' = [] \<and> \<not> m_log_open l'"
  using assms by (auto simp: log_shutdown_def drain_queue_def log_inv_def)

text \<open>The wake-up that is lost: \<open>shutdown\<close> sets \<open>m_running\<close> and notifies without the mutex. When it does so while the thread
  has found the queue empty and is about to sleep, nobody is asleep yet; the thread then sleeps for good and the join
  never ends, whatever the others do, unless the thread wakes up by itself.\<close>

definition hung :: "async_log \<Rightarrow> bool" where
  "hung l \<longleftrightarrow> log_thread_at l = T_asleep \<and> log_closer_at l = C_joining \<and> log_dtor_at l = D_alive \<and> m_close_log l \<and> log_pending l = []"

lemma hung_step:
  assumes "hung l" "log_step l l'"
  shows "l' = l\<lparr>log_thread_at := T_wait\<rparr>"
  using assms(2)
proof (cases rule: log_step.cases)
  case (enter stamp level message e)
  with assms(1) show ?thesis by (simp add: hung_def log_entry_def)
qed (use assms(1) in \<open>auto simp: hung_def logThread_def log_shutdown_def log_destroy_def\<close>)

theorem shutdown_can_hang:
  "\<exists>l. log_step\<^sup>*\<^sup>* (log_init Log_new level True True) l \<and> hung l \<and>
       (\<forall>l'. log_step l l' \<longrightarrow> l' = l\<lparr>log_thread_at := T_wait\<rparr>)"
proof -
  define l0 where "l0 = log_init Log_new level True True"
  define l1 l2 l3 l4 l5 l6 where "l1 = l0\<lparr>log_thread_at := T_wait\<rparr>" and "l2 = l0\<lparr>log_thread_at := T_block\<rparr>"
    and "l3 = l2\<lparr>m_running := False, log_closer_at := C_running\<rparr>"
    and "l4 = l3\<lparr>m_close_log := True, log_closer_at := C_closed\<rparr>"
    and "l5 = l4\<lparr>log_closer_at := C_joining\<rparr>" and "l6 = l5\<lparr>log_thread_at := T_asleep\<rparr>"
  note defs = l0_def log_init_def Log_new_def l1_def l2_def l3_def l4_def l5_def l6_def
  have "log_step l0 l1" "log_step l1 l2" "log_step l5 l6"
    by (rule log_step.thread, simp add: logThread_def defs)+
  moreover have "log_step l2 l3" "log_step l3 l4" "log_step l4 l5"
    by (rule log_step.closing; simp add: log_shutdown_def defs log_notify_def)+
  ultimately have "log_step\<^sup>*\<^sup>* l0 l6" by (meson rtranclp.rtrancl_refl rtranclp.rtrancl_into_rtrancl)
  moreover have "hung l6" by (simp add: hung_def defs)
  ultimately show ?thesis using hung_step unfolding l0_def by blast
qed

text \<open>The destructor has no loop over the queue: an entry that is queued while the thread is at the head of its loop and the
  destructor stops it is never written. \<open>shutdown\<close>, which has the loop, must come first.\<close>

theorem destructor_drops_queue:
  "\<exists>l. log_step\<^sup>*\<^sup>* (log_init Log_new INFO True True) l \<and> log_dtor_at l = D_done \<and> \<not> m_log_open l \<and>
    log_accepted l = [formatLog e INFO e] \<and> m_log_file l = []"
proof -
  define l0 where "l0 = log_init Log_new INFO True True"
  define x where "x = formatLog e INFO e"
  define l1 where "l1 = l0\<lparr>log_pending := [x]\<rparr>"
  define l2 where "l2 = l0\<lparr>m_log_queue := [x], log_accepted := [x]\<rparr>"
  define l3 l4 l5 l6 where "l3 = l2\<lparr>m_running := False, log_dtor_at := D_stopped\<rparr>" and "l4 = l3\<lparr>log_dtor_at := D_joining\<rparr>"
    and "l5 = l4\<lparr>log_thread_at := T_exit\<rparr>" and "l6 = l5\<lparr>m_log_open := False, log_dtor_at := D_done\<rparr>"
  note defs = l0_def log_init_def Log_new_def l1_def l2_def l3_def l4_def l5_def l6_def
  have "log_entry l0 e INFO e = Some x" by (simp add: log_entry_def defs x_def)
  then have "log_step l0 (l0\<lparr>log_pending := x # log_pending l0\<rparr>)" by (rule log_step.enter)
  then have 1: "log_step l0 l1" by (simp add: l1_def l0_def log_init_def Log_new_def)
  have "log_step l1 (log_push (l1\<lparr>log_pending := remove1 x (log_pending l1)\<rparr>) x)"
    by (rule log_step.push) (simp_all add: defs)
  then have 2: "log_step l1 l2" by (simp add: defs log_defs)
  have 3: "log_step l2 l3" "log_step l3 l4" "log_step l5 l6"
    by (rule log_step.destroying, simp add: log_destroy_def defs log_notify_def)+
  have 4: "log_step l4 l5" by (rule log_step.thread) (simp add: logThread_def defs)
  from 1 2 3 4 have "log_step\<^sup>*\<^sup>* l0 l6" by (meson rtranclp.rtrancl_refl rtranclp.rtrancl_into_rtrancl)
  moreover have "log_dtor_at l6 = D_done \<and> \<not> m_log_open l6 \<and> log_accepted l6 = [x] \<and> m_log_file l6 = []" by (simp add: defs)
  ultimately show ?thesis unfolding l0_def x_def by blast
qed

end
