(* ===== verification/Net_Server.thy ===== *)
theory Net_Server
  imports Controllers Websocket_Conn Thread_Pool
begin

text \<open>
  The server itself: \<open>src/net/net_server.h\<close>, \<open>net_server.cpp\<close>, with \<open>src/conn/base_conn.h\<close>, \<open>base_conn.cpp\<close> and
  \<open>src/conn/conn_factory_manager.cpp\<close>.

  Connections are objects in a store (\<open>ns_conns\<close>): \<open>m_users\<close> and the tasks in the thread pool hold references
  (\<open>std::shared_ptr\<close>) to them, and an object is destroyed, its destructor closing it, when the last reference goes
  (\<open>release\<close>). A virtual call of \<open>BaseConn\<close> is a case distinction on \<open>base_conn\<close>. The kernel's side is the set of open
  descriptors and the interest list of epoll; closing a descriptor takes it out of the list. What the kernel answers to the
  calls of one handler is its argument \<open>net_env\<close>.

  One handler of the main thread and one task of a worker are each one step; the lock \<open>m_users_mtx\<close> and the one-shot
  registration of a descriptor keep two of them from working on one connection at a time.
\<close>

section \<open>Connections\<close>

datatype base_conn = Http http_conn | Ws ws_conn

datatype conn_kind = HttpConn | WebSocketConn

text \<open>\<open>ConnFactoryManager\<close>: the factories are the two \<open>std::make_shared\<close> closures the program registers.\<close>

type_synonym conn_factories = "int \<rightharpoonup> conn_kind"

definition registerFactory :: "conn_factories \<Rightarrow> int \<Rightarrow> conn_kind \<Rightarrow> conn_factories" where
  "registerFactory fs port kind = fs(port \<mapsto> kind)"

definition http_conn_new :: http_conn where
  "http_conn_new =
     \<lparr>m_sockfd = -1, m_address = [], m_is_closed = False, m_read_buf = replicate READ_BUFFER_SIZE NUL, m_read_idx = 0,
      m_write_buf = replicate WRITE_BUFFER_SIZE NUL, m_write_idx = 0, m_parse_state = PARSE_REQUEST_LINE,
      m_http_base = http_base_init [], m_http_response = http_response_new, m_file_path = [], m_file_fd = -1,
      m_file_response_size = 0, m_file_total_size = 0, m_file_bytes_sent = 0, m_file_offset = 0, m_header_sent = False,
      m_response_built = False\<rparr>"

definition createConn :: "conn_factories \<Rightarrow> int \<Rightarrow> base_conn option" where
  "createConn fs port =
     map_option (\<lambda>k. case k of HttpConn \<Rightarrow> Http http_conn_new | WebSocketConn \<Rightarrow> Ws ws_conn_new) (fs port)"

fun conn_init :: "base_conn \<Rightarrow> int \<Rightarrow> string \<Rightarrow> base_conn" where
  "conn_init (Http c) fd addr = Http (http_init c fd addr)"
| "conn_init (Ws c) fd addr = Ws (ws_init c fd addr)"

fun conn_isClosed :: "base_conn \<Rightarrow> bool" where
  "conn_isClosed (Http c) = m_is_closed c"
| "conn_isClosed (Ws c) = ws_isClosed c"

fun conn_sockfd :: "base_conn \<Rightarrow> int" where
  "conn_sockfd (Http c) = m_sockfd c"
| "conn_sockfd (Ws c) = ws_sockfd c"

fun conn_addr :: "base_conn \<Rightarrow> string" where
  "conn_addr (Http c) = m_address c"
| "conn_addr (Ws c) = ws_address c"

fun conn_keepAlive :: "base_conn \<Rightarrow> bool" where
  "conn_keepAlive (Http c) = m_keep_alive (m_http_base c)"
| "conn_keepAlive (Ws c) = True"

fun conn_read :: "int \<Rightarrow> base_conn \<Rightarrow> recv_outcome list \<Rightarrow> bool \<times> base_conn" where
  "conn_read mode (Http c) outs = map_prod id Http (http_read mode c outs)"
| "conn_read mode (Ws c) outs = map_prod id Ws (ws_read mode c outs)"

text \<open>\<open>write\<close>: status, bytes on the wire, object. \<open>file\<close> is what \<open>sendfile\<close> reads.\<close>

fun conn_write :: "base_conn \<Rightarrow> string \<Rightarrow> send_outcome list \<Rightarrow> write_status \<times> string \<times> base_conn" where
  "conn_write (Http c) file outs = (case http_write c file outs of (st, wire, c) \<Rightarrow> (st, wire, Http c))"
| "conn_write (Ws c) file outs = (case ws_write c outs of (st, wire, c) \<Rightarrow> (st, wire, Ws c))"

fun conn_close :: "base_conn \<Rightarrow> ws_manager \<Rightarrow> base_conn \<times> ws_manager" where
  "conn_close (Http c) m = (Http (http_closeConn c), m)"
| "conn_close (Ws c) m = (case ws_closeConn c m of (c, m) \<Rightarrow> (Ws c, m))"

section \<open>State\<close>

datatype net_task = Task_read nat int | Task_process nat int | Task_write nat int

fun task_obj :: "net_task \<Rightarrow> nat" where
  "task_obj (Task_read i _) = i"
| "task_obj (Task_process i _) = i"
| "task_obj (Task_write i _) = i"

datatype net_cb = Close_connection int

datatype epoll_events = EPOLLIN | EPOLLOUT

record epoll_reg =
  reg_events :: epoll_events
  reg_oneshot :: bool
  reg_et :: bool

record ('wh, 'd) net_server =
  m_config :: server_config
  m_is_running :: bool
  m_shutdown_called :: bool
  m_listen_fds :: "int list"
  m_signal_fd :: int
  m_listenFdToPort :: "int \<rightharpoonup> int"
  m_users :: "(int \<times> nat) list"
  m_timer_manager :: "net_cb timer_manager"
  m_thread_pool :: "net_task thread_pool"
  ns_conns :: "nat \<rightharpoonup> base_conn"
  ns_alloc :: nat
  ns_open :: "int \<Rightarrow> bool"
  ns_epoll :: "int \<rightharpoonup> epoll_reg"
  ns_factories :: conn_factories
  ns_ws :: ws_manager
  ns_app :: "('wh, 'd) app_server"
  ns_trig_mode :: int

text \<open>The constructor: \<open>m_shutdown_called\<close> is left uninitialised, and so are the descriptors; \<open>m_thread_pool\<close> is null, a
  pool without threads here. The factories and the application state are those of the singletons; \<open>BaseConn::m_trig_mode\<close> starts as \<open>ET\<close>.\<close>

definition NetServer_new :: "bool \<Rightarrow> server_config \<Rightarrow> conn_factories \<Rightarrow> ('wh, 'd) app_server \<Rightarrow> ('wh, 'd) net_server" where
  "NetServer_new any_called config factories app =
     \<lparr>m_config = config, m_is_running = True, m_shutdown_called = any_called, m_listen_fds = [], m_signal_fd = -1,
      m_listenFdToPort = Map.empty, m_users = [], m_timer_manager = tm_init, m_thread_pool = ThreadPool_new 0,
      ns_conns = Map.empty, ns_alloc = 0, ns_open = (\<lambda>_. False), ns_epoll = Map.empty, ns_factories = factories,
      ns_ws = ws_manager_new, ns_app = app, ns_trig_mode = ET\<rparr>"

section \<open>epoll\<close>

definition addFd_full :: "('wh, 'd) net_server \<Rightarrow> int \<Rightarrow> epoll_events \<Rightarrow> bool \<Rightarrow> bool \<Rightarrow> ('wh, 'd) net_server" where
  "addFd_full ns fd events one_shot trig =
     (if \<not> ns_open ns fd \<or> ns_epoll ns fd \<noteq> None then ns
      else ns\<lparr>ns_epoll := (ns_epoll ns)(fd \<mapsto> \<lparr>reg_events = events, reg_oneshot = one_shot, reg_et = trig\<rparr>)\<rparr>)"

definition addFd :: "('wh, 'd) net_server \<Rightarrow> int \<Rightarrow> epoll_events \<Rightarrow> ('wh, 'd) net_server" where
  "addFd ns fd events = addFd_full ns fd events True (trig_mode (m_config ns) \<noteq> 0)"

definition modFd_full :: "('wh, 'd) net_server \<Rightarrow> int \<Rightarrow> epoll_events \<Rightarrow> bool \<Rightarrow> bool \<Rightarrow> ('wh, 'd) net_server" where
  "modFd_full ns fd events one_shot trig =
     (if ns_epoll ns fd = None then ns
      else ns\<lparr>ns_epoll := (ns_epoll ns)(fd \<mapsto> \<lparr>reg_events = events, reg_oneshot = one_shot, reg_et = trig\<rparr>)\<rparr>)"

definition modFd :: "('wh, 'd) net_server \<Rightarrow> int \<Rightarrow> epoll_events \<Rightarrow> ('wh, 'd) net_server" where
  "modFd ns fd events = modFd_full ns fd events True (trig_mode (m_config ns) \<noteq> 0)"

definition epoll_removeFd :: "('wh, 'd) net_server \<Rightarrow> int \<Rightarrow> ('wh, 'd) net_server" where
  "epoll_removeFd ns fd = ns\<lparr>ns_epoll := (ns_epoll ns)(fd := None)\<rparr>"

text \<open>\<open>close(fd)\<close>\<close>

definition close_fd :: "('wh, 'd) net_server \<Rightarrow> int \<Rightarrow> ('wh, 'd) net_server" where
  "close_fd ns fd = ns\<lparr>ns_open := (ns_open ns)(fd := False), ns_epoll := (ns_epoll ns)(fd := None)\<rparr>"

section \<open>Objects\<close>

text \<open>Calling \<open>closeConn\<close> on an object; the descriptor is closed when the object gives it up.\<close>

definition close_object :: "('wh, 'd) net_server \<Rightarrow> nat \<Rightarrow> ('wh, 'd) net_server" where
  "close_object ns i =
     (case ns_conns ns i of
        None \<Rightarrow> ns
      | Some c \<Rightarrow>
          (case conn_close c (ns_ws ns) of (c', m) \<Rightarrow>
             let ns = ns\<lparr>ns_conns := (ns_conns ns)(i \<mapsto> c'), ns_ws := m\<rparr>
             in if conn_sockfd c' = conn_sockfd c then ns else close_fd ns (conn_sockfd c)))"

definition referenced :: "('wh, 'd) net_server \<Rightarrow> nat \<Rightarrow> bool" where
  "referenced ns i \<longleftrightarrow>
     i \<in> snd ` set (m_users ns) \<or> i \<in> task_obj ` set (m_tasks (m_thread_pool ns)) \<or>
     i \<in> task_obj ` set (running (m_thread_pool ns))"

text \<open>A reference to object \<open>i\<close> goes out of scope.\<close>

definition release :: "('wh, 'd) net_server \<Rightarrow> nat \<Rightarrow> ('wh, 'd) net_server" where
  "release ns i =
     (if referenced ns i then ns
      else (let ns = close_object ns i in ns\<lparr>ns_conns := (ns_conns ns)(i := None)\<rparr>))"

section \<open>Handlers\<close>

definition refreshTimer :: "('wh, 'd) net_server \<Rightarrow> int \<Rightarrow> time \<Rightarrow> ('wh, 'd) net_server" where
  "refreshTimer ns fd now =
     ns\<lparr>m_timer_manager := addTimer (m_timer_manager ns) fd (Some (Close_connection fd)) 1000000 False now\<rparr>"

definition closeConnection :: "('wh, 'd) net_server \<Rightarrow> int \<Rightarrow> ('wh, 'd) net_server" where
  "closeConnection ns fd =
     (case map_of (m_users ns) fd of
        None \<Rightarrow> ns
      | Some i \<Rightarrow>
          (case ns_conns ns i of
             None \<Rightarrow> ns
           | Some c \<Rightarrow>
               if conn_isClosed c then ns
               else (let ns = ns\<lparr>m_users := AList.delete fd (m_users ns)\<rparr>;
                         ns = epoll_removeFd ns fd;
                         ns = close_object ns i
                     in release ns i)))"

text \<open>The answers of the outside world to one handler or task.\<close>

record ('wh, 'd) net_env =
  ne_accept :: "int \<times> string"
  ne_signals :: "nat list"
  ne_recv :: "recv_outcome list"
  ne_send1 :: "send_outcome list"
  ne_send2 :: "send_outcome list"
  ne_file :: string
  ne_fs :: filesystem
  ne_root :: string
  ne_clk :: "nat \<Rightarrow> time"
  ne_now :: time
  ne_handlers :: "'d handler_env"
  ne_ws_run :: "'wh \<Rightarrow> ws_conn \<Rightarrow> string \<Rightarrow> string \<Rightarrow> ws_conn \<times> ('wh, 'd) app_server \<Rightarrow> (ws_conn \<times> ('wh, 'd) app_server) result"

text \<open>\<open>process\<close> on object \<open>i\<close>, and the write callback it runs at its end, on the descriptor it has then.\<close>

definition process_object :: "('wh, 'd) net_env \<Rightarrow> ('wh, 'd) net_server \<Rightarrow> nat \<Rightarrow> (bool \<times> ('wh, 'd) net_server) result" where
  "process_object env ns i =
     (case ns_conns ns i of
        None \<Rightarrow> Inl Null_dereference
      | Some (Http c) \<Rightarrow>
          rbind (http_process (he_ssl (ne_handlers env)) (he_json (ne_handlers env)) (ne_fs env) (ne_root env)
                   (run_handler (ne_handlers env)) c (ns_app ns) (ne_clk env)) (\<lambda>(ok, c', app).
            let closed = (m_sockfd c' \<noteq> m_sockfd c);
                ns = ns\<lparr>ns_conns := (ns_conns ns)(i \<mapsto> Http c'), ns_app := app\<rparr>;
                ns = (if closed then close_fd ns (m_sockfd c) else ns)
            in Inr (ok, if ok \<and> \<not> m_is_closed c' then modFd ns (m_sockfd c') EPOLLOUT else ns))
      | Some (Ws c) \<Rightarrow>
          rbind (ws_process (he_ssl (ne_handlers env)) (ne_ws_run env) (sv_router (ns_app ns)) c (ns_ws ns) (ns_app ns)) (\<lambda>(ok, c', m, app).
            let ns = ns\<lparr>ns_conns := (ns_conns ns)(i \<mapsto> Ws c'), ns_ws := m, ns_app := app\<rparr>
            in Inr (ok, if ok then modFd ns (ws_sockfd c') EPOLLOUT else ns)))"

definition object_isClosed :: "('wh, 'd) net_server \<Rightarrow> nat \<Rightarrow> bool" where
  "object_isClosed ns i = (case ns_conns ns i of None \<Rightarrow> True | Some c \<Rightarrow> conn_isClosed c)"

text \<open>The part of a task after a successful read.\<close>

definition after_read :: "('wh, 'd) net_env \<Rightarrow> ('wh, 'd) net_server \<Rightarrow> nat \<Rightarrow> int \<Rightarrow> ('wh, 'd) net_server result" where
  "after_read env ns i fd =
     rbind (process_object env ns i) (\<lambda>(success, ns).
       let ns = (if \<not> success then modFd ns fd EPOLLIN else ns)
       in Inr (if \<not> object_isClosed ns i then refreshTimer ns fd (ne_now env) else ns))"

definition read_object :: "('wh, 'd) net_env \<Rightarrow> ('wh, 'd) net_server \<Rightarrow> nat \<Rightarrow> (bool \<times> ('wh, 'd) net_server) result" where
  "read_object env ns i =
     (case ns_conns ns i of
        None \<Rightarrow> Inl Null_dereference
      | Some c \<Rightarrow>
          (case conn_read (ns_trig_mode ns) c (ne_recv env) of (n, c') \<Rightarrow>
             Inr (n, ns\<lparr>ns_conns := (ns_conns ns)(i \<mapsto> c')\<rparr>)))"

text \<open>The task of a write event: the status is tested with a second call of \<open>write\<close> when the first was not \<open>OK\<close>. The bytes
  that went out come back with the state.\<close>

definition write_task :: "('wh, 'd) net_env \<Rightarrow> ('wh, 'd) net_server \<Rightarrow> nat \<Rightarrow> int \<Rightarrow> (string \<times> ('wh, 'd) net_server) result" where
  "write_task env ns i fd =
     (case ns_conns ns i of
        None \<Rightarrow> Inl Null_dereference
      | Some c \<Rightarrow>
          (case conn_write c (ne_file env) (ne_send1 env) of (st, wire, c) \<Rightarrow>
             let ns = ns\<lparr>ns_conns := (ns_conns ns)(i \<mapsto> c)\<rparr>
             in if st = OK then
                  (if conn_keepAlive c then
                     (let ns = ns\<lparr>ns_conns := (ns_conns ns)(i \<mapsto> conn_init c fd (conn_addr c))\<rparr>
                      in Inr (wire, refreshTimer (modFd ns fd EPOLLIN) fd (ne_now env)))
                   else Inr (wire, closeConnection ns fd))
                else (case conn_write c (ne_file env) (ne_send2 env) of (st2, wire2, c) \<Rightarrow>
                        let ns = ns\<lparr>ns_conns := (ns_conns ns)(i \<mapsto> c)\<rparr>
                        in if st2 = AGAIN then Inr (wire @ wire2, refreshTimer (modFd ns fd EPOLLOUT) fd (ne_now env))
                           else Inr (wire @ wire2, closeConnection ns fd))))"

text \<open>What executing a task does; \<open>worker\<close> drops its reference afterwards.\<close>

fun run_task :: "('wh, 'd) net_env \<Rightarrow> ('wh, 'd) net_server \<Rightarrow> net_task \<Rightarrow> ('wh, 'd) net_server result" where
  "run_task env ns (Task_read i fd) =
     rbind (read_object env ns i) (\<lambda>(n, ns). if n then after_read env ns i fd else Inr (closeConnection ns fd))"
| "run_task env ns (Task_process i fd) = after_read env ns i fd"
| "run_task env ns (Task_write i fd) = map_sum id snd (write_task env ns i fd)"

definition add_task :: "('wh, 'd) net_server \<Rightarrow> net_task \<Rightarrow> ('wh, 'd) net_server" where
  "add_task ns t = ns\<lparr>m_thread_pool := addTask (m_thread_pool ns) t\<rparr>"

definition getConn_of :: "('wh, 'd) net_server \<Rightarrow> int \<Rightarrow> nat option" where
  "getConn_of ns fd =
     (case map_of (m_users ns) fd of None \<Rightarrow> None | Some i \<Rightarrow> if object_isClosed ns i then None else Some i)"

definition handleReadEvent :: "('wh, 'd) net_env \<Rightarrow> ('wh, 'd) net_server \<Rightarrow> int \<Rightarrow> ('wh, 'd) net_server result" where
  "handleReadEvent env ns fd =
     (case getConn_of ns fd of
        None \<Rightarrow> Inr ns
      | Some i \<Rightarrow>
          if actor_model (m_config ns) \<noteq> 0 then Inr (add_task ns (Task_read i fd))
          else rbind (read_object env ns i) (\<lambda>(n, ns).
               Inr (if n then add_task ns (Task_process i fd) else closeConnection ns fd)))"

definition handleWriteEvent :: "('wh, 'd) net_server \<Rightarrow> int \<Rightarrow> ('wh, 'd) net_server" where
  "handleWriteEvent ns fd =
     (case getConn_of ns fd of None \<Rightarrow> ns | Some i \<Rightarrow> add_task ns (Task_write i fd))"

text \<open>\<open>accept\<close> answers with a descriptor, negative when it fails, and the address of the client. The entry of a descriptor that is still in
  \<open>m_users\<close> is overwritten, which drops a reference.\<close>

definition handleNewConnection ::
  "('wh, 'd) net_server \<Rightarrow> int \<Rightarrow> int \<times> string \<Rightarrow> time \<Rightarrow> ('wh, 'd) net_server result" where
  "handleNewConnection ns listen_fd accepted now =
     (case accepted of (conn_fd, addr) \<Rightarrow>
        if conn_fd < 0 then Inr ns
        else (let ns = ns\<lparr>ns_open := (ns_open ns)(conn_fd := True)\<rparr>;
                  ns = addFd ns conn_fd EPOLLIN;
                  port = (case m_listenFdToPort ns listen_fd of None \<Rightarrow> 0 | Some p \<Rightarrow> p);
                  ns = ns\<lparr>m_listenFdToPort := (m_listenFdToPort ns)(listen_fd \<mapsto> port)\<rparr>
              in case createConn (ns_factories ns) port of
                   None \<Rightarrow> Inl Null_dereference
                 | Some c \<Rightarrow>
                     (let old = map_of (m_users ns) conn_fd;
                          i = ns_alloc ns;
                          ns = ns\<lparr>ns_conns := (ns_conns ns)(i \<mapsto> c), ns_alloc := Suc i,
                                  m_users := AList.update conn_fd i (m_users ns)\<rparr>;
                          ns = (case old of None \<Rightarrow> ns | Some j \<Rightarrow> release ns j);
                          ns = ns\<lparr>ns_conns := (ns_conns ns)(i \<mapsto> conn_init c conn_fd addr)\<rparr>
                      in Inr (refreshTimer ns conn_fd now))))"

section \<open>Shutting down\<close>

text \<open>The joins of the thread pool wait for the tasks in execution; they are left to the steps of the pool. The database pool
  is the extension of \<open>ns_app\<close>. The shutdown of the log, the last thing before the flags, is in the theory \<open>Async_Log\<close>.\<close>

definition net_shutdown :: "'d mysql \<Rightarrow> ('wh, 'd) net_server \<Rightarrow> ('wh, 'd) net_server" where
  "net_shutdown my ns =
     (let ns = foldl close_fd ns (filter (\<lambda>fd. 0 \<le> fd) (m_listen_fds ns));
          ids = map snd (m_users ns);
          ns = foldl close_object ns ids;
          ns = ns\<lparr>m_users := []\<rparr>;
          ns = foldl release ns ids;
          ns = ns\<lparr>ns_app := (ns_app ns)\<lparr>sv_ext := pool_shutdown my (fst (sv_ext (ns_app ns))) (snd (sv_ext (ns_app ns)))\<rparr>\<rparr>;
          ns = ns\<lparr>m_thread_pool := pool_stop (m_thread_pool ns)\<rparr>
      in ns\<lparr>m_is_running := False, m_shutdown_called := True\<rparr>)"

text \<open>The bytes read from the signal pipe, in order; \<open>SIGINT\<close> is 2 and \<open>SIGTERM\<close> 15.\<close>

definition handleSignalEvent :: "'d mysql \<Rightarrow> ('wh, 'd) net_server \<Rightarrow> nat list \<Rightarrow> ('wh, 'd) net_server" where
  "handleSignalEvent my ns sigs = foldl (\<lambda>ns sig. if sig = 2 \<or> sig = 15 then net_shutdown my ns else ns) ns sigs"

section \<open>Starting up\<close>

text \<open>What \<open>socket\<close>, \<open>bind\<close> and \<open>listen\<close> answer for one port.\<close>

datatype listen_outcome = Listening int | Bind_failed int | Listen_failed int

definition register_listener :: "('wh, 'd) net_server \<Rightarrow> int \<Rightarrow> int \<Rightarrow> ('wh, 'd) net_server" where
  "register_listener ns fd port =
     ns\<lparr>m_listen_fds := List.insert fd (m_listen_fds ns), ns_open := (ns_open ns)(fd := True),
        m_listenFdToPort := (case m_listenFdToPort ns fd of
           None \<Rightarrow> (m_listenFdToPort ns)(fd \<mapsto> port) | Some _ \<Rightarrow> m_listenFdToPort ns)\<rparr>"

text \<open>\<open>None\<close> is \<open>exit(EXIT_FAILURE)\<close>; a port that cannot be listened on ends the function with the ports before it. Only a
  function that gets to its end sets \<open>BaseConn::m_trig_mode\<close>, the mode in which connections read.\<close>

fun initSocket :: "('wh, 'd) net_server \<Rightarrow> (int \<times> listen_outcome) list \<Rightarrow> ('wh, 'd) net_server option" where
  "initSocket ns [] = Some (ns\<lparr>ns_trig_mode := trig_mode (m_config ns)\<rparr>)"
| "initSocket ns ((port, Listening fd) # r) = initSocket (register_listener ns fd port) r"
| "initSocket ns ((port, Bind_failed fd) # r) = None"
| "initSocket ns ((port, Listen_failed fd) # r) = Some (close_fd (register_listener ns fd port) fd)"

definition initEpoll :: "('wh, 'd) net_server \<Rightarrow> bool \<Rightarrow> ('wh, 'd) net_server option" where
  "initEpoll ns created =
     (if \<not> created then None
      else (let ns = foldl (\<lambda>ns fd. addFd_full ns fd EPOLLIN False False) ns (m_listen_fds ns)
            in Some (addFd_full ns (m_signal_fd ns) EPOLLIN False False)))"

definition listen_ports :: "server_config \<Rightarrow> int list" where
  "listen_ports cfg = [http_port cfg, test_port cfg, websocket_port cfg]"

text \<open>\<open>signal_fd\<close> is the read end of the pipe \<open>SignalUtils::init\<close> makes.\<close>

definition net_init ::
  "('wh, 'd) net_server \<Rightarrow> server_config \<Rightarrow> int \<Rightarrow> listen_outcome list \<Rightarrow> bool \<Rightarrow> ('wh, 'd) net_server option" where
  "net_init ns config signal_fd outs epoll_ok =
     (let ns = ns\<lparr>m_config := config, m_thread_pool := ThreadPool_new (nat (thread_num config)), m_signal_fd := signal_fd,
                  ns_open := (ns_open ns)(signal_fd := True)\<rparr>
      in case initSocket ns (zip (listen_ports config) outs) of
           None \<Rightarrow> None
         | Some ns \<Rightarrow>
             map_option (\<lambda>ns. ns\<lparr>ns_app := (ns_app ns)\<lparr>sv_router :=
                 registerGet (sv_router (ns_app ns)) ''/api/info'' (H_info config)\<rparr>\<rparr>) (initEpoll ns epoll_ok))"

section \<open>The event loop\<close>

text \<open>One event: the descriptor, and whether \<open>EPOLLIN\<close> and \<open>EPOLLOUT\<close> are set; the first is looked at first.\<close>

type_synonym net_event = "int \<times> bool \<times> bool"

definition handle_event ::
  "'d mysql \<Rightarrow> ('wh, 'd) net_env \<Rightarrow> ('wh, 'd) net_server \<Rightarrow> net_event \<Rightarrow> ('wh, 'd) net_server result" where
  "handle_event my env ns ev =
     (case ev of (cur_fd, epollin, epollout) \<Rightarrow>
        if cur_fd \<in> set (m_listen_fds ns)
        then (if cur_fd < 0 then Inr ns else handleNewConnection ns cur_fd (ne_accept env) (ne_now env))
        else if cur_fd = m_signal_fd ns then Inr (handleSignalEvent my ns (ne_signals env))
        else if epollin then handleReadEvent env ns cur_fd
        else if epollout then Inr (handleWriteEvent ns cur_fd)
        else Inr ns)"

text \<open>The timers: a callback works on the server, whose timer manager \<open>tick\<close> holds.\<close>

fun run_cb :: "net_cb \<Rightarrow> ('wh, 'd) net_server \<Rightarrow> ('wh, 'd) net_server" where
  "run_cb (Close_connection fd) ns = closeConnection ns fd"

definition tick_timers :: "(nat \<Rightarrow> time) \<Rightarrow> ('wh, 'd) net_server \<Rightarrow> ('wh, 'd) net_server option" where
  "tick_timers clk ns =
     map_option (\<lambda>(m, ns). ns\<lparr>m_timer_manager := m\<rparr>) (tick run_cb clk (m_timer_manager ns) ns)"

text \<open>One round of the loop; the events come with what the world answers while they are handled.\<close>

definition loop_round ::
  "'d mysql \<Rightarrow> (nat \<Rightarrow> time) \<Rightarrow> (net_event \<times> ('wh, 'd) net_env) list \<Rightarrow> ('wh, 'd) net_server \<Rightarrow> ('wh, 'd) net_server result option" where
  "loop_round my clk evs ns =
     map_option (\<lambda>ns. foldl (\<lambda>r (ev, env). rbind r (\<lambda>ns. handle_event my env ns ev)) (Inr ns) evs) (tick_timers clk ns)"

text \<open>The loop over a number of rounds; it ends when a handler has shut the server down.\<close>

fun eventLoop ::
  "'d mysql \<Rightarrow> ((nat \<Rightarrow> time) \<times> (net_event \<times> ('wh, 'd) net_env) list) list \<Rightarrow> ('wh, 'd) net_server \<Rightarrow>
   ('wh, 'd) net_server result option" where
  "eventLoop my [] ns = Some (Inr ns)"
| "eventLoop my ((clk, evs) # rounds) ns =
     (if \<not> m_is_running ns then Some (Inr ns)
      else (case loop_round my clk evs ns of
              Some (Inr ns) \<Rightarrow> eventLoop my rounds ns
            | r \<Rightarrow> r))"

text \<open>A step of worker \<open>w\<close>: taking a task, or executing the one it took and dropping the reference.\<close>

definition worker_round :: "('wh, 'd) net_env \<Rightarrow> ('wh, 'd) net_server \<Rightarrow> nat \<Rightarrow> ('wh, 'd) net_server result option" where
  "worker_round env ns w =
     (if w < length (m_threads (m_thread_pool ns))
      then (case m_threads (m_thread_pool ns) ! w of
              Executing t \<Rightarrow>
                Some (rbind (run_task env ns t) (\<lambda>ns.
                  case worker_step (m_thread_pool ns) w of
                    None \<Rightarrow> Inr ns
                  | Some p \<Rightarrow> Inr (release (ns\<lparr>m_thread_pool := p\<rparr>) (task_obj t))))
            | _ \<Rightarrow> map_option (\<lambda>p. Inr (ns\<lparr>m_thread_pool := p\<rparr>)) (worker_step (m_thread_pool ns) w))
      else None)"

text \<open>\<open>WebsocketConnManager::sendToSession\<close> on the server's connections.\<close>

definition net_sendToSession :: "('wh, 'd) net_server \<Rightarrow> string \<Rightarrow> string \<Rightarrow> bool \<times> ('wh, 'd) net_server" where
  "net_sendToSession ns sid msg =
     (case sendToSession (ns_ws ns)
             (\<lambda>fd. case getConn_of ns fd of None \<Rightarrow> None
                   | Some i \<Rightarrow> (case ns_conns ns i of Some (Ws c) \<Rightarrow> Some c | _ \<Rightarrow> None)) sid msg of
        None \<Rightarrow> (False, ns)
      | Some (fd, c) \<Rightarrow>
          (case getConn_of ns fd of
             None \<Rightarrow> (False, ns)
           | Some i \<Rightarrow> (True, modFd (ns\<lparr>ns_conns := (ns_conns ns)(i \<mapsto> Ws c)\<rparr>) (ws_sockfd c) EPOLLOUT)))"

end
