(* ===== verification/Net_Invariant.thy ===== *)
theory Net_Invariant
  imports Net_Server
begin

text \<open>
  The invariant of the server. It speaks about the table of users, the store of connection objects, the timers and the
  references tasks hold: every reference leads to an object, an object belongs to one descriptor, and every user whose
  connection is open has a timer armed that will close it.
\<close>

section \<open>Operations on one connection\<close>

text \<open>What a handler may do to an object besides initialising it: a closed connection stays closed, and an HTTP connection keeps
  its descriptor unless it closes.\<close>

fun conn_le :: "base_conn \<Rightarrow> base_conn \<Rightarrow> bool" where
  "conn_le (Http a) (Http b) = ((m_is_closed a \<longrightarrow> m_is_closed b) \<and> (m_is_closed b \<or> m_sockfd b = m_sockfd a))"
| "conn_le (Ws a) (Ws b) = True"
| "conn_le _ _ = False"

definition same_fd :: "http_conn \<Rightarrow> http_conn \<Rightarrow> bool" where
  "same_fd a b \<longleftrightarrow> m_sockfd b = m_sockfd a \<and> m_is_closed b = m_is_closed a"

lemma same_fd_refl [simp]: "same_fd c c"
  by (simp add: same_fd_def)

lemma same_fd_trans: "same_fd a b \<Longrightarrow> same_fd b c \<Longrightarrow> same_fd a c"
  by (simp add: same_fd_def)

lemma same_fd_CloseFile [simp]: "same_fd c (CloseFile c)"
  by (simp add: same_fd_def CloseFile_def)

lemma same_fd_read_et: "same_fd c (snd (read_et c outs))"
  by (induction c outs rule: read_et.induct) (auto simp: same_fd_def recv_into_def Let_def)

lemma same_fd_read: "same_fd c (snd (http_read mode c outs))"
  using same_fd_read_et [of c outs]
  by (auto simp: http_read_def read_lt_def same_fd_def recv_into_def Let_def split: list.splits recv_outcome.splits)

lemma same_fd_write: "http_write c file outs = (st, wire, c') \<Longrightarrow> same_fd c c'"
  by (auto simp: http_write_def write_file_def same_fd_def CloseFile_def Let_def
      split: prod.splits if_splits list.splits send_outcome.splits)

lemma same_fd_body: "parse_body_state J c = Inr (ok, c') \<Longrightarrow> same_fd c c'"
  by (auto simp: parse_body_state_def same_fd_def Let_def elim!: rbind_eq_InrE split: if_splits prod.splits)

lemma same_fd_headers: "parse_headers_state J c = Inr (ok, c') \<Longrightarrow> same_fd c c'"
  by (auto simp: parse_headers_state_def Let_def elim!: rbind_eq_InrE split: if_splits prod.splits dest!: same_fd_body)
     (auto simp: same_fd_def)

lemma same_fd_line: "parse_line_state J c = Inr (ok, c') \<Longrightarrow> same_fd c c'"
  by (auto simp: parse_line_state_def Let_def elim!: rbind_eq_InrE split: if_splits prod.splits option.splits dest!: same_fd_headers)
     (auto simp: same_fd_def)

lemma same_fd_parse: "parseHttpRequest J c = Inr (ok, c') \<Longrightarrow> same_fd c c'"
  by (auto simp: parseHttpRequest_def split: parse_state.splits dest: same_fd_line same_fd_headers same_fd_body)

lemma same_fd_copy: "copyResponseData c = (ok, c') \<Longrightarrow> same_fd c c'"
  by (auto simp: copyResponseData_def same_fd_def Let_def split: if_splits)

lemma same_fd_answer: "answerRequest ssl J run c sv t1 t2 t3 = Inr (c', sv') \<Longrightarrow> same_fd c c'"
  by (auto simp: answerRequest_def Let_def same_fd_def elim!: rbind_eq_InrE split: if_splits prod.splits)

lemma same_fd_generate: "generateResponse fs root c = (ok, c') \<Longrightarrow> same_fd c c'"
  by (auto simp: generateResponse_def Let_def split: if_splits prod.splits option.splits dest!: same_fd_copy)
     (auto simp: same_fd_def)

lemma conn_le_http: "same_fd a b \<Longrightarrow> conn_le (Http a) (Http b)"
  by (simp add: same_fd_def)

lemma handle_closes:
  assumes "handleRequest ssl J fs root run c sv t1 t2 t3 = Inr (ok, c', sv')"
  shows "conn_le (Http c) (Http c')"
proof -
  obtain c1 sv1 where a: "answerRequest ssl J run c sv t1 t2 t3 = Inr (c1, sv1)"
    using assms by (auto simp: handleRequest_def elim!: rbind_eq_InrE)
  have 1: "same_fd c c1" using same_fd_answer [OF a] .
  obtain k1 d1 where cp: "copyResponseData c1 = (k1, d1)" by fastforce
  obtain k2 d2 where g: "generateResponse fs root c1 = (k2, d2)" by fastforce
  from assms a cp g have "c' = d1 \<or> c' = d2 \<or> c' = http_closeConn d2"
    by (auto simp: handleRequest_def split: if_splits)
  moreover have "same_fd c d1" "same_fd c d2"
    using 1 same_fd_copy [OF cp] same_fd_generate [OF g] by (auto intro: same_fd_trans)
  ultimately show ?thesis by (auto simp: same_fd_def http_closeConn_def Let_def)
qed

lemma conn_le_trans: "conn_le a b \<Longrightarrow> conn_le b c \<Longrightarrow> conn_le a c"
  by (cases a; cases b; cases c) auto

lemma process_closes:
  assumes "http_process ssl J fs root run c sv clk = Inr (ok, c', sv')"
  shows "conn_le (Http c) (Http c')"
proof (cases "fst (isLimit (sv_limiter sv) ''access_ip'' (m_address c) (clk 0))")
  case True
  with assms show ?thesis
    by (auto simp: http_process_def elim!: rbind_eq_InrE split: prod.splits dest!: same_fd_copy)
       (auto simp: same_fd_def)
next
  case False
  then obtain rl where rl: "isLimit (sv_limiter sv) ''access_ip'' (m_address c) (clk 0) = (False, rl)"
    by (cases "isLimit (sv_limiter sv) ''access_ip'' (m_address c) (clk 0)") auto
  from assms rl obtain p c1 where p: "parseHttpRequest J c = Inr (p, c1)"
    by (auto simp: http_process_def Let_def elim!: rbind_eq_InrE)
  note le1 = conn_le_http [OF same_fd_parse [OF p]]
  show ?thesis
  proof (cases p)
    case True
    with assms rl p obtain ok1 c2 sv2
      where h: "handleRequest ssl J fs root run c1 (sv\<lparr>sv_limiter := rl\<rparr>) (clk 1) (clk 2) (clk 3) = Inr (ok1, c2, sv2)"
        and "c' = c2"
      by (auto simp: http_process_def Let_def elim!: rbind_eq_InrE split: if_splits)
    with conn_le_trans [OF le1 handle_closes [OF h]] show ?thesis by simp
  next
    case False
    with assms rl p le1 show ?thesis by (auto simp: http_process_def Let_def)
  qed
qed

lemma conn_le_read: "conn_read mode c outs = (n, c') \<Longrightarrow> conn_le c c'"
proof (cases c)
  case (Http h)
  assume "conn_read mode c outs = (n, c')"
  with Http same_fd_read [of h mode outs] show ?thesis by (cases "http_read mode h outs") (auto simp: same_fd_def)
next
  case (Ws w)
  assume "conn_read mode c outs = (n, c')"
  with Ws show ?thesis by (cases "ws_read mode w outs") auto
qed

lemma conn_le_write: "conn_write c file outs = (st, wire, c') \<Longrightarrow> conn_le c c'"
  by (cases c) (auto split: prod.splits dest!: same_fd_write simp: same_fd_def)

lemma conn_le_close: "conn_close c m = (c', m') \<Longrightarrow> conn_le c c'"
  by (cases c) (auto simp: http_closeConn_def Let_def split: prod.splits)

section \<open>The invariant\<close>

fun task_fd :: "net_task \<Rightarrow> int" where
  "task_fd (Task_read _ fd) = fd"
| "task_fd (Task_process _ fd) = fd"
| "task_fd (Task_write _ fd) = fd"

fun link :: "int \<Rightarrow> base_conn \<Rightarrow> bool" where
  "link fd (Http c) = (m_is_closed c \<or> m_sockfd c = fd)"
| "link fd (Ws c) = True"

definition timers_ok :: "net_cb timer_manager \<Rightarrow> bool" where
  "timers_ok tm \<longleftrightarrow> tm_inv tm \<and> once tm \<and>
     (\<forall>fd t. m_timer_map tm fd = Some t \<longrightarrow> m_callback (snd t) = Some (Close_connection fd))"

definition user_ok :: "net_cb timer_manager \<Rightarrow> int \<Rightarrow> base_conn option \<Rightarrow> bool" where
  "user_ok tm fd oc \<longleftrightarrow>
     (case oc of None \<Rightarrow> False | Some c \<Rightarrow> (conn_isClosed c \<or> m_timer_map tm fd \<noteq> None) \<and> link fd c)"

definition core_ok ::
  "(int \<times> nat) list \<Rightarrow> (nat \<rightharpoonup> base_conn) \<Rightarrow> nat \<Rightarrow> net_cb timer_manager \<Rightarrow> net_task set \<Rightarrow> bool" where
  "core_ok users conns alloc tm ts \<longleftrightarrow>
     distinct (map fst users) \<and>
     (\<exists>owner. (\<forall>i. 0 \<le> owner i) \<and> (\<forall>(fd, i) \<in> set users. owner i = fd) \<and> (\<forall>t \<in> ts. owner (task_obj t) = task_fd t)) \<and>
     (\<forall>t \<in> ts. conns (task_obj t) \<noteq> None) \<and> (\<forall>i. conns i \<noteq> None \<longrightarrow> i < alloc) \<and> timers_ok tm \<and>
     (\<forall>(fd, i) \<in> set users. user_ok tm fd (conns i))"

definition pool_tasks :: "net_task thread_pool \<Rightarrow> net_task set" where
  "pool_tasks p = set (m_tasks p) \<union> set (running p)"

definition server_ok :: "('wh, 'd) net_server \<Rightarrow> bool" where
  "server_ok ns \<longleftrightarrow>
     core_ok (m_users ns) (ns_conns ns) (ns_alloc ns) (m_timer_manager ns) (pool_tasks (m_thread_pool ns))"

subsection \<open>Updates of its parts\<close>

lemma user_ok_le: "user_ok tm fd (Some c) \<Longrightarrow> conn_le c c' \<Longrightarrow> user_ok tm fd (Some c')"
  by (cases c; cases c') (auto simp: user_ok_def ws_isClosed_def)

lemma core_ok_set:
  assumes "core_ok U C a tm T" "C i \<noteq> None" "\<forall>fd. (fd, i) \<in> set U \<longrightarrow> user_ok tm fd (Some c)"
  shows "core_ok U (C(i \<mapsto> c)) a tm T"
  using assms by (auto simp: core_ok_def)

lemma core_ok_le:
  assumes "core_ok U C a tm T" "C i = Some c" "conn_le c c'"
  shows "core_ok U (C(i \<mapsto> c')) a tm T"
proof (rule core_ok_set [OF assms(1)])
  show "\<forall>fd. (fd, i) \<in> set U \<longrightarrow> user_ok tm fd (Some c')"
    using assms user_ok_le by (fastforce simp: core_ok_def)
qed (use assms(2) in simp)

lemma core_ok_delete:
  assumes "core_ok U C a tm T"
  shows "core_ok (AList.delete fd U) C a tm T"
proof -
  have "set (AList.delete fd U) \<subseteq> set U" by (auto simp: AList.delete_eq)
  moreover have "distinct (map fst (AList.delete fd U))"
    using assms by (simp add: core_ok_def AList.distinct_delete)
  ultimately show ?thesis using assms unfolding core_ok_def by blast
qed

lemma core_ok_drop:
  assumes "core_ok U C a tm T" "i \<notin> snd ` set U" "i \<notin> task_obj ` T"
  shows "core_ok U (C(i := None)) a tm T"
  using assms unfolding core_ok_def by (auto simp: image_iff)

lemma timers_ok_add:
  assumes "timers_ok tm"
  shows "timers_ok (addTimer tm fd (Some (Close_connection fd)) ms False now)"
  using assms by (auto simp: timers_ok_def addTimer_def tm_insert_def Let_def TimerNode_def tm_inv_insert
      dest: tm_inv_addTimer [of tm fd "Some (Close_connection fd)" ms False now])

lemma user_ok_add:
  "user_ok tm fd oc \<Longrightarrow> user_ok (addTimer tm fd' cb ms rep now) fd oc"
  by (auto simp: user_ok_def addTimer_def tm_insert_def Let_def TimerNode_def split: option.splits)

lemma core_ok_timers:
  assumes "core_ok U C a tm T" "timers_ok tm'" "\<forall>(fd, i) \<in> set U. user_ok tm' fd (C i)"
  shows "core_ok U C a tm' T"
  using assms by (simp add: core_ok_def)

lemma core_ok_users: "core_ok U C a tm T \<Longrightarrow> (fd, i) \<in> set U \<Longrightarrow> user_ok tm fd (C i)"
  by (auto simp: core_ok_def)

lemma core_ok_refresh:
  assumes "core_ok U C a tm T"
  shows "core_ok U C a (addTimer tm fd (Some (Close_connection fd)) ms False now) T"
proof (rule core_ok_timers [OF assms])
  show "timers_ok (addTimer tm fd (Some (Close_connection fd)) ms False now)"
    using assms by (simp add: core_ok_def timers_ok_add)
qed (auto dest: core_ok_users [OF assms] intro: user_ok_add)

lemma core_ok_tasks: "core_ok U C a tm T \<Longrightarrow> T' \<subseteq> T \<Longrightarrow> core_ok U C a tm T'"
  unfolding core_ok_def by blast

lemma core_ok_user: "core_ok U C a tm T \<Longrightarrow> (fd, i) \<in> set U \<Longrightarrow> \<exists>c. C i = Some c \<and> link fd c"
  by (fastforce simp: core_ok_def user_ok_def split: option.splits)

lemma core_ok_add_task:
  assumes "core_ok U C a tm T" "(fd, i) \<in> set U" "task_obj t = i" "task_fd t = fd"
  shows "core_ok U C a tm (insert t T)"
proof -
  obtain c where "C i = Some c" using core_ok_user [OF assms(1,2)] by blast
  moreover obtain owner where o: "\<forall>(fd, i) \<in> set U. owner i = fd" "\<forall>t \<in> T. owner (task_obj t) = task_fd t"
    "\<forall>i. 0 \<le> owner i"
    using assms(1) by (auto simp: core_ok_def)
  moreover have "owner (task_obj t) = task_fd t" using o(1) assms(2-4) by auto
  ultimately show ?thesis using assms(1,3) unfolding core_ok_def by (intro conjI exI [of _ owner]) auto
qed

lemma core_ok_task_fd: "core_ok U C a tm T \<Longrightarrow> t \<in> T \<Longrightarrow> 0 \<le> task_fd t"
  unfolding core_ok_def by metis

text \<open>Initialising the object of a task again, with the timer armed.\<close>

lemma core_ok_reinit:
  assumes "core_ok U C a tm T" "t \<in> T" "task_obj t = i" "task_fd t = fd" "link fd c"
  shows "core_ok U (C(i \<mapsto> c)) a (addTimer tm fd (Some (Close_connection fd)) ms False now) T"
proof (rule core_ok_set [OF core_ok_refresh [OF assms(1)]])
  show "C i \<noteq> None" using assms by (auto simp: core_ok_def)
  have "fd' = fd" if "(fd', i) \<in> set U" for fd' using assms(1-4) that unfolding core_ok_def by fastforce
  with assms(5) show "\<forall>fd'. (fd', i) \<in> set U \<longrightarrow> user_ok (addTimer tm fd (Some (Close_connection fd)) ms False now) fd' (Some c)"
    by (auto simp: user_ok_def addTimer_def tm_insert_def Let_def TimerNode_def)
qed

text \<open>A new connection.\<close>

lemma core_ok_new:
  assumes "core_ok U C a tm T" "link fd c" "0 \<le> fd"
  shows "core_ok (AList.update fd a U) (C(a \<mapsto> c)) (Suc a) (addTimer tm fd (Some (Close_connection fd)) ms False now) T"
proof -
  let ?U = "AList.update fd a U" and ?tm = "addTimer tm fd (Some (Close_connection fd)) ms False now"
  obtain owner where o: "\<forall>(fd, i) \<in> set U. owner i = fd" "\<forall>t \<in> T. owner (task_obj t) = task_fd t" "\<forall>i. 0 \<le> owner i"
    using assms(1) by (auto simp: core_ok_def)
  have fresh: "C a = None" using assms(1) by (auto simp: core_ok_def)
  have T: "task_obj t \<noteq> a" if "t \<in> T" for t using assms(1) fresh that by (auto simp: core_ok_def)
  have old: "i \<noteq> a" if "(f, i) \<in> set U" for f i using core_ok_user [OF assms(1) that] fresh by auto
  have dist: "distinct (map fst ?U)" using assms(1) by (simp add: core_ok_def distinct_update)
  have U: "(f, i) \<in> set ?U \<Longrightarrow> f = fd \<and> i = a \<or> (f, i) \<in> set U \<and> f \<noteq> fd" for f i
    using dist map_of_eq_Some_iff [OF dist, of f i] assms(1)
    by (auto simp: map_of_AList_update core_ok_def split: if_splits)
  have "user_ok ?tm f ((C(a \<mapsto> c)) i)" if "(f, i) \<in> set ?U" for f i
    using U [OF that]
  proof
    assume "f = fd \<and> i = a"
    with assms(2) show ?thesis by (auto simp: user_ok_def addTimer_def tm_insert_def Let_def TimerNode_def)
  next
    assume "(f, i) \<in> set U \<and> f \<noteq> fd"
    then have "user_ok tm f (C i)" "i \<noteq> a" using assms(1) old by (auto simp: core_ok_def)
    then show ?thesis using user_ok_add by simp
  qed
  moreover have "\<forall>(f, i) \<in> set ?U. (owner(a := fd)) i = f" using U o(1) old by fastforce
  moreover have "\<forall>t \<in> T. (owner(a := fd)) (task_obj t) = task_fd t" using o(2) T by auto
  moreover have "\<forall>i. 0 \<le> (owner(a := fd)) i" using o(3) assms(3) by simp
  moreover have "timers_ok ?tm" using assms(1) timers_ok_add by (auto simp: core_ok_def)
  moreover have "\<forall>t \<in> T. (C(a \<mapsto> c)) (task_obj t) \<noteq> None" using assms(1) by (auto simp: core_ok_def)
  moreover have "\<forall>i. (C(a \<mapsto> c)) i \<noteq> None \<longrightarrow> i < Suc a" using assms(1) by (auto simp: core_ok_def less_Suc_eq)
  ultimately show ?thesis using dist unfolding core_ok_def by blast
qed

section \<open>Every operation keeps it\<close>

lemma close_object_frame [simp]:
  "m_users (close_object ns i) = m_users ns" "m_thread_pool (close_object ns i) = m_thread_pool ns"
  "m_timer_manager (close_object ns i) = m_timer_manager ns" "ns_alloc (close_object ns i) = ns_alloc ns"
  "m_config (close_object ns i) = m_config ns" "j \<noteq> i \<Longrightarrow> ns_conns (close_object ns i) j = ns_conns ns j"
  "m_listen_fds (close_object ns i) = m_listen_fds ns"
  by (auto simp: close_object_def close_fd_def Let_def split: option.splits prod.splits)

lemma close_object_conns:
  "ns_conns ns i = Some c \<Longrightarrow> ns_conns (close_object ns i) = (ns_conns ns)(i \<mapsto> fst (conn_close c (ns_ws ns)))"
  by (auto simp: close_object_def close_fd_def Let_def split: prod.splits)

lemma server_ok_conn:
  "server_ok ns \<Longrightarrow> ns_conns ns i = Some c \<Longrightarrow> conn_le c c' \<Longrightarrow> server_ok (ns\<lparr>ns_conns := (ns_conns ns)(i \<mapsto> c')\<rparr>)"
  by (simp add: server_ok_def core_ok_le)

lemma server_ok_fields [simp]:
  "server_ok (ns\<lparr>ns_app := x\<rparr>) = server_ok ns" "server_ok (ns\<lparr>ns_ws := m\<rparr>) = server_ok ns"
  "server_ok (ns\<lparr>ns_open := f\<rparr>) = server_ok ns" "server_ok (ns\<lparr>ns_epoll := e\<rparr>) = server_ok ns"
  "server_ok (ns\<lparr>m_listenFdToPort := p\<rparr>) = server_ok ns" "server_ok (ns\<lparr>m_is_running := b\<rparr>) = server_ok ns"
  "server_ok (ns\<lparr>m_shutdown_called := b\<rparr>) = server_ok ns" "server_ok (ns\<lparr>ns_trig_mode := i\<rparr>) = server_ok ns"
  by (simp_all add: server_ok_def)

lemma server_ok_close_object:
  assumes "server_ok ns"
  shows "server_ok (close_object ns i)"
proof (cases "ns_conns ns i")
  case (Some c)
  have "conn_le c (fst (conn_close c (ns_ws ns)))" by (metis conn_le_close prod.collapse)
  from server_ok_conn [OF assms Some this] Some show ?thesis
    by (simp add: server_ok_def close_object_conns [OF Some])
qed (use assms in \<open>simp add: close_object_def\<close>)

lemma referenced_close_object [simp]: "referenced (close_object ns i) j = referenced ns j"
  by (simp add: referenced_def)

lemma release_frame [simp]:
  "m_users (release ns i) = m_users ns" "m_thread_pool (release ns i) = m_thread_pool ns"
  "m_timer_manager (release ns i) = m_timer_manager ns" "ns_alloc (release ns i) = ns_alloc ns"
  "m_config (release ns i) = m_config ns" "j \<noteq> i \<Longrightarrow> ns_conns (release ns i) j = ns_conns ns j"
  "m_listen_fds (release ns i) = m_listen_fds ns"
  by (simp_all add: release_def Let_def)

lemma server_ok_release: "server_ok ns \<Longrightarrow> server_ok (release ns i)"
proof (cases "referenced ns i")
  case False
  assume "server_ok ns"
  then have "server_ok (close_object ns i)" by (rule server_ok_close_object)
  with False show ?thesis
    by (auto simp: release_def Let_def server_ok_def referenced_def pool_tasks_def image_Un intro: core_ok_drop)
qed (simp add: release_def)

lemma server_ok_closeConnection:
  assumes "server_ok ns"
  shows "server_ok (closeConnection ns fd)"
proof -
  have "server_ok (epoll_removeFd (ns\<lparr>m_users := AList.delete fd (m_users ns)\<rparr>) fd)"
    using assms core_ok_delete by (simp add: server_ok_def epoll_removeFd_def)
  then show ?thesis
    using assms server_ok_close_object server_ok_release
    by (auto simp: closeConnection_def Let_def split: option.splits)
qed

lemma fd_ops_frame [simp]:
  "server_ok (modFd ns fd ev) = server_ok ns" "server_ok (addFd ns fd ev) = server_ok ns"
  "server_ok (close_fd ns fd) = server_ok ns"
  by (simp_all add: server_ok_def modFd_def modFd_full_def addFd_def addFd_full_def close_fd_def)

lemma modFd_fields [simp]:
  "m_users (modFd ns fd ev) = m_users ns" "ns_conns (modFd ns fd ev) = ns_conns ns"
  "m_thread_pool (modFd ns fd ev) = m_thread_pool ns" "m_timer_manager (modFd ns fd ev) = m_timer_manager ns"
  "ns_alloc (modFd ns fd ev) = ns_alloc ns" "m_config (modFd ns fd ev) = m_config ns"
  by (simp_all add: modFd_def modFd_full_def)

lemma server_ok_refresh: "server_ok ns \<Longrightarrow> server_ok (refreshTimer ns fd now)"
  by (simp add: server_ok_def refreshTimer_def core_ok_refresh)

lemma refreshTimer_pool [simp]: "m_thread_pool (refreshTimer ns fd now) = m_thread_pool ns"
  by (simp add: refreshTimer_def)

lemma server_ok_process:
  assumes "server_ok ns" "process_object env ns i = Inr (ok, ns')"
  shows "server_ok ns' \<and> m_thread_pool ns' = m_thread_pool ns"
proof (cases "ns_conns ns i")
  case None
  with assms(2) show ?thesis by (simp add: process_object_def)
next
  case (Some bc)
  show ?thesis
  proof (cases bc)
    case (Http c)
    with Some assms(2) obtain ok1 c' app where
      p: "http_process (he_ssl (ne_handlers env)) (he_json (ne_handlers env)) (ne_fs env) (ne_root env)
                   (run_handler (ne_handlers env)) c (ns_app ns) (ne_clk env) = Inr (ok1, c', app)"
      by (auto simp: process_object_def elim!: rbind_eq_InrE)
    have "server_ok (ns\<lparr>ns_conns := (ns_conns ns)(i \<mapsto> Http c')\<rparr>)"
      using server_ok_conn [OF assms(1) Some] process_closes [OF p] Http by simp
    with Some Http p assms(2) show ?thesis
      by (auto simp: process_object_def Let_def server_ok_def close_fd_def)
  next
    case (Ws c)
    with Some assms(2) obtain c' where "server_ok ns' = server_ok (ns\<lparr>ns_conns := (ns_conns ns)(i \<mapsto> Ws c')\<rparr>)"
      "m_thread_pool ns' = m_thread_pool ns"
      by (auto simp: process_object_def Let_def server_ok_def elim!: rbind_eq_InrE)
    with server_ok_conn [OF assms(1) Some, of "Ws c'"] Ws show ?thesis by simp
  qed
qed

lemma server_ok_after_read:
  assumes "server_ok ns" "after_read env ns i fd = Inr ns'"
  shows "server_ok ns' \<and> m_thread_pool ns' = m_thread_pool ns"
proof -
  obtain ok ns1 where p: "process_object env ns i = Inr (ok, ns1)"
    using assms(2) by (auto simp: after_read_def elim!: rbind_eq_InrE)
  then show ?thesis
    using server_ok_process [OF assms(1) p] assms(2)
    by (auto simp: after_read_def Let_def intro: server_ok_refresh split: if_splits)
qed

lemma server_ok_read:
  assumes "server_ok ns" "read_object env ns i = Inr (n, ns')"
  shows "server_ok ns' \<and> m_thread_pool ns' = m_thread_pool ns \<and> m_users ns' = m_users ns"
proof -
  obtain c where c: "ns_conns ns i = Some c" using assms(2) by (auto simp: read_object_def split: option.splits)
  obtain n1 c' where r: "conn_read (ns_trig_mode ns) c (ne_recv env) = (n1, c')" by fastforce
  from server_ok_conn [OF assms(1) c conn_le_read [OF r]] assms c r show ?thesis
    by (auto simp: read_object_def)
qed

lemma link_init [simp]: "fd \<noteq> -1 \<Longrightarrow> link fd (conn_init c fd addr)"
  by (cases c) (auto simp: http_init_def Let_def CloseFile_def)

lemma closeConnection_pool [simp]: "m_thread_pool (closeConnection ns fd) = m_thread_pool ns"
  by (auto simp: closeConnection_def epoll_removeFd_def Let_def split: option.splits)

lemma server_ok_write:
  assumes "server_ok ns" "write_task env ns i fd = Inr (wire, ns')" "Task_write i fd \<in> pool_tasks (m_thread_pool ns)" "fd \<noteq> -1"
  shows "server_ok ns' \<and> m_thread_pool ns' = m_thread_pool ns"
proof -
  obtain c where c: "ns_conns ns i = Some c" using assms(2) by (auto simp: write_task_def split: option.splits)
  obtain st w1 c1 where w: "conn_write c (ne_file env) (ne_send1 env) = (st, w1, c1)" by (metis prod_cases3)
  obtain st2 w2 c2 where w2: "conn_write c1 (ne_file env) (ne_send2 env) = (st2, w2, c2)" by (metis prod_cases3)
  define ns1 ns2 where "ns1 = ns\<lparr>ns_conns := (ns_conns ns)(i \<mapsto> c1)\<rparr>" and "ns2 = ns\<lparr>ns_conns := (ns_conns ns)(i \<mapsto> c2)\<rparr>"
  have 1: "server_ok ns1" "server_ok ns2"
    using server_ok_conn [OF assms(1) c conn_le_write [OF w]]
      server_ok_conn [OF assms(1) c conn_le_trans [OF conn_le_write [OF w] conn_le_write [OF w2]]]
    by (simp_all add: ns1_def ns2_def)
  have re: "server_ok (refreshTimer (modFd (ns\<lparr>ns_conns := (ns_conns ns)(i \<mapsto> conn_init c1 fd (conn_addr c1))\<rparr>) fd EPOLLIN) fd (ne_now env))"
    using core_ok_reinit [OF assms(1) [unfolded server_ok_def] assms(3) _ _ link_init [OF assms(4), of c1 "conn_addr c1"]]
    by (simp add: server_ok_def refreshTimer_def)
  have ag: "server_ok (refreshTimer (modFd ns2 fd EPOLLOUT) fd (ne_now env))" using 1 by (intro server_ok_refresh) simp
  have cl: "server_ok (closeConnection ns1 fd)" "server_ok (closeConnection ns2 fd)" using 1 server_ok_closeConnection by auto
  from assms(2) c w w2 re ag cl show ?thesis
    by (auto simp: write_task_def Let_def ns1_def ns2_def split: if_splits)
qed

lemma server_ok_task:
  assumes "server_ok ns" "run_task env ns t = Inr ns'" "t \<in> pool_tasks (m_thread_pool ns)"
  shows "server_ok ns' \<and> m_thread_pool ns' = m_thread_pool ns"
proof (cases t)
  case (Task_read i fd)
  with assms(2) obtain n ns1 where r: "read_object env ns i = Inr (n, ns1)" by (auto elim!: rbind_eq_InrE)
  from server_ok_read [OF assms(1) r] Task_read assms(2) r show ?thesis
    by (auto split: if_splits dest: server_ok_after_read intro: server_ok_closeConnection)
next
  case (Task_process i fd)
  with assms(2) have "after_read env ns i fd = Inr ns'" by simp
  from server_ok_after_read [OF assms(1) this] show ?thesis .
next
  case (Task_write i fd)
  then obtain wire where "write_task env ns i fd = Inr (wire, ns')"
    using assms(2) by (cases "write_task env ns i fd") auto
  moreover have "0 \<le> fd" using core_ok_task_fd [OF assms(1) [unfolded server_ok_def] assms(3)] Task_write by simp
  ultimately show ?thesis using server_ok_write [OF assms(1)] assms(3) Task_write by simp
qed

subsection \<open>The main thread\<close>

lemma getConn_of_user: "getConn_of ns fd = Some i \<Longrightarrow> (fd, i) \<in> set (m_users ns)"
  by (auto simp: getConn_of_def split: option.splits if_splits dest: map_of_SomeD)

lemma pool_tasks_add [simp]: "pool_tasks (addTask p t) = insert t (pool_tasks p)"
  by (auto simp: pool_tasks_def addTask_def running_def)

lemma server_ok_add_task:
  assumes "server_ok ns" "(task_fd t, task_obj t) \<in> set (m_users ns)"
  shows "server_ok (add_task ns t)"
  using assms core_ok_add_task by (fastforce simp: server_ok_def add_task_def)

lemma server_ok_readEvent:
  assumes "server_ok ns" "handleReadEvent env ns fd = Inr ns'"
  shows "server_ok ns'"
proof (cases "getConn_of ns fd")
  case (Some i)
  note u = getConn_of_user [OF Some]
  show ?thesis
  proof (cases "actor_model (m_config ns) = 0")
    case True
    with Some assms(2) obtain n ns1 where r: "read_object env ns i = Inr (n, ns1)"
      by (auto simp: handleReadEvent_def elim!: rbind_eq_InrE)
    from server_ok_read [OF assms(1) r] True Some assms(2) r u show ?thesis
      by (auto simp: handleReadEvent_def intro: server_ok_add_task server_ok_closeConnection split: if_splits)
  next
    case False
    with Some assms u show ?thesis by (auto simp: handleReadEvent_def intro: server_ok_add_task)
  qed
qed (use assms in \<open>simp add: handleReadEvent_def\<close>)

lemma server_ok_writeEvent: "server_ok ns \<Longrightarrow> server_ok (handleWriteEvent ns fd)"
  using server_ok_add_task [of ns "Task_write (the (getConn_of ns fd)) fd"] getConn_of_user [of ns fd]
  by (auto simp: handleWriteEvent_def split: option.splits)

lemma addFd_fields [simp]:
  "m_users (addFd ns fd ev) = m_users ns" "ns_conns (addFd ns fd ev) = ns_conns ns"
  "m_thread_pool (addFd ns fd ev) = m_thread_pool ns" "m_timer_manager (addFd ns fd ev) = m_timer_manager ns"
  "ns_alloc (addFd ns fd ev) = ns_alloc ns" "ns_factories (addFd ns fd ev) = ns_factories ns"
  "m_listenFdToPort (addFd ns fd ev) = m_listenFdToPort ns"
  by (simp_all add: addFd_def addFd_full_def)

lemma release_conns: "ns_conns (release ns j) = (if referenced ns j then ns_conns ns else (ns_conns ns)(j := None))"
  by (auto simp: release_def Let_def fun_eq_iff)

lemma server_ok_newConnection:
  assumes "server_ok ns" "handleNewConnection ns lfd acc now = Inr ns'"
  shows "server_ok ns'"
proof (cases "fst acc < 0")
  case True
  with assms show ?thesis by (auto simp: handleNewConnection_def split: prod.splits)
next
  case False
  obtain fd addr where acc: "acc = (fd, addr)" by (cases acc)
  define port where "port = (case m_listenFdToPort ns lfd of None \<Rightarrow> 0 | Some p \<Rightarrow> p)"
  obtain c where c: "createConn (ns_factories ns) port = Some c"
    using assms(2) False acc by (auto simp: handleNewConnection_def Let_def port_def split: option.splits)
  let ?i = "ns_alloc ns" and ?U = "AList.update fd (ns_alloc ns) (m_users ns)"
  let ?tm = "addTimer (m_timer_manager ns) fd (Some (Close_connection fd)) 1000000 False now"
  let ?C = "(ns_conns ns)(?i \<mapsto> conn_init c fd addr)" and ?T = "pool_tasks (m_thread_pool ns)"
  have new: "core_ok ?U ?C (Suc ?i) ?tm ?T"
    using core_ok_new [OF assms(1) [unfolded server_ok_def]] False acc by simp
  show ?thesis
  proof (cases "map_of (m_users ns) fd")
    case None
    with assms(2) False acc c new show ?thesis
      by (auto simp: handleNewConnection_def Let_def port_def server_ok_def refreshTimer_def)
  next
    case (Some j)
    then have "\<exists>x. ns_conns ns j = Some x" using assms(1) core_ok_user by (fastforce simp: server_ok_def dest: map_of_SomeD)
    then have j: "j \<noteq> ?i" using assms(1) by (auto simp: server_ok_def core_ok_def)
    have upd: "((ns_conns ns)(?i \<mapsto> c, j := None, ?i \<mapsto> conn_init c fd addr)) = ?C(j := None)" using j by (auto simp: fun_eq_iff)
    have drop: "core_ok ?U (?C(j := None)) (Suc ?i) ?tm ?T" if "j \<notin> snd ` set ?U" "j \<notin> task_obj ` ?T"
      using core_ok_drop [OF new that] .
    show ?thesis
      using assms(2) False acc c Some new drop upd
      by (auto simp: handleNewConnection_def Let_def port_def server_ok_def refreshTimer_def release_conns referenced_def
          pool_tasks_def image_Un split: if_splits)
  qed
qed

lemma server_ok_foldl: "(\<And>ns x. server_ok ns \<Longrightarrow> server_ok (f ns x)) \<Longrightarrow> server_ok ns \<Longrightarrow> server_ok (foldl f ns xs)"
  by (induction xs arbitrary: ns) auto

lemma server_ok_shutdown:
  assumes "server_ok ns"
  shows "server_ok (net_shutdown my ns)"
proof -
  have clear: "server_ok (ns\<lparr>m_users := []\<rparr>)" if "server_ok ns" for ns :: "('wh, 'd) net_server"
    using that unfolding server_ok_def core_ok_def by auto
  define ids where "ids = map snd (m_users ns)"
  have users: "m_users (foldl close_fd ns fds) = m_users ns" for fds
    by (induction fds arbitrary: ns) (auto simp: close_fd_def)
  define ns1 where "ns1 = foldl close_object (foldl close_fd ns (filter (\<lambda>fd. 0 \<le> fd) (m_listen_fds ns))) ids"
  have "server_ok ns1" unfolding ns1_def
    using assms by (intro server_ok_foldl) (auto intro: server_ok_close_object)
  then have "server_ok (foldl release (ns1\<lparr>m_users := []\<rparr>) ids)"
    by (intro server_ok_foldl clear) (auto intro: server_ok_release)
  then show ?thesis
    unfolding net_shutdown_def Let_def ids_def ns1_def users
    by (simp add: server_ok_def pool_tasks_def pool_stop_def running_def)
qed

lemma server_ok_signal: "server_ok ns \<Longrightarrow> server_ok (handleSignalEvent my ns sigs)"
  unfolding handleSignalEvent_def by (rule server_ok_foldl) (auto intro: server_ok_shutdown)

lemma server_ok_event: "server_ok ns \<Longrightarrow> handle_event my env ns ev = Inr ns' \<Longrightarrow> server_ok ns'"
  by (cases ev) (auto simp: handle_event_def split: if_splits
      intro: server_ok_newConnection server_ok_signal server_ok_readEvent server_ok_writeEvent)

end
