(* ===== verification/Net_Properties.thy ===== *)
theory Net_Properties
  imports Net_Invariant
begin

text \<open>
  The running server: timers, workers and events interleave in any order. The invariant of the theory \<open>Net_Invariant\<close>
  holds in every reachable state, and a call of \<open>tick\<close> closes what has been idle for too long and nothing else.
\<close>

section \<open>Closing on a timer\<close>

definition settled :: "('wh, 'd) net_server \<Rightarrow> int \<Rightarrow> bool" where
  "settled ns fd \<longleftrightarrow> (\<forall>i. (fd, i) \<in> set (m_users ns) \<longrightarrow> object_isClosed ns i)"

lemma conn_le_closed: "conn_le a b \<Longrightarrow> conn_isClosed a \<Longrightarrow> conn_isClosed b"
  by (cases a; cases b) (auto simp: ws_isClosed_def)

lemma object_isClosed_close: "object_isClosed ns j \<Longrightarrow> object_isClosed (close_object ns i) j"
proof (cases "ns_conns ns i")
  case (Some c)
  assume "object_isClosed ns j"
  moreover have "conn_le c (fst (conn_close c (ns_ws ns)))" by (metis conn_le_close prod.collapse)
  ultimately show ?thesis
    using Some conn_le_closed by (auto simp: object_isClosed_def close_object_conns [OF Some])
qed (simp add: close_object_def)

lemma object_isClosed_release: "object_isClosed ns j \<Longrightarrow> object_isClosed (release ns i) j"
  using object_isClosed_close [of ns j i] by (auto simp: release_def Let_def object_isClosed_def)

lemma object_isClosed_frame [simp]:
  "object_isClosed (ns\<lparr>m_users := u\<rparr>) j = object_isClosed ns j" "object_isClosed (epoll_removeFd ns fd) j = object_isClosed ns j"
  by (simp_all add: object_isClosed_def epoll_removeFd_def)

lemma closeConnection_closed: "object_isClosed ns j \<Longrightarrow> object_isClosed (closeConnection ns fd) j"
  by (auto simp: closeConnection_def Let_def intro!: object_isClosed_release object_isClosed_close split: option.splits)

lemma epoll_removeFd_fields [simp]:
  "m_users (epoll_removeFd ns fd) = m_users ns" "ns_conns (epoll_removeFd ns fd) = ns_conns ns"
  "m_timer_manager (epoll_removeFd ns fd) = m_timer_manager ns" "ns_ws (epoll_removeFd ns fd) = ns_ws ns"
  "ns_open (epoll_removeFd ns fd) = ns_open ns" "m_thread_pool (epoll_removeFd ns fd) = m_thread_pool ns"
  "ns_epoll (epoll_removeFd ns fd) = (ns_epoll ns)(fd := None)"
  by (simp_all add: epoll_removeFd_def)

lemma closeConnection_users: "set (m_users (closeConnection ns fd)) \<subseteq> set (m_users ns)"
  by (auto simp: closeConnection_def Let_def AList.delete_eq split: option.splits)

lemma closeConnection_timers [simp]: "m_timer_manager (closeConnection ns fd) = m_timer_manager ns"
  by (simp add: closeConnection_def Let_def split: option.splits)

lemma server_ok_user:
  assumes "server_ok ns" "(fd, i) \<in> set (m_users ns)"
  shows "map_of (m_users ns) fd = Some i \<and> 0 \<le> fd \<and> user_ok (m_timer_manager ns) fd (ns_conns ns i)"
  using assms unfolding server_ok_def core_ok_def by (fastforce dest: map_of_is_SomeI)

lemma closeConnection_settles:
  assumes "server_ok ns"
  shows "settled (closeConnection ns fd) fd"
proof (cases "map_of (m_users ns) fd")
  case None
  then have "closeConnection ns fd = ns" by (simp add: closeConnection_def)
  with None show ?thesis by (auto simp: settled_def map_of_eq_None_iff image_iff)
next
  case (Some i)
  then have "user_ok (m_timer_manager ns) fd (ns_conns ns i)" using server_ok_user [OF assms] map_of_SomeD by fast
  then obtain c where c: "ns_conns ns i = Some c" by (auto simp: user_ok_def split: option.splits)
  show ?thesis
  proof (cases "conn_isClosed c")
    case True
    have "settled ns fd"
      unfolding settled_def using True Some c server_ok_user [OF assms] by (auto simp: object_isClosed_def)
    with True Some c show ?thesis by (simp add: closeConnection_def)
  next
    case False
    with Some c show ?thesis by (auto simp: settled_def closeConnection_def Let_def AList.delete_eq)
  qed
qed

lemma settled_closeConnection: "settled ns f \<Longrightarrow> settled (closeConnection ns fd) f"
  using closeConnection_users [of ns fd] closeConnection_closed [of ns _ fd] by (auto simp: settled_def)

lemma close_all:
  assumes "server_ok ns"
  shows "server_ok (foldl closeConnection ns fds) \<and> m_timer_manager (foldl closeConnection ns fds) = m_timer_manager ns \<and>
    (\<forall>f. settled ns f \<or> f \<in> set fds \<longrightarrow> settled (foldl closeConnection ns fds) f)"
  using assms
proof (induction fds arbitrary: ns)
  case (Cons fd fds)
  have ih: "server_ok (closeConnection ns fd)" using Cons.prems by (rule server_ok_closeConnection)
  show ?case
    using Cons.IH [OF ih] closeConnection_settles [OF Cons.prems, of fd] settled_closeConnection [of ns _ fd] by auto
qed simp

lemma fire_close:
  assumes "\<forall>t \<in> set ts. m_callback (snd t) = Some (Close_connection (m_fd (snd t)))"
  shows "fire_all run_cb ts ns = foldl closeConnection ns (map (m_fd \<circ> snd) ts)"
  using assms by (induction ts arbitrary: ns) (auto simp: runCallback_def)

lemma tick_timers_eq:
  assumes "server_ok ns" "mono clk"
  obtains m' fired where
    "tick_timers clk ns = Some ((foldl closeConnection ns (map (m_fd \<circ> snd) fired))\<lparr>m_timer_manager := m'\<rparr>)"
    "\<forall>t \<in> set fired. m_timer_map (m_timer_manager ns) (m_fd (snd t)) = Some t \<and> (\<exists>j. expire t \<le> clk j)"
    "\<forall>fd t. m_timer_map (m_timer_manager ns) fd = Some t \<and> expire t \<le> clk 0 \<longrightarrow> t \<in> set fired"
    "m_timer_map m' = forget fired (m_timer_map (m_timer_manager ns))" "timers_ok m'"
proof -
  let ?tm = "m_timer_manager ns"
  have t: "timers_ok ?tm" using assms(1) by (simp add: server_ok_def core_ok_def)
  then have i: "tm_inv ?tm" "once ?tm" by (simp_all add: timers_ok_def)
  from tick_once [OF i assms(2), of run_cb ns] obtain m' fired where
    r: "tick run_cb clk ?tm ns = Some (m', fire_all run_cb fired ns)" and
    f: "\<forall>t \<in> set fired. m_timer_map ?tm (m_fd (snd t)) = Some t \<and> (\<exists>j. expire t \<le> clk j)" and
    c: "\<forall>fd t. m_timer_map ?tm fd = Some t \<and> expire t \<le> clk 0 \<longrightarrow> t \<in> set fired" and
    m: "m_timer_map m' = forget fired (m_timer_map ?tm)" "tm_inv m'" "set (m_timer_heap m') \<subseteq> set (m_timer_heap ?tm)"
    by blast
  have "timers_ok m'" using t m i(2) by (auto simp: timers_ok_def forget_def split: if_splits)
  moreover have "fire_all run_cb fired ns = foldl closeConnection ns (map (m_fd \<circ> snd) fired)"
    using t f by (intro fire_close) (auto simp: timers_ok_def)
  ultimately show ?thesis using that [of m' fired] r f c m(1) by (simp add: tick_timers_def)
qed

lemma server_ok_tick:
  assumes "server_ok ns" "mono clk"
  shows "\<exists>ns'. tick_timers clk ns = Some ns' \<and> server_ok ns'"
proof -
  obtain m' fired where
    r: "tick_timers clk ns = Some ((foldl closeConnection ns (map (m_fd \<circ> snd) fired))\<lparr>m_timer_manager := m'\<rparr>)" and
    m: "m_timer_map m' = forget fired (m_timer_map (m_timer_manager ns))" "timers_ok m'"
    using tick_timers_eq [OF assms] by metis
  define n where "n = foldl closeConnection ns (map (m_fd \<circ> snd) fired)"
  have n: "server_ok n" "m_timer_manager n = m_timer_manager ns" "\<forall>t \<in> set fired. settled n (m_fd (snd t))"
    using close_all [OF assms(1), of "map (m_fd \<circ> snd) fired"] by (auto simp: n_def)
  have "user_ok m' f (ns_conns n i)" if u: "(f, i) \<in> set (m_users n)" for f i
  proof -
    obtain c where c: "ns_conns n i = Some c" "conn_isClosed c \<or> m_timer_map (m_timer_manager ns) f \<noteq> None" "link f c"
      using server_ok_user [OF n(1) u] n(2) by (auto simp: user_ok_def split: option.splits)
    moreover have "conn_isClosed c" if "\<exists>t \<in> set fired. m_fd (snd t) = f"
      using that n(3) u c(1) by (fastforce simp: settled_def object_isClosed_def)
    ultimately show ?thesis using m(1) by (auto simp: user_ok_def forget_def)
  qed
  then have "server_ok (n\<lparr>m_timer_manager := m'\<rparr>)"
    using core_ok_timers [OF n(1) [unfolded server_ok_def] m(2)] by (simp add: server_ok_def split_def)
  with r show ?thesis by (simp add: n_def)
qed

section \<open>Workers and messages\<close>

lemma pool_tasks_update: "set (running (p\<lparr>m_threads := (m_threads p)[i := w]\<rparr>)) \<subseteq> set (running p) \<union> set (executing w)"
  using set_update_subset_insert [of "m_threads p" i w] by (auto simp: running_def)

lemma pool_tasks_worker:
  assumes "worker_step p i = Some p'"
  shows "pool_tasks p' \<subseteq> pool_tasks p"
  using assms pool_tasks_update [of p i]
  by (fastforce simp: worker_step_def pool_tasks_def running_def split: if_splits worker.splits list.splits)

lemma server_ok_worker:
  assumes "server_ok ns" "worker_round env ns w = Some (Inr ns')"
  shows "server_ok ns'"
proof -
  have pool: "server_ok (n\<lparr>m_thread_pool := p\<rparr>)" if "server_ok n" "worker_step (m_thread_pool n) w = Some p"
    for n :: "('wh, 'd) net_server" and p
    using that pool_tasks_worker [OF that(2)] core_ok_tasks by (auto simp: server_ok_def)
  have w: "w < length (m_threads (m_thread_pool ns))" using assms(2) by (simp add: worker_round_def split: if_splits)
  show ?thesis
  proof (cases "m_threads (m_thread_pool ns) ! w")
    case (Executing t)
    then have "Executing t \<in> set (m_threads (m_thread_pool ns))" using w by (metis nth_mem)
    then have t: "t \<in> pool_tasks (m_thread_pool ns)" by (force simp: pool_tasks_def running_def)
    from assms(2) Executing w obtain n where r: "run_task env ns t = Inr n"
      by (auto simp: worker_round_def elim!: rbind_eq_InrE)
    from server_ok_task [OF assms(1) r t] pool [of n] assms(2) Executing w r show ?thesis
      by (auto simp: worker_round_def intro: server_ok_release split: option.splits)
  qed (use assms w pool [OF assms(1)] in \<open>auto simp: worker_round_def\<close>)
qed

lemma server_ok_send:
  assumes "server_ok ns"
  shows "server_ok (snd (net_sendToSession ns sid msg))"
  using assms
  by (auto simp: net_sendToSession_def sendToSession_def split: option.splits if_splits base_conn.splits intro!: server_ok_conn)

section \<open>Reachable states\<close>

lemma server_ok_new: "server_ok (NetServer_new any_called config factories app)"
  by (auto simp: server_ok_def core_ok_def NetServer_new_def pool_tasks_def ThreadPool_new_def running_def timers_ok_def
      intro: exI [of _ "\<lambda>_. 0"])

lemma server_ok_listener [simp]: "server_ok (register_listener ns fd port) = server_ok ns"
  by (simp add: server_ok_def register_listener_def)

lemma server_ok_initSocket: "server_ok ns \<Longrightarrow> initSocket ns l = Some ns' \<Longrightarrow> server_ok ns'"
  by (induction ns l rule: initSocket.induct) auto

lemma server_ok_addFd_full [simp]: "server_ok (addFd_full ns fd ev os et) = server_ok ns"
  by (simp add: server_ok_def addFd_full_def)

lemma server_ok_init:
  assumes "net_init (NetServer_new any_called c0 factories app) config sfd outs ok = Some ns"
  shows "server_ok ns"
proof -
  let ?n = "(NetServer_new any_called c0 factories app)\<lparr>m_config := config, m_thread_pool := ThreadPool_new (nat (thread_num config)),
    m_signal_fd := sfd, ns_open := (ns_open (NetServer_new any_called c0 factories app))(sfd := True)\<rparr>"
  have n: "server_ok ?n"
    using server_ok_new [of any_called c0 factories app]
    by (simp add: server_ok_def pool_tasks_def ThreadPool_new_def running_def NetServer_new_def core_ok_tasks)
  obtain n1 where n1: "initSocket ?n (zip (listen_ports config) outs) = Some n1"
    using assms by (auto simp: net_init_def Let_def split: option.splits)
  obtain n2 where n2: "initEpoll n1 ok = Some n2"
    using assms n1 by (auto simp: net_init_def Let_def)
  have "server_ok n2"
    using n2 server_ok_initSocket [OF n n1] server_ok_foldl [of "\<lambda>ns fd. addFd_full ns fd EPOLLIN False False" n1]
    by (auto simp: initEpoll_def Let_def split: if_splits)
  then show ?thesis using assms n1 n2 by (auto simp: net_init_def Let_def)
qed

text \<open>The steps of the main thread, of the workers, and of code that sends to a session; the clock does not go back.\<close>

inductive net_reachable :: "'d mysql \<Rightarrow> ('wh, 'd) net_server \<Rightarrow> bool" for my where
  start: "net_init (NetServer_new any_called c0 factories app) config sfd outs ok = Some ns \<Longrightarrow> net_reachable my ns"
| timers: "net_reachable my ns \<Longrightarrow> mono clk \<Longrightarrow> tick_timers clk ns = Some ns' \<Longrightarrow> net_reachable my ns'"
| event: "net_reachable my ns \<Longrightarrow> handle_event my env ns ev = Inr ns' \<Longrightarrow> net_reachable my ns'"
| work: "net_reachable my ns \<Longrightarrow> worker_round env ns w = Some (Inr ns') \<Longrightarrow> net_reachable my ns'"
| send: "net_reachable my ns \<Longrightarrow> net_reachable my (snd (net_sendToSession ns sid msg))"

lemma reachable_ok: "net_reachable my ns \<Longrightarrow> server_ok ns"
proof (induction rule: net_reachable.induct)
  case (timers ns clk ns')
  then show ?case using server_ok_tick [of ns clk] by auto
qed (auto intro: server_ok_init server_ok_event server_ok_worker server_ok_send)

lemma reachable_events:
  assumes "foldl (\<lambda>r (ev, env). rbind r (\<lambda>ns. handle_event my env ns ev)) (Inr ns) evs = Inr ns'" "net_reachable my ns"
  shows "net_reachable my ns'"
  using assms
proof (induction evs arbitrary: ns)
  case (Cons e evs)
  obtain ev env where e: "e = (ev, env)" by (cases e)
  have fail: "foldl (\<lambda>r (ev, env). rbind r (\<lambda>ns. handle_event my env ns ev)) (Inl x) es \<noteq> Inr y" for x es y
    by (induction es) auto
  show ?case
  proof (cases "handle_event my env ns ev")
    case (Inl x)
    with Cons.prems(1) e fail [of x evs ns'] show ?thesis by simp
  next
    case (Inr n)
    with Cons e show ?thesis by (auto intro: net_reachable.event)
  qed
qed simp

lemma reachable_round:
  "net_reachable my ns \<Longrightarrow> mono clk \<Longrightarrow> loop_round my clk evs ns = Some (Inr ns') \<Longrightarrow> net_reachable my ns'"
  by (auto simp: loop_round_def intro: net_reachable.timers reachable_events)

lemma reachable_eventLoop:
  "net_reachable my ns \<Longrightarrow> \<forall>(clk, evs) \<in> set rounds. mono clk \<Longrightarrow> eventLoop my rounds ns = Some (Inr ns') \<Longrightarrow> net_reachable my ns'"
proof (induction my rounds ns rule: eventLoop.induct)
  case (2 my clk evs rounds ns)
  show ?case
  proof (cases "m_is_running ns")
    case True
    with "2.prems"(3) obtain n where n: "loop_round my clk evs ns = Some (Inr n)"
      by (auto split: option.splits sum.splits)
    have "net_reachable my n" using reachable_round [OF "2.prems"(1) _ n] "2.prems"(2) by simp
    with "2.IH" [OF _ n] "2.prems"(2,3) True n show ?thesis by simp
  qed (use "2.prems" in simp)
qed simp

section \<open>What a timer does\<close>

lemma owner_unique:
  "server_ok ns \<Longrightarrow> (fd, i) \<in> set (m_users ns) \<Longrightarrow> (fd', i) \<in> set (m_users ns) \<Longrightarrow> fd = fd'"
  unfolding server_ok_def core_ok_def by (clarsimp, metis (mono_tags, lifting) case_prodD)

lemma close_object_kernel:
  "ns_epoll ns f = None \<Longrightarrow> ns_epoll (close_object ns i) f = None" "\<not> ns_open ns f \<Longrightarrow> \<not> ns_open (close_object ns i) f"
  by (auto simp: close_object_def close_fd_def Let_def split: option.splits prod.splits)

lemma release_kernel:
  "ns_epoll ns f = None \<Longrightarrow> ns_epoll (release ns i) f = None" "\<not> ns_open ns f \<Longrightarrow> \<not> ns_open (release ns i) f"
  by (auto simp: release_def Let_def dest: close_object_kernel)

lemma closeConnection_kernel:
  "ns_epoll ns f = None \<Longrightarrow> ns_epoll (closeConnection ns fd) f = None"
  "\<not> ns_open ns f \<Longrightarrow> \<not> ns_open (closeConnection ns fd) f"
  by (auto simp: closeConnection_def Let_def intro!: release_kernel close_object_kernel split: option.splits)

lemma closeConnection_other:
  assumes "server_ok ns" "(fd, i) \<in> set (m_users ns)" "fd' \<noteq> fd"
  shows "(fd, i) \<in> set (m_users (closeConnection ns fd')) \<and> ns_conns (closeConnection ns fd') i = ns_conns ns i"
proof -
  have "j \<noteq> i" if "map_of (m_users ns) fd' = Some j" for j
    using owner_unique [OF assms(1,2)] map_of_SomeD [OF that] assms(3) by blast
  with assms(2,3) show ?thesis
    by (auto simp: closeConnection_def Let_def AList.delete_eq split: option.splits)
qed

lemma closeConnection_gone:
  assumes "server_ok ns" "(fd, i) \<in> set (m_users ns)" "\<not> object_isClosed ns i"
  shows "fd \<notin> fst ` set (m_users (closeConnection ns fd)) \<and> ns_epoll (closeConnection ns fd) fd = None \<and>
    (\<forall>h. ns_conns ns i = Some (Http h) \<longrightarrow> \<not> ns_open (closeConnection ns fd) fd)"
proof -
  note u = server_ok_user [OF assms(1,2)]
  obtain c where c: "ns_conns ns i = Some c" "\<not> conn_isClosed c" "link fd c"
    using assms(3) u by (auto simp: object_isClosed_def user_ok_def split: option.splits)
  define n where "n = epoll_removeFd (ns\<lparr>m_users := AList.delete fd (m_users ns)\<rparr>) fd"
  have eq: "closeConnection ns fd = release (close_object n i) i"
    using u c by (simp add: closeConnection_def Let_def n_def)
  have n: "ns_conns n i = Some c" "ns_epoll n fd = None" "fd \<notin> fst ` set (m_users n)"
    using c by (auto simp: n_def AList.delete_eq)
  have "\<not> ns_open (close_object n i) fd" if "c = Http h" for h
    using that c u n(1) by (auto simp: close_object_def http_closeConn_def Let_def close_fd_def)
  with n c show ?thesis
    unfolding eq using release_kernel(2) [of "close_object n i" fd i] by (auto intro: release_kernel close_object_kernel)
qed

lemma close_all_effect:
  assumes "server_ok ns" "(fd, i) \<in> set (m_users ns)"
  shows "if fd \<in> set fds
    then object_isClosed ns i \<or> fd \<notin> fst ` set (m_users (foldl closeConnection ns fds)) \<and>
         ns_epoll (foldl closeConnection ns fds) fd = None \<and>
         (\<forall>h. ns_conns ns i = Some (Http h) \<longrightarrow> \<not> ns_open (foldl closeConnection ns fds) fd)
    else (fd, i) \<in> set (m_users (foldl closeConnection ns fds)) \<and> ns_conns (foldl closeConnection ns fds) i = ns_conns ns i"
  using assms
proof (induction fds arbitrary: ns)
  case (Cons f fds)
  let ?n = "closeConnection ns f"
  have ok: "server_ok ?n" using Cons.prems(1) by (rule server_ok_closeConnection)
  show ?case
  proof (cases "f = fd")
    case False
    note o = closeConnection_other [OF Cons.prems False]
    then have "object_isClosed ?n i = object_isClosed ns i" by (simp add: object_isClosed_def)
    with Cons.IH [OF ok] o False show ?thesis by (auto split: if_splits)
  next
    case True
    have later: "fd \<notin> fst ` set (m_users (foldl closeConnection n fs))" if "fd \<notin> fst ` set (m_users n)"
      for fs and n :: "('wh, 'd) net_server"
      using that
    proof (induction fs arbitrary: n)
      case (Cons g fs)
      have "fd \<notin> fst ` set (m_users (closeConnection n g))" using Cons.prems closeConnection_users [of n g] by blast
      from Cons.IH [OF this] show ?case by simp
    qed simp
    have kern: "ns_epoll n fd = None \<longrightarrow> ns_epoll (foldl closeConnection n fs) fd = None"
      "\<not> ns_open n fd \<longrightarrow> \<not> ns_open (foldl closeConnection n fs) fd" for fs and n :: "('wh, 'd) net_server"
      by (induction fs arbitrary: n) (auto simp: closeConnection_kernel)
    show ?thesis
      using closeConnection_gone [OF Cons.prems] True later [of ?n fds] kern [of ?n fds]
      by (cases "object_isClosed ns i") simp_all
  qed
qed simp

section \<open>Properties\<close>

text \<open>C1. In every state the server can reach, whatever the order of events, timers, tasks of the workers and messages to sessions:
  a descriptor has at most one entry in \<open>m_users\<close> and two entries never share a connection object; every entry and every
  task that is queued or in execution refers to an object that exists; and every entry whose connection is open has a timer
  armed whose callback closes that descriptor.\<close>

theorem server_invariant:
  assumes "net_reachable my ns"
  shows "distinct (map fst (m_users ns)) \<and> distinct (map snd (m_users ns)) \<and>
    (\<forall>(fd, i) \<in> set (m_users ns). ns_conns ns i \<noteq> None) \<and>
    (\<forall>t \<in> set (m_tasks (m_thread_pool ns)) \<union> set (running (m_thread_pool ns)). ns_conns ns (task_obj t) \<noteq> None) \<and>
    (\<forall>(fd, i) \<in> set (m_users ns). \<not> object_isClosed ns i \<longrightarrow>
       (\<exists>t. m_timer_map (m_timer_manager ns) fd = Some t \<and> t \<in> set (m_timer_heap (m_timer_manager ns)) \<and>
            m_callback (snd t) = Some (Close_connection fd) \<and> \<not> m_repeat (snd t)))"
proof -
  note ok = reachable_ok [OF assms]
  then have c: "core_ok (m_users ns) (ns_conns ns) (ns_alloc ns) (m_timer_manager ns) (pool_tasks (m_thread_pool ns))"
    by (simp add: server_ok_def)
  have tm: "timers_ok (m_timer_manager ns)" and d: "distinct (map fst (m_users ns))"
    and T: "\<forall>t \<in> pool_tasks (m_thread_pool ns). ns_conns ns (task_obj t) \<noteq> None"
    using c by (auto simp: core_ok_def)
  have "inj_on snd (set (m_users ns))" using owner_unique [OF ok] by (fastforce intro: inj_onI)
  then have "distinct (map snd (m_users ns))" using d by (simp add: distinct_map)
  moreover have "\<exists>t. m_timer_map (m_timer_manager ns) fd = Some t \<and> t \<in> set (m_timer_heap (m_timer_manager ns)) \<and>
      m_callback (snd t) = Some (Close_connection fd) \<and> \<not> m_repeat (snd t)"
    if u: "(fd, i) \<in> set (m_users ns)" and o: "\<not> object_isClosed ns i" for fd i
  proof -
    obtain t where t: "m_timer_map (m_timer_manager ns) fd = Some t"
      using server_ok_user [OF ok u] o by (auto simp: user_ok_def object_isClosed_def split: option.splits)
    moreover have "t \<in> set (m_timer_heap (m_timer_manager ns))"
      using tm t tm_inv_map_live [of "m_timer_manager ns" fd t] by (simp add: timers_ok_def)
    ultimately show ?thesis using tm unfolding timers_ok_def by blast
  qed
  moreover have "ns_conns ns i \<noteq> None" if "(fd, i) \<in> set (m_users ns)" for fd i
    using core_ok_user [OF c that] by auto
  ultimately show ?thesis using d T by (auto simp: pool_tasks_def)
qed

text \<open>C2. A call of \<open>tick\<close> in a reachable state returns. It closes every connection whose deadline has passed when it begins:
  the entry of \<open>m_users\<close> and the registration with epoll are gone, and for an HTTP connection the descriptor is closed. A
  connection whose deadline is later than every reading of the clock keeps its entry and its object as they were.\<close>

theorem idle_connections_close:
  assumes "net_reachable my ns" "mono clk"
  shows "\<exists>ns'. tick_timers clk ns = Some ns' \<and>
    (\<forall>(fd, i) \<in> set (m_users ns). \<forall>d. deadline (m_timer_manager ns) fd = Some d \<longrightarrow>
       (d \<le> clk 0 \<and> \<not> object_isClosed ns i \<longrightarrow>
          fd \<notin> fst ` set (m_users ns') \<and> ns_epoll ns' fd = None \<and> (\<forall>h. ns_conns ns i = Some (Http h) \<longrightarrow> \<not> ns_open ns' fd)) \<and>
       ((\<forall>j. clk j < d) \<longrightarrow> (fd, i) \<in> set (m_users ns') \<and> ns_conns ns' i = ns_conns ns i))"
proof -
  note ok = reachable_ok [OF assms(1)]
  obtain m' fired where
    r: "tick_timers clk ns = Some ((foldl closeConnection ns (map (m_fd \<circ> snd) fired))\<lparr>m_timer_manager := m'\<rparr>)" and
    f: "\<forall>t \<in> set fired. m_timer_map (m_timer_manager ns) (m_fd (snd t)) = Some t \<and> (\<exists>j. expire t \<le> clk j)" and
    c: "\<forall>fd t. m_timer_map (m_timer_manager ns) fd = Some t \<and> expire t \<le> clk 0 \<longrightarrow> t \<in> set fired"
    using tick_timers_eq [OF ok assms(2)] by metis
  have tm: "tm_inv (m_timer_manager ns)" using ok by (simp add: server_ok_def core_ok_def timers_ok_def)
  have due: "fd \<in> set (map (m_fd \<circ> snd) fired)" if dl: "deadline (m_timer_manager ns) fd = Some d" "d \<le> clk 0" for fd d
  proof -
    obtain t where t: "m_timer_map (m_timer_manager ns) fd = Some t" "expire t = d" using dl(1) by (cases "m_timer_map (m_timer_manager ns) fd") (auto simp: deadline_def)
    with c dl(2) have "t \<in> set fired" by blast
    moreover have "m_fd (snd t) = fd" using tm_inv_map_live [OF tm t(1)] by simp
    ultimately show ?thesis by force
  qed
  have late: "fd \<notin> set (map (m_fd \<circ> snd) fired)" if "deadline (m_timer_manager ns) fd = Some d" "\<forall>j. clk j < d" for fd d
    using that f by (fastforce simp: deadline_def not_le [symmetric])
  define n where "n = (foldl closeConnection ns (map (m_fd \<circ> snd) fired))\<lparr>m_timer_manager := m'\<rparr>"
  have sel: "m_users n = m_users (foldl closeConnection ns (map (m_fd \<circ> snd) fired))"
    "ns_conns n = ns_conns (foldl closeConnection ns (map (m_fd \<circ> snd) fired))"
    "ns_open n = ns_open (foldl closeConnection ns (map (m_fd \<circ> snd) fired))"
    "ns_epoll n = ns_epoll (foldl closeConnection ns (map (m_fd \<circ> snd) fired))"
    by (simp_all add: n_def)
  have "(d \<le> clk 0 \<and> \<not> object_isClosed ns i \<longrightarrow>
          fd \<notin> fst ` set (m_users n) \<and> ns_epoll n fd = None \<and> (\<forall>h. ns_conns ns i = Some (Http h) \<longrightarrow> \<not> ns_open n fd)) \<and>
       ((\<forall>j. clk j < d) \<longrightarrow> (fd, i) \<in> set (m_users n) \<and> ns_conns n i = ns_conns ns i)"
    if "(fd, i) \<in> set (m_users ns)" "deadline (m_timer_manager ns) fd = Some d" for fd i d
    using close_all_effect [OF ok that(1), of "map (m_fd \<circ> snd) fired"] due [OF that(2)] late [OF that(2)]
    unfolding sel by presburger
  then show ?thesis
    unfolding r n_def [symmetric] by (intro exI conjI [OF refl] ballI case_prodI2 allI impI) blast
qed

text \<open>A server with one HTTP connection, accepted at time 0 as descriptor 7.\<close>

definition demo_net_env :: "(unit, demo_db) net_env" where
  "demo_net_env = \<lparr>ne_accept = (7, ''10.0.0.1''), ne_signals = [], ne_recv = [], ne_send1 = [], ne_send2 = [], ne_file = [],
     ne_fs = \<lparr>fs_stat = (\<lambda>_. None), fs_open = (\<lambda>_. -1), fs_stack = 0\<rparr>, ne_root = [], ne_clk = (\<lambda>i. int i), ne_now = 0, ne_handlers = demo_env,
     ne_ws_run = (\<lambda>_ _ _ _ s. Inr s)\<rparr>"

definition demo_started :: "(unit, demo_db) net_server" where
  "demo_started =
     (let cfg = ServerConfig_new 0 0
      in the (net_init (NetServer_new False cfg [http_port cfg \<mapsto> HttpConn] demo_app) cfg 6 [Listening 3, Listening 4, Listening 5] True))"

definition demo_net :: "(unit, demo_db) net_server" where
  "demo_net = projr (handle_event demo_mysql demo_net_env demo_started (3, True, False))"

lemma demo_started_facts:
  "net_reachable demo_mysql demo_started" "3 \<in> set (m_listen_fds demo_started)" "m_users demo_started = []"
  "createConn (ns_factories demo_started) (case m_listenFdToPort demo_started 3 of None \<Rightarrow> 0 | Some p \<Rightarrow> p) = Some (Http http_conn_new)"
  "m_timer_manager demo_started = tm_init" "ns_alloc demo_started = 0"
proof -
  let ?cfg = "ServerConfig_new 0 0"
  obtain ns where ns: "net_init (NetServer_new False ?cfg [http_port ?cfg \<mapsto> HttpConn] demo_app) ?cfg 6 [Listening 3, Listening 4, Listening 5] True = Some ns"
    and f: "3 \<in> set (m_listen_fds ns)" "m_users ns = []"
      "createConn (ns_factories ns) (case m_listenFdToPort ns 3 of None \<Rightarrow> 0 | Some p \<Rightarrow> p) = Some (Http http_conn_new)"
      "m_timer_manager ns = tm_init" "ns_alloc ns = 0"
    by (simp add: net_init_def Let_def listen_ports_def initEpoll_def register_listener_def addFd_full_def NetServer_new_def createConn_def)
  then have eq: "demo_started = ns" by (simp add: demo_started_def Let_def)
  show "net_reachable demo_mysql demo_started" unfolding eq by (rule net_reachable.start [OF ns])
  show "3 \<in> set (m_listen_fds demo_started)" "m_users demo_started = []"
    "createConn (ns_factories demo_started) (case m_listenFdToPort demo_started 3 of None \<Rightarrow> 0 | Some p \<Rightarrow> p) = Some (Http http_conn_new)"
    "m_timer_manager demo_started = tm_init" "ns_alloc demo_started = 0"
    unfolding eq using f by simp_all
qed

lemma demo_net_facts:
  "net_reachable demo_mysql demo_net" "m_users demo_net = [(7, 0)]" "\<not> object_isClosed demo_net 0"
  "\<exists>h. ns_conns demo_net 0 = Some (Http h)" "deadline (m_timer_manager demo_net) 7 = Some (1000000 * ns_per_ms)"
proof -
  note f = demo_started_facts
  obtain n where n: "handle_event demo_mysql demo_net_env demo_started (3, True, False) = Inr n"
    and g: "m_users n = [(7, 0)]" "\<not> object_isClosed n 0" "\<exists>h. ns_conns n 0 = Some (Http h)"
      "deadline (m_timer_manager n) 7 = Some (1000000 * ns_per_ms)"
    using f(2-) by (simp add: handle_event_def handleNewConnection_def demo_net_env_def Let_def refreshTimer_def deadline_def
        object_isClosed_def http_init_def http_conn_new_def CloseFile_def)
  then have eq: "demo_net = n" by (simp add: demo_net_def)
  show "net_reachable demo_mysql demo_net" unfolding eq by (rule net_reachable.event [OF f(1) n])
  show "m_users demo_net = [(7, 0)]" "\<not> object_isClosed demo_net 0"
    "\<exists>h. ns_conns demo_net 0 = Some (Http h)" "deadline (m_timer_manager demo_net) 7 = Some (1000000 * ns_per_ms)"
    unfolding eq using g by simp_all
qed

lemma demo_net_signal_fd: "m_signal_fd demo_net = 6" "m_listen_fds demo_net = [5, 4, 3]"
proof -
  let ?cfg = "ServerConfig_new 0 0"
  have addFd: "m_signal_fd (addFd n fd ev) = m_signal_fd n" "m_listen_fds (addFd n fd ev) = m_listen_fds n"
    for n :: "(unit, demo_db) net_server" and fd ev by (simp_all add: addFd_def addFd_full_def)
  obtain ns where ns: "net_init (NetServer_new False ?cfg [http_port ?cfg \<mapsto> HttpConn] demo_app) ?cfg 6 [Listening 3, Listening 4, Listening 5] True = Some ns"
    and f: "m_signal_fd ns = 6" "m_listen_fds ns = [5, 4, 3]"
    by (simp add: net_init_def Let_def listen_ports_def initEpoll_def register_listener_def addFd_full_def NetServer_new_def)
  then have s: "demo_started = ns" by (simp add: demo_started_def Let_def)
  obtain n where n: "handle_event demo_mysql demo_net_env demo_started (3, True, False) = Inr n"
    "m_signal_fd n = m_signal_fd demo_started" "m_listen_fds n = m_listen_fds demo_started"
    using demo_started_facts(2-)
    by (simp add: handle_event_def handleNewConnection_def demo_net_env_def Let_def refreshTimer_def addFd)
  then have "demo_net = n" by (simp add: demo_net_def)
  with n f s show "m_signal_fd demo_net = 6" "m_listen_fds demo_net = [5, 4, 3]" by simp_all
qed

theorem server_invariant_witness:
  "m_users demo_net = [(7, 0)] \<and> ns_conns demo_net 0 \<noteq> None \<and>
   (\<exists>t. m_timer_map (m_timer_manager demo_net) 7 = Some t \<and> m_callback (snd t) = Some (Close_connection 7))"
  using server_invariant [OF demo_net_facts(1)] demo_net_facts(2,3) by auto

theorem idle_connections_close_witness:
  "\<exists>ns'. tick_timers (\<lambda>_. 1000000 * ns_per_ms) demo_net = Some ns' \<and> 7 \<notin> fst ` set (m_users ns') \<and> \<not> ns_open ns' 7"
  using idle_connections_close [OF demo_net_facts(1), of "\<lambda>_. 1000000 * ns_per_ms"] demo_net_facts(2-) by (auto simp: mono_def)

end
