(* ===== verification/Http_Buffers.thy ===== *)
theory Http_Buffers
  imports Net_Properties
begin

text \<open>
  The arrays of \<open>HttpConn\<close>. A connection is well formed when its two buffers have the size of the arrays of the class and
  its indices stay inside them; every operation keeps that, so no \<open>recv\<close>, \<open>memcpy\<close>, \<open>memmove\<close> or \<open>memset\<close> of the class writes
  outside an array, in any reachable state of the server.
\<close>

definition http_wf :: "http_conn \<Rightarrow> bool" where
  "http_wf c \<longleftrightarrow>
     length (m_read_buf c) = READ_BUFFER_SIZE \<and> m_read_idx c \<le> READ_BUFFER_SIZE \<and>
     length (m_write_buf c) = WRITE_BUFFER_SIZE \<and> m_write_idx c < WRITE_BUFFER_SIZE"

section \<open>One operation after the other\<close>

lemma length_buf_write [simp]: "i + length s \<le> length buf \<Longrightarrow> length (buf_write buf i s) = length buf"
  by (simp add: buf_write_def)

lemma buffer_sizes [simp]: "0 < READ_BUFFER_SIZE" "0 < WRITE_BUFFER_SIZE"
  by (simp_all add: READ_BUFFER_SIZE_def WRITE_BUFFER_SIZE_def)

lemma http_wf_new [simp]: "http_wf http_conn_new"
  by (simp add: http_wf_def http_conn_new_def)

lemma http_wf_CloseFile [simp]: "http_wf (CloseFile c) = http_wf c"
  by (simp add: http_wf_def CloseFile_def)

lemma http_wf_init [simp]: "http_wf (http_init c fd addr)"
  by (simp add: http_init_def Let_def http_wf_def CloseFile_def)

lemma http_wf_close [simp]: "http_wf (http_closeConn c) = http_wf c"
  by (simp add: http_wf_def http_closeConn_def Let_def)

lemma http_wf_recv: "http_wf c \<Longrightarrow> http_wf (recv_into c s)"
  by (auto simp: http_wf_def recv_into_def Let_def)

lemma http_wf_read_et: "http_wf c \<Longrightarrow> http_wf (snd (read_et c outs))"
  by (induction c outs rule: read_et.induct) (auto simp: Let_def http_wf_recv)

lemma http_wf_read: "http_wf c \<Longrightarrow> http_wf (snd (http_read mode c outs))"
  by (auto simp: http_read_def read_lt_def http_wf_recv http_wf_read_et split: list.splits recv_outcome.splits)

lemma http_wf_write: "http_wf c \<Longrightarrow> http_write c file outs = (st, wire, c') \<Longrightarrow> http_wf c'"
  by (auto simp: http_write_def write_file_def http_wf_def CloseFile_def Let_def
      split: prod.splits if_splits list.splits send_outcome.splits)

lemma removeLine_wf:
  "removeLine buf idx len = (buf', idx') \<Longrightarrow> idx \<le> length buf \<Longrightarrow> length buf' = length buf \<and> idx' \<le> idx"
  by (auto simp: removeLine_def Let_def split: if_splits)

lemma header_loop_wf:
  "header_loop buf idx b = Inr (fin, buf', idx', b') \<Longrightarrow> idx \<le> length buf \<Longrightarrow> length buf' = length buf \<and> idx' \<le> idx"
proof (induction buf idx b rule: header_loop.induct)
  case (1 buf idx b)
  show ?case
  proof (cases "strstr buf CRLF")
    case (Inr r)
    show ?thesis
    proof (cases r)
      case None
      with 1 Inr show ?thesis by (subst (asm) header_loop.simps) simp
    next
      case (Some i)
      obtain buf1 idx1 where rm: "removeLine buf idx (i + 2) = (buf1, idx1)" by fastforce
      note w = removeLine_wf [OF rm "1.prems"(2)]
      from "1.prems"(1) Inr Some rm obtain go b1 where p: "parseHeaders b (take i buf) = Inr (go, b1)"
        and r: "(if go then header_loop buf1 idx1 b1 else Inr (True, buf1, idx1, b1)) = Inr (fin, buf', idx', b')"
        by (subst (asm) header_loop.simps) (auto split: sum.splits)
      show ?thesis
      proof (cases go)
        case True
        from "1.IH" [OF Inr Some refl rm [symmetric] refl p refl True] True r w "1.prems"(2) show ?thesis by auto
      qed (use r w in auto)
    qed
  qed (use 1 in \<open>subst (asm) header_loop.simps, simp\<close>)
qed

lemma http_wf_body: "http_wf c \<Longrightarrow> parse_body_state J c = Inr (ok, c') \<Longrightarrow> http_wf c'"
  by (auto simp: parse_body_state_def http_wf_def Let_def elim!: rbind_eq_InrE split: if_splits prod.splits dest!: removeLine_wf)

lemma http_wf_headers:
  assumes "http_wf c" "parse_headers_state J c = Inr (ok, c')"
  shows "http_wf c'"
proof -
  obtain fin buf idx b where h: "header_loop (m_read_buf c) (m_read_idx c) (m_http_base c) = Inr (fin, buf, idx, b)"
    using assms(2) by (auto simp: parse_headers_state_def elim!: rbind_eq_InrE)
  have "http_wf (c\<lparr>m_read_buf := buf, m_read_idx := idx, m_http_base := b\<rparr>)"
    "http_wf (c\<lparr>m_read_buf := buf, m_read_idx := idx, m_http_base := b, m_parse_state := PARSE_BODY\<rparr>)"
    using header_loop_wf [OF h] assms(1) by (auto simp: http_wf_def)
  with assms(2) h show ?thesis by (auto simp: parse_headers_state_def Let_def intro: http_wf_body split: if_splits)
qed

lemma http_wf_line:
  assumes "http_wf c" "parse_line_state J c = Inr (ok, c')"
  shows "http_wf c'"
proof -
  obtain r where r: "strstr (m_read_buf c) CRLF = Inr r" using assms(2) by (auto simp: parse_line_state_def elim!: rbind_eq_InrE)
  show ?thesis
  proof (cases r)
    case None
    with assms r show ?thesis by (simp add: parse_line_state_def)
  next
    case (Some i)
    obtain p b where p: "parseRequestLine (m_http_base c) (take i (m_read_buf c)) = (p, b)" by fastforce
    obtain buf idx where rm: "removeLine (m_read_buf c) (m_read_idx c) (i + 2) = (buf, idx)" by fastforce
    have "http_wf (c\<lparr>m_http_base := b, m_read_buf := buf, m_read_idx := idx, m_parse_state := PARSE_HEADERS\<rparr>)"
      using removeLine_wf [OF rm] assms(1) by (auto simp: http_wf_def)
    with assms r Some p rm show ?thesis by (auto simp: parse_line_state_def intro: http_wf_headers split: if_splits)
  qed
qed

lemma http_wf_parse: "http_wf c \<Longrightarrow> parseHttpRequest J c = Inr (ok, c') \<Longrightarrow> http_wf c'"
  by (auto simp: parseHttpRequest_def split: parse_state.splits intro: http_wf_line http_wf_headers http_wf_body)

lemma http_wf_copy: "http_wf c \<Longrightarrow> copyResponseData c = (ok, c') \<Longrightarrow> http_wf c'"
  by (auto simp: copyResponseData_def http_wf_def Let_def split: if_splits)

lemma http_wf_fields [simp]:
  "http_wf (c\<lparr>m_http_base := b\<rparr>) = http_wf c" "http_wf (c\<lparr>m_http_response := r\<rparr>) = http_wf c"
  "http_wf (c\<lparr>m_file_path := p\<rparr>) = http_wf c" "http_wf (c\<lparr>m_file_fd := i\<rparr>) = http_wf c"
  "http_wf (c\<lparr>m_file_total_size := i\<rparr>) = http_wf c" "http_wf (c\<lparr>m_file_offset := i\<rparr>) = http_wf c"
  "http_wf (c\<lparr>m_file_response_size := i\<rparr>) = http_wf c"
  by (simp_all add: http_wf_def)

lemma http_wf_answer:
  "http_wf c \<Longrightarrow> answerRequest ssl J run c sv t1 t2 t3 = Inr (c', sv') \<Longrightarrow> http_wf c'"
  by (auto simp: answerRequest_def Let_def elim!: rbind_eq_InrE split: if_splits prod.splits)

lemma http_wf_generate: "http_wf c \<Longrightarrow> generateResponse fs root c = (ok, c') \<Longrightarrow> http_wf c'"
proof -
  assume w: "http_wf c" and g: "generateResponse fs root c = (ok, c')"
  then have "http_wf (c\<lparr>m_write_idx := 0\<rparr>)" by (simp add: http_wf_def)
  with g show ?thesis
    by (auto simp: generateResponse_def Let_def split: if_splits prod.splits option.splits dest!: http_wf_copy [rotated])
qed

lemma http_wf_handle:
  assumes "http_wf c" "handleRequest ssl J fs root run c sv t1 t2 t3 = Inr (ok, c', sv')"
  shows "http_wf c'"
proof -
  obtain c1 sv1 where a: "answerRequest ssl J run c sv t1 t2 t3 = Inr (c1, sv1)"
    using assms(2) by (auto simp: handleRequest_def elim!: rbind_eq_InrE)
  obtain k1 d1 where cp: "copyResponseData c1 = (k1, d1)" by fastforce
  obtain k2 d2 where g: "generateResponse fs root c1 = (k2, d2)" by fastforce
  from assms(2) a cp g have "c' = d1 \<or> c' = d2 \<or> c' = http_closeConn d2"
    by (auto simp: handleRequest_def split: if_splits)
  with http_wf_copy [OF http_wf_answer [OF assms(1) a] cp] http_wf_generate [OF http_wf_answer [OF assms(1) a] g]
  show ?thesis by auto
qed

lemma http_wf_process:
  assumes "http_wf c" "http_process ssl J fs root run c sv clk = Inr (ok, c', sv')"
  shows "http_wf c'"
proof (cases "fst (isLimit (sv_limiter sv) ''access_ip'' (m_address c) (clk 0))")
  case True
  with assms show ?thesis
    by (auto simp: http_process_def elim!: rbind_eq_InrE split: prod.splits dest!: http_wf_copy [rotated])
next
  case False
  then obtain rl where rl: "isLimit (sv_limiter sv) ''access_ip'' (m_address c) (clk 0) = (False, rl)"
    by (cases "isLimit (sv_limiter sv) ''access_ip'' (m_address c) (clk 0)") auto
  from assms(2) rl obtain p c1 where p: "parseHttpRequest J c = Inr (p, c1)"
    by (auto simp: http_process_def Let_def elim!: rbind_eq_InrE)
  note w = http_wf_parse [OF assms(1) p]
  show ?thesis
  proof (cases p)
    case True
    with assms(2) rl p obtain ok1 c2 sv2
      where h: "handleRequest ssl J fs root run c1 (sv\<lparr>sv_limiter := rl\<rparr>) (clk 1) (clk 2) (clk 3) = Inr (ok1, c2, sv2)"
        and "c' = c2"
      by (auto simp: http_process_def Let_def elim!: rbind_eq_InrE split: if_splits)
    with http_wf_handle [OF w h] show ?thesis by simp
  qed (use assms(2) rl p w in \<open>auto simp: http_process_def Let_def\<close>)
qed

section \<open>The connections of the server\<close>

fun conn_wf :: "base_conn \<Rightarrow> bool" where
  "conn_wf (Http c) = http_wf c"
| "conn_wf (Ws c) = True"

definition conns_wf :: "('wh, 'd) net_server \<Rightarrow> bool" where
  "conns_wf ns \<longleftrightarrow> (\<forall>i c. ns_conns ns i = Some c \<longrightarrow> conn_wf c)"

lemma conn_wf_ops:
  "conn_wf (conn_init c fd addr)" "conn_wf (fst (conn_close c m)) = conn_wf c"
  "conn_wf c \<Longrightarrow> conn_wf (snd (conn_read mode c outs))"
  "conn_wf c \<Longrightarrow> conn_write c content souts = (st, wire, c') \<Longrightarrow> conn_wf c'"
  by (cases c; auto simp: http_wf_read intro: http_wf_write split: prod.splits)+

lemma createConn_wf: "createConn fs port = Some c \<Longrightarrow> conn_wf c"
  by (cases "the (fs port)") (auto simp: createConn_def)

lemma conns_wf_fields [simp]:
  "conns_wf (ns\<lparr>ns_app := x\<rparr>) = conns_wf ns" "conns_wf (ns\<lparr>ns_ws := m\<rparr>) = conns_wf ns" "conns_wf (ns\<lparr>ns_open := f\<rparr>) = conns_wf ns"
  "conns_wf (ns\<lparr>ns_epoll := e\<rparr>) = conns_wf ns" "conns_wf (ns\<lparr>m_listenFdToPort := p\<rparr>) = conns_wf ns"
  "conns_wf (ns\<lparr>m_is_running := b\<rparr>) = conns_wf ns" "conns_wf (ns\<lparr>m_shutdown_called := b\<rparr>) = conns_wf ns"
  "conns_wf (ns\<lparr>m_users := u\<rparr>) = conns_wf ns" "conns_wf (ns\<lparr>m_thread_pool := tp\<rparr>) = conns_wf ns"
  "conns_wf (ns\<lparr>m_timer_manager := tm\<rparr>) = conns_wf ns" "conns_wf (ns\<lparr>ns_alloc := a\<rparr>) = conns_wf ns"
  "conns_wf (modFd ns fd ev) = conns_wf ns" "conns_wf (addFd ns fd ev) = conns_wf ns" "conns_wf (close_fd ns fd) = conns_wf ns"
  "conns_wf (epoll_removeFd ns fd) = conns_wf ns" "conns_wf (refreshTimer ns fd now) = conns_wf ns" "conns_wf (add_task ns t) = conns_wf ns"
  "conns_wf (ns\<lparr>ns_conns := C\<rparr>) = (\<forall>i c. C i = Some c \<longrightarrow> conn_wf c)"
  by (simp_all add: conns_wf_def modFd_def modFd_full_def addFd_def addFd_full_def close_fd_def epoll_removeFd_def refreshTimer_def
      add_task_def)

lemma conns_wf_get: "conns_wf ns \<Longrightarrow> ns_conns ns i = Some c \<Longrightarrow> conn_wf c"
  by (simp add: conns_wf_def)

lemma conns_wf_close_object: "conns_wf ns \<Longrightarrow> conns_wf (close_object ns i)"
proof (cases "ns_conns ns i")
  case (Some c)
  assume w: "conns_wf ns"
  have "conn_wf (fst (conn_close c (ns_ws ns)))" using conns_wf_get [OF w Some] conn_wf_ops(2) by simp
  with w show ?thesis unfolding conns_wf_def close_object_conns [OF Some] by simp
qed (simp add: close_object_def)

lemma conns_wf_release: "conns_wf ns \<Longrightarrow> conns_wf (release ns i)"
  unfolding conns_wf_def release_conns by simp

lemma conns_wf_closeConnection:
  assumes "conns_wf ns"
  shows "conns_wf (closeConnection ns fd)"
proof -
  have "conns_wf (release (close_object (epoll_removeFd (ns\<lparr>m_users := u\<rparr>) fd) i) i)" for u i
    using assms by (intro conns_wf_release conns_wf_close_object) simp
  with assms show ?thesis by (simp add: closeConnection_def Let_def split: option.splits)
qed

lemma conns_wf_process:
  assumes "conns_wf ns" "process_object env ns i = Inr (ok, ns')"
  shows "conns_wf ns'"
proof (cases "ns_conns ns i")
  case (Some bc)
  show ?thesis
  proof (cases bc)
    case (Http c)
    with Some assms(2) obtain ok1 c' app where
      p: "http_process (he_ssl (ne_handlers env)) (he_json (ne_handlers env)) (ne_fs env) (ne_root env)
                   (run_handler (ne_handlers env)) c (ns_app ns) (ne_clk env) = Inr (ok1, c', app)"
      by (auto simp: process_object_def elim!: rbind_eq_InrE)
    have "http_wf c'" using http_wf_process [OF _ p] conns_wf_get [OF assms(1) Some] Http by simp
    then have "conns_wf (ns\<lparr>ns_conns := (ns_conns ns)(i \<mapsto> Http c')\<rparr>)" using assms(1) by (simp add: conns_wf_def)
    with Some Http p assms(2) show ?thesis by (auto simp: process_object_def Let_def)
  next
    case (Ws c)
    with Some assms show ?thesis by (auto simp: process_object_def Let_def conns_wf_get elim!: rbind_eq_InrE split: if_splits)
  qed
qed (use assms in \<open>simp add: process_object_def\<close>)

lemma conns_wf_after_read:
  assumes "conns_wf ns" "after_read env ns i fd = Inr ns'"
  shows "conns_wf ns'"
proof -
  obtain ok ns1 where p: "process_object env ns i = Inr (ok, ns1)"
    using assms(2) by (auto simp: after_read_def elim!: rbind_eq_InrE)
  from conns_wf_process [OF assms(1) p] assms(2) p show ?thesis by (auto simp: after_read_def Let_def split: if_splits)
qed

lemma conns_wf_upd: "conns_wf ns \<Longrightarrow> conn_wf c \<Longrightarrow> conns_wf (ns\<lparr>ns_conns := (ns_conns ns)(i \<mapsto> c)\<rparr>)"
  by (simp add: conns_wf_def)

lemma conns_wf_read:
  assumes "conns_wf ns" "read_object env ns i = Inr (n, ns')"
  shows "conns_wf ns'"
proof -
  obtain c where c: "ns_conns ns i = Some c" using assms(2) by (auto simp: read_object_def split: option.splits)
  obtain k c' where r: "conn_read (ns_trig_mode ns) c (ne_recv env) = (k, c')" by fastforce
  have "conn_wf c'" using conn_wf_ops(3) [OF conns_wf_get [OF assms(1) c], of "ns_trig_mode ns" "ne_recv env"] r by simp
  then have "conns_wf (ns\<lparr>ns_conns := (ns_conns ns)(i \<mapsto> c')\<rparr>)" by (rule conns_wf_upd [OF assms(1)])
  with assms(2) c r show ?thesis by (auto simp: read_object_def)
qed

lemma conns_wf_write:
  assumes "conns_wf ns" "write_task env ns i fd = Inr (wire, ns')"
  shows "conns_wf ns'"
proof -
  obtain c where c: "ns_conns ns i = Some c" using assms(2) by (auto simp: write_task_def split: option.splits)
  obtain st w1 c1 where w: "conn_write c (ne_file env) (ne_send1 env) = (st, w1, c1)" by (metis prod_cases3)
  obtain st2 w2 c2 where w2: "conn_write c1 (ne_file env) (ne_send2 env) = (st2, w2, c2)" by (metis prod_cases3)
  have c1: "conn_wf c1" using conn_wf_ops(4) [OF conns_wf_get [OF assms(1) c] w] .
  have c2: "conn_wf c2" using conn_wf_ops(4) [OF c1 w2] .
  note u = conns_wf_upd [OF assms(1) c1, of i] conns_wf_upd [OF assms(1) c2, of i]
    conns_wf_upd [OF assms(1) conn_wf_ops(1), of i c1 fd "conn_addr c1"]
  from assms(2) c w w2 u u [THEN conns_wf_closeConnection] show ?thesis
    by (auto simp: write_task_def Let_def simp del: conns_wf_fields(18) split: if_splits)
qed

lemma conns_wf_task:
  assumes "conns_wf ns" "run_task env ns t = Inr ns'"
  shows "conns_wf ns'"
proof (cases t)
  case (Task_read i fd)
  with assms(2) obtain n ns1 where r: "read_object env ns i = Inr (n, ns1)" by (auto elim!: rbind_eq_InrE)
  note w = conns_wf_read [OF assms(1) r]
  from assms(2) Task_read r show ?thesis
    using conns_wf_closeConnection [OF w] conns_wf_after_read [OF w] by (auto split: if_splits)
next
  case (Task_process i fd)
  with assms conns_wf_after_read show ?thesis by fastforce
next
  case (Task_write i fd)
  with assms(2) obtain wire where "write_task env ns i fd = Inr (wire, ns')" by (cases "write_task env ns i fd") auto
  from conns_wf_write [OF assms(1) this] show ?thesis .
qed

lemma conns_wf_foldl: "(\<And>ns x. conns_wf ns \<Longrightarrow> conns_wf (f ns x)) \<Longrightarrow> conns_wf ns \<Longrightarrow> conns_wf (foldl f ns xs)"
  by (induction xs arbitrary: ns) auto

lemma conns_wf_shutdown: "conns_wf ns \<Longrightarrow> conns_wf (net_shutdown my ns)"
proof -
  assume w: "conns_wf ns"
  let ?a = "foldl close_object (foldl close_fd ns (filter (\<lambda>fd. 0 \<le> fd) (m_listen_fds ns)))"
  have "conns_wf (foldl release ((?a ids)\<lparr>m_users := []\<rparr>) ids)" for ids
    using w by (intro conns_wf_foldl) (auto intro!: conns_wf_release conns_wf_foldl conns_wf_close_object)
  then show ?thesis by (simp add: net_shutdown_def Let_def)
qed

lemma conns_wf_signal: "conns_wf ns \<Longrightarrow> conns_wf (handleSignalEvent my ns sigs)"
  unfolding handleSignalEvent_def by (rule conns_wf_foldl) (auto intro: conns_wf_shutdown)

lemma conns_wf_tick:
  assumes "server_ok ns" "mono clk" "tick_timers clk ns = Some ns'" "conns_wf ns"
  shows "conns_wf ns'"
proof (rule tick_timers_eq [OF assms(1,2)])
  fix m' fired
  assume r: "tick_timers clk ns = Some ((foldl closeConnection ns (map (m_fd \<circ> snd) fired))\<lparr>m_timer_manager := m'\<rparr>)"
  have "conns_wf (foldl closeConnection ns (map (m_fd \<circ> snd) fired))"
    using assms(4) by (intro conns_wf_foldl conns_wf_closeConnection)
  with r assms(3) show ?thesis by simp
qed

lemma conns_wf_readEvent:
  assumes "conns_wf ns" "handleReadEvent env ns fd = Inr ns'"
  shows "conns_wf ns'"
proof (cases "getConn_of ns fd")
  case (Some i)
  show ?thesis
  proof (cases "actor_model (m_config ns) = 0")
    case True
    with Some assms(2) obtain n ns1 where r: "read_object env ns i = Inr (n, ns1)"
      by (auto simp: handleReadEvent_def elim!: rbind_eq_InrE)
    note w = conns_wf_read [OF assms(1) r]
    from True Some assms(2) r w conns_wf_closeConnection [OF w] show ?thesis by (auto simp: handleReadEvent_def split: if_splits)
  qed (use Some assms in \<open>auto simp: handleReadEvent_def\<close>)
qed (use assms in \<open>simp add: handleReadEvent_def\<close>)

lemma conns_wf_newConnection:
  assumes "conns_wf ns" "handleNewConnection ns lfd acc now = Inr ns'"
  shows "conns_wf ns'"
proof (cases "fst acc < 0")
  case True
  with assms show ?thesis by (auto simp: handleNewConnection_def split: prod.splits)
next
  case False
  obtain fd addr where acc: "acc = (fd, addr)" by (cases acc)
  let ?n = "addFd (ns\<lparr>ns_open := (ns_open ns)(fd := True)\<rparr>) fd EPOLLIN"
  define port where "port = (case m_listenFdToPort ns lfd of None \<Rightarrow> 0 | Some p \<Rightarrow> p)"
  obtain c where c: "createConn (ns_factories ns) port = Some c"
    using assms(2) False acc by (auto simp: handleNewConnection_def Let_def port_def split: option.splits)
  define n1 where "n1 = ?n\<lparr>m_listenFdToPort := (m_listenFdToPort ns)(lfd \<mapsto> port), ns_conns := (ns_conns ns)(ns_alloc ns \<mapsto> c),
      ns_alloc := Suc (ns_alloc ns), m_users := AList.update fd (ns_alloc ns) (m_users ns)\<rparr>"
  have n1: "conns_wf n1" using assms(1) createConn_wf [OF c] by (simp add: n1_def conns_wf_def)
  define n2 where "n2 = (case map_of (m_users ns) fd of None \<Rightarrow> n1 | Some j \<Rightarrow> release n1 j)"
  have n2: "conns_wf n2" using n1 conns_wf_release [OF n1] by (simp add: n2_def split: option.splits)
  have "ns' = refreshTimer (n2\<lparr>ns_conns := (ns_conns n2)(ns_alloc ns \<mapsto> conn_init c fd addr)\<rparr>) fd now"
    using assms(2) False acc c by (cases "map_of (m_users ns) fd") (simp_all add: handleNewConnection_def Let_def port_def n1_def n2_def)
  with conns_wf_upd [OF n2 conn_wf_ops(1)] show ?thesis by simp
qed

lemma conns_wf_event: "conns_wf ns \<Longrightarrow> handle_event my env ns ev = Inr ns' \<Longrightarrow> conns_wf ns'"
  by (cases ev) (auto simp: handle_event_def handleWriteEvent_def split: if_splits option.splits
      intro: conns_wf_newConnection conns_wf_signal conns_wf_readEvent)

lemma conns_wf_worker:
  assumes "conns_wf ns" "worker_round env ns w = Some (Inr ns')"
  shows "conns_wf ns'"
proof (cases "m_threads (m_thread_pool ns) ! w")
  case (Executing t)
  with assms(2) obtain n where r: "run_task env ns t = Inr n" by (auto simp: worker_round_def split: if_splits elim!: rbind_eq_InrE)
  from conns_wf_task [OF assms(1) r] assms(2) Executing r show ?thesis
    by (auto simp: worker_round_def intro!: conns_wf_release split: if_splits option.splits)
qed (use assms in \<open>auto simp: worker_round_def split: if_splits\<close>)

lemma conns_wf_send: "conns_wf ns \<Longrightarrow> conns_wf (snd (net_sendToSession ns sid msg))"
  by (auto simp: net_sendToSession_def conns_wf_def split: option.splits base_conn.splits)

lemma conns_wf_empty: "ns_conns ns = Map.empty \<Longrightarrow> conns_wf ns"
  by (simp add: conns_wf_def)

lemma initSocket_conns: "initSocket ns l = Some ns' \<Longrightarrow> ns_conns ns' = ns_conns ns"
  by (induction ns l rule: initSocket.induct) (auto simp: register_listener_def close_fd_def)

lemma foldl_addFd_conns: "ns_conns (foldl (\<lambda>ns fd. addFd_full ns fd ev os et) ns fds) = ns_conns ns"
  by (induction fds arbitrary: ns) (auto simp: addFd_full_def)

lemma initEpoll_conns: "initEpoll ns ok = Some ns' \<Longrightarrow> ns_conns ns' = ns_conns ns"
  unfolding initEpoll_def Let_def addFd_full_def [of "foldl f a b" for f a b]
  by (auto simp: foldl_addFd_conns split: if_splits)

lemma net_init_conns:
  assumes "net_init ns config sfd outs ok = Some ns'"
  shows "ns_conns ns' = ns_conns ns"
proof -
  let ?n = "ns\<lparr>m_config := config, m_thread_pool := ThreadPool_new (nat (thread_num config)), m_signal_fd := sfd,
    ns_open := (ns_open ns)(sfd := True)\<rparr>"
  obtain n1 where n1: "initSocket ?n (zip (listen_ports config) outs) = Some n1"
    using assms by (auto simp: net_init_def Let_def split: option.splits)
  obtain n2 where n2: "initEpoll n1 ok = Some n2" using assms n1 by (auto simp: net_init_def Let_def)
  from assms n1 n2 initSocket_conns [OF n1] initEpoll_conns [OF n2] show ?thesis by (auto simp: net_init_def Let_def)
qed

lemma reachable_wf: "net_reachable my ns \<Longrightarrow> conns_wf ns"
proof (induction rule: net_reachable.induct)
  case (start any_called c0 factories app config sfd outs ok ns)
  from net_init_conns [OF this] show ?case by (intro conns_wf_empty) (simp add: NetServer_new_def)
next
  case (timers ns clk ns')
  from conns_wf_tick [OF reachable_ok [OF timers(1)] timers(2,3)] timers.IH show ?case by simp
qed (auto intro: conns_wf_event conns_wf_worker conns_wf_send)

text \<open>C9. The arrays of \<open>HttpConn\<close> keep their bounds: in every state the server can reach, every HTTP connection has a read and a
  write buffer of the declared sizes, has read no more than the read buffer holds, and has less than a write buffer to send, so
  that the free part of the one that \<open>recv\<close> is given and the filled part of the other that \<open>send\<close> is given lie inside the arrays.\<close>

theorem buffers_in_bounds:
  assumes "net_reachable my ns" "ns_conns ns i = Some (Http c)"
  shows "length (m_read_buf c) = READ_BUFFER_SIZE \<and> m_read_idx c \<le> READ_BUFFER_SIZE \<and>
    length (m_write_buf c) = WRITE_BUFFER_SIZE \<and> m_write_idx c < WRITE_BUFFER_SIZE \<and>
    length (take (m_write_idx c) (m_write_buf c)) = m_write_idx c"
  using conns_wf_get [OF reachable_wf [OF assms(1)] assms(2)] by (simp add: http_wf_def)

theorem buffers_in_bounds_witness:
  "\<exists>c. ns_conns demo_net 0 = Some (Http c) \<and> length (m_read_buf c) = READ_BUFFER_SIZE"
proof -
  obtain c where c: "ns_conns demo_net 0 = Some (Http c)" using demo_net_facts(4) by blast
  from buffers_in_bounds [OF demo_net_facts(1) c] c show ?thesis by auto
qed

end
