(* ===== verification/Net_Policy.thy ===== *)
theory Net_Policy
  imports Net_Properties
begin

text \<open>
  What a run of the server keeps: the listening descriptors with their ports and factories, the interceptor and the routes
  stay as they were at its start, and the records of the rate limiter change only by the calls at the head of
  \<open>HttpConn::process\<close> and in the handler of \<open>/login\<close>. A run carries the list of these calls; the locale \<open>limiter_account\<close> has
  what follows for a run from what one \<open>process\<close> does.
\<close>

section \<open>What stays\<close>

definition policy :: "('wh, 'd) net_server \<Rightarrow> int list \<times> (int \<rightharpoonup> int) \<times> conn_factories \<times> interceptor \<times> (http_handler, 'wh) router" where
  "policy ns = (m_listen_fds ns, m_listenFdToPort ns, ns_factories ns, sv_interceptor (ns_app ns), sv_router (ns_app ns))"

definition limiter :: "('wh, 'd) net_server \<Rightarrow> rate_limiter" where
  "limiter ns = sv_limiter (ns_app ns)"

definition kept :: "('wh, 'd) net_server \<Rightarrow> ('wh, 'd) net_server \<Rightarrow> bool" where
  "kept ns ns' \<longleftrightarrow> policy ns' = policy ns \<and> limiter ns' = limiter ns"

lemma kept_refl [simp]: "kept ns ns"
  by (simp add: kept_def)

lemma kept_trans: "kept a b \<Longrightarrow> kept b c \<Longrightarrow> kept a c"
  by (simp add: kept_def)

lemma kept_fields [simp]:
  "kept ns (n\<lparr>m_users := u\<rparr>) = kept ns n" "kept ns (n\<lparr>ns_conns := C\<rparr>) = kept ns n" "kept ns (n\<lparr>ns_epoll := e\<rparr>) = kept ns n"
  "kept ns (n\<lparr>ns_open := f\<rparr>) = kept ns n" "kept ns (n\<lparr>m_timer_manager := t\<rparr>) = kept ns n" "kept ns (n\<lparr>ns_ws := m\<rparr>) = kept ns n"
  "kept ns (n\<lparr>m_thread_pool := p\<rparr>) = kept ns n" "kept ns (n\<lparr>ns_alloc := a\<rparr>) = kept ns n" "kept ns (n\<lparr>m_is_running := b\<rparr>) = kept ns n"
  "kept ns (n\<lparr>m_shutdown_called := b\<rparr>) = kept ns n" "kept ns (n\<lparr>ns_app := (ns_app n)\<lparr>sv_ext := x\<rparr>\<rparr>) = kept ns n"
  by (simp_all add: kept_def policy_def limiter_def)

lemma kept_ops [simp]:
  "kept ns (close_fd n fd) = kept ns n" "kept ns (epoll_removeFd n fd) = kept ns n" "kept ns (refreshTimer n fd now) = kept ns n"
  "kept ns (modFd n fd ev) = kept ns n" "kept ns (addFd n fd ev) = kept ns n" "kept ns (add_task n t) = kept ns n"
  by (simp_all add: close_fd_def epoll_removeFd_def refreshTimer_def modFd_def modFd_full_def addFd_def addFd_full_def add_task_def)

lemma kept_close_object [simp]: "kept ns (close_object n i) = kept ns n"
  by (auto simp: close_object_def Let_def split: option.splits prod.splits)

lemma kept_release [simp]: "kept ns (release n i) = kept ns n"
  by (simp add: release_def Let_def)

lemma kept_closeConnection [simp]: "kept ns (closeConnection n fd) = kept ns n"
  by (auto simp: closeConnection_def Let_def split: option.splits)

lemma kept_foldl: "(\<And>n x. kept ns n \<Longrightarrow> kept ns (f n x)) \<Longrightarrow> kept ns n \<Longrightarrow> kept ns (foldl f n xs)"
  by (induction xs arbitrary: n) auto

lemma kept_shutdown: "kept ns n \<Longrightarrow> kept ns (net_shutdown my n)"
  unfolding net_shutdown_def Let_def by (simp add: kept_foldl)

lemma kept_signal: "kept ns (handleSignalEvent my ns sigs)"
  unfolding handleSignalEvent_def by (rule kept_foldl) (simp_all add: kept_shutdown)

lemma kept_tick:
  assumes "server_ok ns" "mono clk" "tick_timers clk ns = Some ns'"
  shows "kept ns ns'"
proof (rule tick_timers_eq [OF assms(1,2)])
  fix m' fired
  assume r: "tick_timers clk ns = Some ((foldl closeConnection ns (map (m_fd \<circ> snd) fired))\<lparr>m_timer_manager := m'\<rparr>)"
  have "kept ns (foldl closeConnection ns (map (m_fd \<circ> snd) fired))" by (rule kept_foldl) simp_all
  with r assms(3) show ?thesis by simp
qed

lemma kept_read: "read_object env ns i = Inr (n, ns') \<Longrightarrow> kept ns ns'"
  by (auto simp: read_object_def split: option.splits prod.splits)

lemma kept_write: "write_task env ns i fd = Inr (wire, ns') \<Longrightarrow> kept ns ns'"
  by (auto simp: write_task_def Let_def split: option.splits prod.splits if_splits)

lemma kept_readEvent: "handleReadEvent env ns fd = Inr ns' \<Longrightarrow> kept ns ns'"
  by (auto simp: handleReadEvent_def elim!: rbind_eq_InrE dest!: kept_read split: option.splits if_splits)

lemma kept_send: "kept ns (snd (net_sendToSession ns sid msg))"
  by (auto simp: net_sendToSession_def split: option.splits base_conn.splits prod.splits)

lemma kept_accept:
  assumes "handleNewConnection ns lfd acc now = Inr ns'" "m_listenFdToPort ns lfd = Some p"
  shows "kept ns ns'"
proof -
  have "(m_listenFdToPort ns)(lfd \<mapsto> p) = m_listenFdToPort ns" using assms(2) by auto
  then have "kept ns (n\<lparr>m_listenFdToPort := (m_listenFdToPort ns)(lfd \<mapsto> p)\<rparr>) = kept ns n" if "kept ns n" for n
    using that by (simp add: kept_def policy_def limiter_def)
  with assms show ?thesis
    by (auto simp: handleNewConnection_def Let_def split: prod.splits if_splits option.splits)
qed

section \<open>What a request does to the limiter\<close>

text \<open>The records of one type of the limiter, with the interceptor and the routes.\<close>

definition gate_kept :: "string \<Rightarrow> (http_handler, 'wh, 'x) server \<Rightarrow> (http_handler, 'wh, 'x) server \<Rightarrow> bool" where
  "gate_kept ty sv sv' \<longleftrightarrow> sv_interceptor sv' = sv_interceptor sv \<and> sv_router sv' = sv_router sv \<and>
     (\<forall>ip. rl_view (sv_limiter sv') (ty, ip) = rl_view (sv_limiter sv) (ty, ip) \<and>
           (\<forall>r. rl_rule (sv_limiter sv) (ty, ip) = Some r \<longrightarrow> rl_rule (sv_limiter sv') (ty, ip) = Some r))"

lemma gate_kept_refl [simp]: "gate_kept ty sv sv"
  by (simp add: gate_kept_def)

lemma gate_kept_trans: "gate_kept ty a b \<Longrightarrow> gate_kept ty b c \<Longrightarrow> gate_kept ty a c"
  by (simp add: gate_kept_def)

lemma gate_kept_fields [simp]:
  "gate_kept ty sv (s\<lparr>sv_sessions := sm\<rparr>) = gate_kept ty sv s" "gate_kept ty sv (s\<lparr>sv_tokens := tm\<rparr>) = gate_kept ty sv s"
  "gate_kept ty sv (s\<lparr>sv_ext := x\<rparr>) = gate_kept ty sv s"
  by (simp_all add: gate_kept_def)

lemma gate_kept_other:
  assumes "isLimit (sv_limiter sv) ty' k t = (b, rl)" "ty \<noteq> ty'"
  shows "gate_kept ty sv (sv\<lparr>sv_limiter := rl\<rparr>)"
proof -
  have c: "snd (rl_call (sv_limiter sv) (ty', k) t) = rl" using assms(1) by (simp add: rl_call_def)
  show ?thesis
    using rl.other [of "(ty, x)" "(ty', k)" "sv_limiter sv" t for x] rl.rule_kept [of "sv_limiter sv" _ _ "(ty', k)" t] assms(2)
    by (simp add: gate_kept_def c)
qed

text \<open>The handler of \<open>/login\<close> uses the type \<open>login_ip\<close>, the others leave the limiter alone.\<close>

lemma login_limiter:
  assumes "run_handler env H_login req res sv = Inr (res', sv')"
    and "isLimit (sv_limiter sv) ''login_ip'' (m_ip req) (he_clk env 0) = (b, rl)"
  shows "\<exists>sm tm x. sv' = sv\<lparr>sv_limiter := rl, sv_sessions := sm, sv_tokens := tm, sv_ext := x\<rparr>"
  using assms by (cases sv) (auto simp: run_handler_def login_def Let_def elim!: rbind_eq_InrE split: if_splits prod.splits)

lemma gate_kept_handler:
  assumes "run_handler env h req res sv = Inr (res', sv')" "h \<noteq> H_login \<or> ty \<noteq> ''login_ip''"
  shows "gate_kept ty sv sv'"
proof (cases "h = H_login")
  case True
  obtain b rl where l: "isLimit (sv_limiter sv) ''login_ip'' (m_ip req) (he_clk env 0) = (b, rl)" by fastforce
  have "gate_kept ty sv (sv\<lparr>sv_limiter := rl\<rparr>)" using gate_kept_other [OF l] True assms(2) by simp
  with login_limiter [OF assms(1) [unfolded True] l] show ?thesis by (auto simp: gate_kept_def)
qed (use assms in \<open>cases h, auto simp: run_handler_def registerUser_def tx_handle_def Let_def elim!: rbind_eq_InrE split: prod.splits if_splits\<close>)

section \<open>The handler of a request\<close>

text \<open>The handler that a request which got through the checks is given to, and the attributes it has then.\<close>

definition answered_by ::
  "openssl \<Rightarrow> http_conn \<Rightarrow> (http_handler, 'wh, 'x) server \<Rightarrow> time \<Rightarrow> time \<Rightarrow> time \<Rightarrow> (http_handler \<times> http_base) option" where
  "answered_by ssl c sv t1 t2 t3 =
     (let url = m_url (m_http_base c)
      in if shouldIntercept (sv_interceptor sv) ''uri_blacklist'' url then None
         else (let (b, sm, tm) = parseAuthContext ssl (m_http_base c) (sv_sessions sv) (sv_tokens sv) t1 t2 t3
               in if \<not> m_authenticated b \<and> shouldIntercept (sv_interceptor sv) ''login_unrequired'' url then None
                  else map_option (\<lambda>h. (h, b)) (find_route (sv_router sv) (m_method b) url)))"

lemma answer_cases:
  assumes "answerRequest ssl J run c sv t1 t2 t3 = Inr (c', sv')"
  shows "case answered_by ssl c sv t1 t2 t3 of
      None \<Rightarrow> \<exists>sm tm. sv' = sv\<lparr>sv_sessions := sm, sv_tokens := tm\<rparr>
    | Some (h, b) \<Rightarrow> \<exists>sm tm res'. run h b (m_http_response c) (sv\<lparr>sv_sessions := sm, sv_tokens := tm\<rparr>) = Inr (res', sv')"
proof (cases "shouldIntercept (sv_interceptor sv) ''uri_blacklist'' (m_url (m_http_base c))")
  case True
  with assms have "sv' = sv" by (auto simp: answerRequest_def Let_def elim!: rbind_eq_InrE)
  with True show ?thesis by (cases sv) (auto simp: answered_by_def Let_def)
next
  case False
  obtain b sm tm where a: "parseAuthContext ssl (m_http_base c) (sv_sessions sv) (sv_tokens sv) t1 t2 t3 = (b, sm, tm)"
    by (metis prod_cases3)
  from assms False a show ?thesis
    by (auto simp: answerRequest_def answered_by_def dispatch_def Let_def elim!: rbind_eq_InrE split: if_splits option.splits)
qed

lemma handle_answer:
  assumes "handleRequest ssl J fs root run c sv t1 t2 t3 = Inr (ok, c', sv')"
  shows "\<exists>c1. answerRequest ssl J run c sv t1 t2 t3 = Inr (c1, sv')"
  using assms by (auto simp: handleRequest_def Let_def elim!: rbind_eq_InrE split: if_splits prod.splits)

text \<open>The handler \<open>process\<close> runs, on the server whose limiter it has asked.\<close>

definition processed_by ::
  "openssl \<Rightarrow> json_lib \<Rightarrow> http_conn \<Rightarrow> (http_handler, 'wh, 'x) server \<Rightarrow> (nat \<Rightarrow> time) \<Rightarrow> (http_handler \<times> http_base) option" where
  "processed_by ssl J c sv clk =
     (let (limited, rl) = isLimit (sv_limiter sv) ''access_ip'' (m_address c) (clk 0)
      in if limited then None
         else case parseHttpRequest J c of
                Inr (True, c) \<Rightarrow> answered_by ssl c (sv\<lparr>sv_limiter := rl\<rparr>) (clk 1) (clk 2) (clk 3)
              | _ \<Rightarrow> None)"

lemma process_cases:
  assumes "http_process ssl J fs root run c sv clk = Inr (ok, c', sv')"
    and "isLimit (sv_limiter sv) ''access_ip'' (m_address c) (clk 0) = (lim, rl)"
  shows "case processed_by ssl J c sv clk of
      None \<Rightarrow> \<exists>sm tm. sv' = sv\<lparr>sv_limiter := rl, sv_sessions := sm, sv_tokens := tm\<rparr>
    | Some (h, b) \<Rightarrow> \<exists>sm tm res res' sm' sv1. run h b res (sv\<lparr>sv_limiter := rl, sv_sessions := sm, sv_tokens := tm\<rparr>) = Inr (res', sv1) \<and>
        sv' = sv1\<lparr>sv_sessions := sm'\<rparr>"
proof -
  have id: "\<exists>sm tm. sv\<lparr>sv_limiter := rl\<rparr> = sv\<lparr>sv_limiter := rl, sv_sessions := sm, sv_tokens := tm\<rparr>" by (cases sv) auto
  show ?thesis
  proof (cases lim)
    case True
    with assms have "sv' = sv\<lparr>sv_limiter := rl\<rparr>" by (auto simp: http_process_def elim!: rbind_eq_InrE split: prod.splits)
    moreover have "processed_by ssl J c sv clk = None" using True assms(2) by (simp add: processed_by_def)
    ultimately show ?thesis using id by simp
  next
    case False
    with assms obtain p c1 where p: "parseHttpRequest J c = Inr (p, c1)" by (auto simp: http_process_def Let_def elim!: rbind_eq_InrE)
    show ?thesis
    proof (cases p)
      case True
      with False assms p obtain ok2 c2 sv2
        where h: "handleRequest ssl J fs root run c1 (sv\<lparr>sv_limiter := rl\<rparr>) (clk 1) (clk 2) (clk 3) = Inr (ok2, c2, sv2)"
          and r: "sv' = sv2 \<or> sv' = sv2\<lparr>sv_sessions := refreshSession (m_http_base c2) (sv_sessions sv2) (clk 4) (clk 5)\<rparr>"
        by (auto simp: http_process_def Let_def elim!: rbind_eq_InrE split: if_splits)
      obtain c3 where a: "answerRequest ssl J run c1 (sv\<lparr>sv_limiter := rl\<rparr>) (clk 1) (clk 2) (clk 3) = Inr (c3, sv2)"
        using handle_answer [OF h] by blast
      have "sv2 = sv2\<lparr>sv_sessions := sv_sessions sv2\<rparr>" by simp
      with r have r': "\<exists>sm'. sv' = sv2\<lparr>sv_sessions := sm'\<rparr>" by metis
      have pb: "processed_by ssl J c sv clk = answered_by ssl c1 (sv\<lparr>sv_limiter := rl\<rparr>) (clk 1) (clk 2) (clk 3)"
        using assms(2) False p True by (simp add: processed_by_def)
      show ?thesis
      proof (cases "answered_by ssl c1 (sv\<lparr>sv_limiter := rl\<rparr>) (clk 1) (clk 2) (clk 3)")
        case None
        with answer_cases [OF a] r' obtain sm tm sm' where "sv' = sv\<lparr>sv_limiter := rl, sv_sessions := sm, sv_tokens := tm\<rparr>\<lparr>sv_sessions := sm'\<rparr>"
          by auto
        then have "sv' = sv\<lparr>sv_limiter := rl, sv_sessions := sm', sv_tokens := tm\<rparr>" by (cases sv) simp
        with None pb show ?thesis by (simp del: server.update_convs) blast
      next
        case (Some hb)
        with answer_cases [OF a] r' pb show ?thesis by (cases hb) (simp, blast)
      qed
    next
      assume "\<not> p"
      with False assms p have "sv' = sv\<lparr>sv_limiter := rl\<rparr>" "processed_by ssl J c sv clk = None"
        by (simp_all add: http_process_def processed_by_def)
      with id show ?thesis by simp
    qed
  qed
qed

section \<open>Runs\<close>

text \<open>What is observed of \<open>process\<close> on object \<open>i\<close>: calls of the limiter, each with address, time and answer.\<close>

type_synonym limiter_log = "(string \<times> time \<times> bool) list"
type_synonym ('wh, 'd) observation = "('wh, 'd) net_env \<Rightarrow> ('wh, 'd) net_server \<Rightarrow> nat \<Rightarrow> limiter_log"

text \<open>The call at the head of \<open>process\<close>, and the one in the handler of \<open>/login\<close>.\<close>

definition access_call :: "('wh, 'd) observation" where
  "access_call env ns i =
     (case ns_conns ns i of
        Some (Http c) \<Rightarrow>
          [(m_address c, ne_clk env 0, fst (isLimit (limiter ns) ''access_ip'' (m_address c) (ne_clk env 0)))]
      | _ \<Rightarrow> [])"

definition login_call :: "('wh, 'd) observation" where
  "login_call env ns i =
     (case ns_conns ns i of
        Some (Http c) \<Rightarrow>
          (let rl = snd (isLimit (limiter ns) ''access_ip'' (m_address c) (ne_clk env 0)); now = he_clk (ne_handlers env) 0
           in case processed_by (he_ssl (ne_handlers env)) (he_json (ne_handlers env)) c (ns_app ns) (ne_clk env) of
                Some (h, b) \<Rightarrow> if h = H_login then [(m_ip b, now, fst (isLimit rl ''login_ip'' (m_ip b) now))] else []
              | None \<Rightarrow> [])
      | _ \<Rightarrow> [])"

definition task_calls :: "('wh, 'd) observation \<Rightarrow> ('wh, 'd) net_env \<Rightarrow> ('wh, 'd) net_server \<Rightarrow> net_task \<Rightarrow> limiter_log" where
  "task_calls obs env ns t =
     (case t of
        Task_read i fd \<Rightarrow> (case read_object env ns i of Inr (True, ns) \<Rightarrow> obs env ns i | _ \<Rightarrow> [])
      | Task_process i fd \<Rightarrow> obs env ns i
      | Task_write i fd \<Rightarrow> [])"

definition worker_calls :: "('wh, 'd) observation \<Rightarrow> ('wh, 'd) net_env \<Rightarrow> ('wh, 'd) net_server \<Rightarrow> nat \<Rightarrow> limiter_log" where
  "worker_calls obs env ns w =
     (case m_threads (m_thread_pool ns) ! w of Executing t \<Rightarrow> task_calls obs env ns t | _ \<Rightarrow> [])"

text \<open>A run from \<open>ns0\<close>, with what was observed.\<close>

inductive net_run :: "('wh, 'd) observation \<Rightarrow> 'd mysql \<Rightarrow> ('wh, 'd) net_server \<Rightarrow> limiter_log \<Rightarrow> ('wh, 'd) net_server \<Rightarrow> bool"
  for obs my ns0 where
  start: "net_run obs my ns0 [] ns0"
| timers: "net_run obs my ns0 tr ns \<Longrightarrow> mono clk \<Longrightarrow> tick_timers clk ns = Some ns' \<Longrightarrow> net_run obs my ns0 tr ns'"
| event: "net_run obs my ns0 tr ns \<Longrightarrow> handle_event my env ns ev = Inr ns' \<Longrightarrow> net_run obs my ns0 tr ns'"
| work: "net_run obs my ns0 tr ns \<Longrightarrow> worker_round env ns w = Some (Inr ns') \<Longrightarrow>
    net_run obs my ns0 (tr @ worker_calls obs env ns w) ns'"
| send: "net_run obs my ns0 tr ns \<Longrightarrow> net_run obs my ns0 tr (snd (net_sendToSession ns sid msg))"

lemma net_run_reachable: "net_run obs my ns0 tr ns \<Longrightarrow> net_reachable my ns0 \<Longrightarrow> net_reachable my ns"
  by (induction rule: net_run.induct) (auto intro: net_reachable.intros)

text \<open>Every reachable server is at the end of such a run.\<close>

lemma reachable_net_run:
  "net_reachable my ns \<Longrightarrow> \<exists>any_called c0 factories app config sfd outs ok ns0 tr.
     net_init (NetServer_new any_called c0 factories app) config sfd outs ok = Some ns0 \<and> net_run obs my ns0 tr ns"
  by (induction rule: net_reachable.induct) (blast intro: net_run.intros)+

definition steady :: "('wh, 'd) net_server \<Rightarrow> bool" where
  "steady ns \<longleftrightarrow> m_ws_routes (sv_router (ns_app ns)) = Map.empty \<and>
     (\<forall>fd \<in> set (m_listen_fds ns). \<exists>p k. m_listenFdToPort ns fd = Some p \<and> ns_factories ns p = Some k)"

lemma steady_policy: "policy ns' = policy ns \<Longrightarrow> steady ns \<Longrightarrow> steady ns'"
  by (simp add: policy_def steady_def)

lemma ws_process_app:
  assumes "ws_process ssl run rt c m s = Inr (ok, c', m', s')" "m_ws_routes rt = Map.empty"
  shows "s' = s"
  using assms by (auto simp: ws_process_def ws_dispatch_def Let_def elim!: rbind_eq_InrE split: ws_status.splits if_splits prod.splits option.splits)

text \<open>Processing changes the limiter the way \<open>http_process\<close> does, on a WebSocket connection not at all.\<close>

lemma process_app:
  assumes "process_object env ns i = Inr (ok, ns')" "steady ns"
  shows "(\<exists>c ok c' app. ns_conns ns i = Some (Http c) \<and> kept (ns\<lparr>ns_app := app\<rparr>) ns' \<and>
      http_process (he_ssl (ne_handlers env)) (he_json (ne_handlers env)) (ne_fs env) (ne_root env)
        (run_handler (ne_handlers env)) c (ns_app ns) (ne_clk env) = Inr (ok, c', app)) \<or>
    (\<exists>c. ns_conns ns i = Some (Ws c) \<and> kept ns ns')"
proof (cases "ns_conns ns i")
  case (Some bc)
  show ?thesis
  proof (cases bc)
    case (Http c)
    with Some assms(1) obtain ok1 c' app where
      p: "http_process (he_ssl (ne_handlers env)) (he_json (ne_handlers env)) (ne_fs env) (ne_root env)
                   (run_handler (ne_handlers env)) c (ns_app ns) (ne_clk env) = Inr (ok1, c', app)"
      by (auto simp: process_object_def elim!: rbind_eq_InrE)
    have "kept (ns\<lparr>ns_app := app\<rparr>) (ns\<lparr>ns_conns := C, ns_app := app\<rparr>)" for C by (simp add: kept_def policy_def limiter_def)
    with Some Http p assms(1) have "kept (ns\<lparr>ns_app := app\<rparr>) ns'" by (auto simp: process_object_def Let_def)
    with Some Http p show ?thesis by blast
  next
    case (Ws c)
    with Some assms(1) obtain ok1 c' wm app where
      p: "ws_process (he_ssl (ne_handlers env)) (ne_ws_run env) (sv_router (ns_app ns)) c (ns_ws ns) (ns_app ns) = Inr (ok1, c', wm, app)"
      by (auto simp: process_object_def elim!: rbind_eq_InrE)
    have "app = ns_app ns" using ws_process_app [OF p] assms(2) by (simp add: steady_def)
    moreover have "kept ns (ns\<lparr>ns_conns := C, ns_ws := wm, ns_app := ns_app ns\<rparr>)" for C by (simp add: kept_def policy_def limiter_def)
    ultimately have "kept ns ns'" using Some Ws p assms(1) by (auto simp: process_object_def Let_def)
    with Some Ws show ?thesis by blast
  qed
qed (use assms in \<open>simp add: process_object_def\<close>)

lemma process_policy:
  assumes "process_object env ns i = Inr (ok, ns')" "steady ns"
  shows "policy ns' = policy ns"
  using process_app [OF assms]
proof (elim disjE exE conjE)
  fix c ok' c' app
  assume k: "kept (ns\<lparr>ns_app := app\<rparr>) ns'" and p: "http_process (he_ssl (ne_handlers env)) (he_json (ne_handlers env)) (ne_fs env)
    (ne_root env) (run_handler (ne_handlers env)) c (ns_app ns) (ne_clk env) = Inr (ok', c', app)"
  obtain lim rl where l: "isLimit (sv_limiter (ns_app ns)) ''access_ip'' (m_address c) (ne_clk env 0) = (lim, rl)" by fastforce
  have "sv_interceptor app = sv_interceptor (ns_app ns) \<and> sv_router app = sv_router (ns_app ns)"
    using process_cases [OF p l] by (auto split: option.splits dest!: gate_kept_handler [where ty = "''access_ip''"] simp: gate_kept_def)
  with k show ?thesis by (simp add: kept_def policy_def)
qed (simp add: kept_def)

lemma kept_event:
  assumes "handle_event my env ns ev = Inr ns'" "steady ns"
  shows "kept ns ns'"
proof -
  obtain fd i o' where ev: "ev = (fd, i, o')" by (cases ev)
  show ?thesis
  proof (cases "fd \<in> set (m_listen_fds ns)")
    case True
    then obtain p where p: "m_listenFdToPort ns fd = Some p" using assms(2) unfolding steady_def by blast
    from kept_accept [OF _ p] True assms(1) ev show ?thesis by (auto simp: handle_event_def split: if_splits)
  next
    case False
    with assms(1) ev kept_signal kept_readEvent show ?thesis
      by (auto simp: handle_event_def handleWriteEvent_def split: if_splits option.splits)
  qed
qed

section \<open>Accounts\<close>

text \<open>An observation, and a relation between limiters that says what the observed calls did: when one \<open>process\<close> keeps to it, so does
  every run.\<close>

locale limiter_account =
  fixes obs :: "('wh, 'd) net_env \<Rightarrow> ('wh, 'd) net_server \<Rightarrow> nat \<Rightarrow> (string \<times> time \<times> bool) list"
    and acc :: "(string \<times> time \<times> bool) list \<Rightarrow> rate_limiter \<Rightarrow> rate_limiter \<Rightarrow> bool"
  assumes none: "acc [] l l"
    and append: "acc tr l1 l2 \<Longrightarrow> acc tr' l2 l3 \<Longrightarrow> acc (tr @ tr') l1 l3"
    and process: "process_object env ns i = Inr (ok, ns') \<Longrightarrow> steady ns \<Longrightarrow> acc (obs env ns i) (limiter ns) (limiter ns')"
begin

definition onward :: "(string \<times> time \<times> bool) list \<Rightarrow> ('wh, 'd) net_server \<Rightarrow> ('wh, 'd) net_server \<Rightarrow> bool" where
  "onward tr ns ns' \<longleftrightarrow> policy ns' = policy ns \<and> acc tr (limiter ns) (limiter ns')"

lemma onward_kept: "kept ns ns' \<Longrightarrow> onward [] ns ns'"
  by (simp add: kept_def onward_def none)

lemma onward_trans: "onward tr a b \<Longrightarrow> onward tr' b c \<Longrightarrow> onward (tr @ tr') a c"
  by (auto simp: onward_def intro: append)

lemma onward_kept_after: "onward tr a b \<Longrightarrow> kept b c \<Longrightarrow> onward tr a c"
  using onward_trans [of tr a b "[]" c] onward_kept [of b c] by simp

lemma onward_steady: "onward tr a b \<Longrightarrow> steady a \<Longrightarrow> steady b"
  unfolding onward_def using steady_policy by blast

lemma after_read_onward:
  assumes "after_read env ns i fd = Inr ns'" "steady ns"
  shows "onward (obs env ns i) ns ns'"
proof -
  obtain ok ns1 where p: "process_object env ns i = Inr (ok, ns1)"
    using assms(1) by (auto simp: after_read_def elim!: rbind_eq_InrE)
  have "onward (obs env ns i) ns ns1" using process [OF p assms(2)] process_policy [OF p assms(2)] by (simp add: onward_def)
  moreover have "kept ns1 ns'" using assms(1) p by (auto simp: after_read_def Let_def)
  ultimately show ?thesis by (rule onward_kept_after)
qed

lemma task_onward:
  assumes "run_task env ns t = Inr ns'" "steady ns"
  shows "onward (task_calls obs env ns t) ns ns'"
proof (cases t)
  case (Task_read i fd)
  with assms(1) obtain n ns1 where r: "read_object env ns i = Inr (n, ns1)" by (auto elim!: rbind_eq_InrE)
  note k = kept_read [OF r]
  have s: "steady ns1" using onward_steady [OF onward_kept [OF k] assms(2)] .
  show ?thesis
  proof (cases n)
    case True
    with Task_read assms(1) r have "after_read env ns1 i fd = Inr ns'" by simp
    from onward_trans [OF onward_kept [OF k] after_read_onward [OF this s]] True Task_read r show ?thesis
      by (simp add: task_calls_def)
  next
    case False
    with Task_read assms(1) r k show ?thesis by (auto simp: task_calls_def intro: onward_kept)
  qed
next
  case (Task_process i fd)
  with assms after_read_onward show ?thesis by (fastforce simp: task_calls_def)
next
  case (Task_write i fd)
  with assms(1) obtain wire where "write_task env ns i fd = Inr (wire, ns')" by (cases "write_task env ns i fd") auto
  from kept_write [OF this] Task_write show ?thesis by (simp add: task_calls_def onward_kept)
qed

lemma worker_onward:
  assumes "worker_round env ns w = Some (Inr ns')" "steady ns"
  shows "onward (worker_calls obs env ns w) ns ns'"
proof (cases "m_threads (m_thread_pool ns) ! w")
  case (Executing t)
  with assms(1) obtain n where r: "run_task env ns t = Inr n" by (auto simp: worker_round_def split: if_splits elim!: rbind_eq_InrE)
  have "kept n ns'" using assms(1) Executing r by (auto simp: worker_round_def split: if_splits option.splits)
  from onward_kept_after [OF task_onward [OF r assms(2)] this] Executing show ?thesis by (simp add: worker_calls_def)
qed (use assms in \<open>auto simp: worker_round_def worker_calls_def intro!: onward_kept split: if_splits\<close>)

lemma run_onward:
  assumes "net_run obs my ns0 tr ns" "net_reachable my ns0" "steady ns0"
  shows "onward tr ns0 ns \<and> steady ns"
  using assms
proof (induction rule: net_run.induct)
  case start
  then show ?case using onward_kept by simp
next
  case (timers tr ns clk ns')
  have "server_ok ns" using net_run_reachable [OF timers(1,5)] by (rule reachable_ok)
  from onward_kept [OF kept_tick [OF this timers(2,3)]] onward_trans [of tr ns0 ns "[]" ns'] timers show ?case
    by (auto dest: onward_steady)
next
  case (event tr ns env ev ns')
  with onward_kept [OF kept_event [OF event(2)]] onward_trans [of tr ns0 ns "[]" ns'] show ?case by (auto dest: onward_steady)
next
  case (work tr ns env w ns')
  with worker_onward [OF work(2)] show ?case by (auto intro: onward_trans dest: onward_steady)
next
  case (send tr ns sid msg)
  with onward_kept [OF kept_send [of ns sid msg]] onward_trans [of tr ns0 ns "[]"] show ?case by (auto dest: onward_steady)
qed

lemmas run_policy = run_onward [unfolded onward_def]

end

section \<open>The accounts of the limiter\<close>

definition times_in :: "string \<Rightarrow> limiter_log \<Rightarrow> time list" where
  "times_in ip tr = map (\<lambda>(_, t, _). t) (filter (\<lambda>(x, _, _). x = ip) tr)"

text \<open>The calls \<open>tr\<close> moved the window of \<open>ip\<close> of a type from one state of the limiter to the other.\<close>

definition moved :: "string \<Rightarrow> string \<Rightarrow> int \<Rightarrow> int \<Rightarrow> limiter_log \<Rightarrow> rate_limiter \<Rightarrow> rate_limiter \<Rightarrow> bool" where
  "moved ty ip m w tr rl rl' \<longleftrightarrow>
     (rl_rule rl (ty, ip) = Some (m, w) \<longrightarrow>
        rl_rule rl' (ty, ip) = Some (m, w) \<and>
        (\<forall>ts. win_admitted m w (rl_view rl (ty, ip)) (times_in ip tr @ ts) =
              admitted_of ip tr @ win_admitted m w (rl_view rl' (ty, ip)) ts))"

lemma moved_refl [simp]: "moved ty ip m w [] rl rl"
  by (simp add: moved_def times_in_def admitted_of_def)

lemma moved_trans: "moved ty ip m w tr a b \<Longrightarrow> moved ty ip m w tr' b c \<Longrightarrow> moved ty ip m w (tr @ tr') a c"
  by (auto simp: moved_def times_in_def admitted_of_def)

lemma moved_call:
  assumes "isLimit rl ty addr t = (b, rl')"
  shows "moved ty ip m w [(addr, t, b)] rl rl'"
proof -
  have c: "rl_call rl (ty, addr) t = (b, rl')" using assms by (simp add: rl_call_def)
  show ?thesis
  proof (cases "addr = ip")
    case True
    with rl.own [of rl "(ty, ip)" m w t b rl'] rl.rule_kept [of rl "(ty, ip)" "(m, w)" "(ty, ip)" t] c
    show ?thesis by (auto simp: moved_def times_in_def admitted_of_def)
  next
    case False
    with rl.other [of "(ty, ip)" "(ty, addr)" rl t] rl.rule_kept [of rl "(ty, ip)" "(m, w)" "(ty, addr)" t] c
    show ?thesis by (simp add: moved_def times_in_def admitted_of_def)
  qed
qed

lemma moved_gate: "moved ty ip m w tr rl (sv_limiter sv) \<Longrightarrow> gate_kept ty sv sv' \<Longrightarrow> moved ty ip m w tr rl (sv_limiter sv')"
  by (simp add: moved_def gate_kept_def)

text \<open>In the account of an address nothing is lost: its admitted calls are those of its window.\<close>

lemma moved_burst:
  assumes "moved ty ip m w tr rl rl'" "rl_rule rl (ty, ip) = Some (m, w)" "rl_view rl (ty, ip) = None" "sorted (map (fst \<circ> snd) tr)"
  shows "int (between a (a + w * ns_per_sec) (admitted_of ip tr)) \<le> 2 * max 1 m - 1"
proof -
  have eq: "admitted_of ip tr = win_admitted m w None (times_in ip tr)"
    using assms(1-3) unfolding moved_def by (metis append_Nil2 win_admitted.simps(1))
  have "times_in ip tr = map (fst \<circ> snd) (filter (\<lambda>(x, _, _). x = ip) tr)" by (simp add: times_in_def comp_def split_def)
  then have "sorted (times_in ip tr)" using assms(4) sorted_filter by metis
  from win_burst [OF this, of None m a w] show ?thesis by (simp add: eq)
qed

lemma gate_kept_processed:
  assumes "http_process ssl J fs root (run_handler env) c sv clk = Inr (ok, c', sv')"
    and "isLimit (sv_limiter sv) ''access_ip'' (m_address c) (clk 0) = (lim, rl)"
    and "ty \<noteq> ''login_ip'' \<or> (\<forall>h b. processed_by ssl J c sv clk = Some (h, b) \<longrightarrow> h \<noteq> H_login)"
  shows "gate_kept ty (sv\<lparr>sv_limiter := rl\<rparr>) sv'"
proof (cases "processed_by ssl J c sv clk")
  case None
  with process_cases [OF assms(1,2)] show ?thesis by (auto simp: gate_kept_def)
next
  case (Some hb)
  obtain h b where hb: "hb = (h, b)" by (cases hb)
  with process_cases [OF assms(1,2)] Some obtain sm tm res res' sm' sv1
    where r: "run_handler env h b res (sv\<lparr>sv_limiter := rl, sv_sessions := sm, sv_tokens := tm\<rparr>) = Inr (res', sv1)"
      and "sv' = sv1\<lparr>sv_sessions := sm'\<rparr>" by auto
  moreover have "gate_kept ty (sv\<lparr>sv_limiter := rl, sv_sessions := sm, sv_tokens := tm\<rparr>) sv1"
    using gate_kept_handler [OF r] assms(3) Some hb by auto
  ultimately show ?thesis by (simp add: gate_kept_def)
qed

lemma access_process:
  assumes "process_object env ns i = Inr (ok, ns')" "steady ns"
  shows "moved ''access_ip'' ip m w (access_call env ns i) (limiter ns) (limiter ns')"
  using process_app [OF assms]
proof (elim disjE exE conjE)
  fix c ok' c' app
  assume c: "ns_conns ns i = Some (Http c)" and k: "kept (ns\<lparr>ns_app := app\<rparr>) ns'"
    and p: "http_process (he_ssl (ne_handlers env)) (he_json (ne_handlers env)) (ne_fs env)
      (ne_root env) (run_handler (ne_handlers env)) c (ns_app ns) (ne_clk env) = Inr (ok', c', app)"
  obtain b rl where l: "isLimit (sv_limiter (ns_app ns)) ''access_ip'' (m_address c) (ne_clk env 0) = (b, rl)" by fastforce
  have "gate_kept ''access_ip'' ((ns_app ns)\<lparr>sv_limiter := rl\<rparr>) app" by (rule gate_kept_processed [OF p l]) simp
  with moved_gate [OF _ this] moved_call [OF l] c k l show ?thesis by (simp add: access_call_def limiter_def kept_def)
qed (simp add: access_call_def kept_def)

interpretation access: limiter_account access_call "moved ''access_ip'' ip m w" for ip m w
  by unfold_locales (auto intro: moved_trans access_process)

lemma login_process:
  assumes "process_object env ns i = Inr (ok, ns')" "steady ns"
  shows "moved ''login_ip'' ip m w (login_call env ns i) (limiter ns) (limiter ns')"
  using process_app [OF assms]
proof (elim disjE exE conjE)
  fix c ok' c' app
  assume c: "ns_conns ns i = Some (Http c)" and k: "kept (ns\<lparr>ns_app := app\<rparr>) ns'"
    and p: "http_process (he_ssl (ne_handlers env)) (he_json (ne_handlers env)) (ne_fs env)
      (ne_root env) (run_handler (ne_handlers env)) c (ns_app ns) (ne_clk env) = Inr (ok', c', app)"
  let ?by = "processed_by (he_ssl (ne_handlers env)) (he_json (ne_handlers env)) c (ns_app ns) (ne_clk env)"
  obtain lim rl where l: "isLimit (sv_limiter (ns_app ns)) ''access_ip'' (m_address c) (ne_clk env 0) = (lim, rl)" by fastforce
  have first: "moved ''login_ip'' ip m w [] (limiter ns) rl"
    using moved_gate [OF _ gate_kept_other [OF l, of "''login_ip''"]] by (simp add: limiter_def)
  have lim: "limiter ns' = sv_limiter app" using k by (simp add: kept_def limiter_def)
  show ?thesis
  proof (cases "\<exists>b. ?by = Some (H_login, b)")
    case True
    then obtain b where b: "?by = Some (H_login, b)" by blast
    with process_cases [OF p l] obtain sm tm res res' sm' sv1
      where r: "run_handler (ne_handlers env) H_login b res ((ns_app ns)\<lparr>sv_limiter := rl, sv_sessions := sm, sv_tokens := tm\<rparr>) = Inr (res', sv1)"
        and "app = sv1\<lparr>sv_sessions := sm'\<rparr>" by auto
    moreover obtain d rl2 where d: "isLimit rl ''login_ip'' (m_ip b) (he_clk (ne_handlers env) 0) = (d, rl2)" by fastforce
    ultimately have "sv_limiter app = rl2" using login_limiter [OF r] by auto
    with moved_trans [OF first moved_call [OF d]] b c l d lim show ?thesis by (simp add: login_call_def limiter_def)
  next
    case False
    have "gate_kept ''login_ip'' ((ns_app ns)\<lparr>sv_limiter := rl\<rparr>) app" by (rule gate_kept_processed [OF p l]) (use False in auto)
    with moved_gate [OF _ this] first False c lim show ?thesis by (auto simp: login_call_def Let_def split: option.splits)
  qed
qed (simp add: login_call_def kept_def)

interpretation login: limiter_account login_call "moved ''login_ip'' ip m w" for ip m w
  by unfold_locales (auto intro: moved_trans login_process)

text \<open>Without an account, a run keeps its policy.\<close>

interpretation unobserved: limiter_account obs "\<lambda>_ _ _. True" for obs
  by unfold_locales simp_all

section \<open>After \<open>NetServer::init\<close>\<close>

definition listening :: "int set \<Rightarrow> ('wh, 'd) net_server \<Rightarrow> bool" where
  "listening ports ns \<longleftrightarrow> set (m_listen_fds ns) \<subseteq> dom (m_listenFdToPort ns) \<and> ran (m_listenFdToPort ns) \<subseteq> ports"

lemma listening_register: "listening ports ns \<Longrightarrow> port \<in> ports \<Longrightarrow> listening ports (register_listener ns fd port)"
  by (auto simp: listening_def register_listener_def ran_def split: option.splits)

lemma listening_fields [simp]:
  "listening ports (close_fd ns fd) = listening ports ns" "listening ports (ns\<lparr>ns_trig_mode := i\<rparr>) = listening ports ns"
  by (simp_all add: listening_def close_fd_def)

lemma initSocket_listening:
  "initSocket ns l = Some ns' \<Longrightarrow> listening ports ns \<Longrightarrow> fst ` set l \<subseteq> ports \<Longrightarrow> listening ports ns'"
  by (induction ns l rule: initSocket.induct) (auto intro: listening_register)

lemma initSocket_fields:
  "initSocket ns l = Some ns' \<Longrightarrow> ns_app ns' = ns_app ns \<and> ns_factories ns' = ns_factories ns \<and> m_config ns' = m_config ns"
  by (induction ns l rule: initSocket.induct) (auto simp: register_listener_def close_fd_def)

lemma addFd_full_fields [simp]:
  "ns_app (addFd_full ns fd ev os et) = ns_app ns" "ns_factories (addFd_full ns fd ev os et) = ns_factories ns"
  "m_config (addFd_full ns fd ev os et) = m_config ns" "m_listen_fds (addFd_full ns fd ev os et) = m_listen_fds ns"
  "m_listenFdToPort (addFd_full ns fd ev os et) = m_listenFdToPort ns"
  by (simp_all add: addFd_full_def)

lemma foldl_addFd_full [simp]:
  "ns_app (foldl (\<lambda>ns fd. addFd_full ns fd ev os et) ns fds) = ns_app ns"
  "ns_factories (foldl (\<lambda>ns fd. addFd_full ns fd ev os et) ns fds) = ns_factories ns"
  "m_config (foldl (\<lambda>ns fd. addFd_full ns fd ev os et) ns fds) = m_config ns"
  "m_listen_fds (foldl (\<lambda>ns fd. addFd_full ns fd ev os et) ns fds) = m_listen_fds ns"
  "m_listenFdToPort (foldl (\<lambda>ns fd. addFd_full ns fd ev os et) ns fds) = m_listenFdToPort ns"
  by (induction fds arbitrary: ns) simp_all

lemma initEpoll_fields:
  assumes "initEpoll ns ok = Some ns'"
  shows "ns_app ns' = ns_app ns" "ns_factories ns' = ns_factories ns" "m_config ns' = m_config ns"
    "m_listen_fds ns' = m_listen_fds ns" "m_listenFdToPort ns' = m_listenFdToPort ns"
  using assms by (auto simp: initEpoll_def Let_def split: if_splits)

lemma net_init_state:
  assumes "net_init (NetServer_new any_called c0 factories app) config sfd outs ok = Some ns"
  shows "ns_app ns = app\<lparr>sv_router := registerGet (sv_router app) ''/api/info'' (H_info config)\<rparr>" "ns_factories ns = factories"
    "m_config ns = config" "listening (set (listen_ports config)) ns"
proof -
  let ?n = "(NetServer_new any_called c0 factories app)\<lparr>m_config := config, m_thread_pool := ThreadPool_new (nat (thread_num config)),
    m_signal_fd := sfd, ns_open := (ns_open (NetServer_new any_called c0 factories app))(sfd := True)\<rparr>"
  obtain n1 where n1: "initSocket ?n (zip (listen_ports config) outs) = Some n1"
    using assms by (auto simp: net_init_def Let_def split: option.splits)
  obtain n2 where n2: "initEpoll n1 ok = Some n2" using assms n1 by (auto simp: net_init_def Let_def)
  have ns: "ns = n2\<lparr>ns_app := (ns_app n2)\<lparr>sv_router := registerGet (sv_router (ns_app n2)) ''/api/info'' (H_info config)\<rparr>\<rparr>"
    using assms n1 n2 by (simp add: net_init_def Let_def)
  have f: "ns_app n1 = app \<and> ns_factories n1 = factories \<and> m_config n1 = config"
    using initSocket_fields [OF n1] by (simp add: NetServer_new_def)
  have "listening (set (listen_ports config)) ?n" by (simp add: listening_def NetServer_new_def)
  from initSocket_listening [OF n1 this] have l: "listening (set (listen_ports config)) n1" by (force dest: set_zip_leftD)
  show "ns_app ns = app\<lparr>sv_router := registerGet (sv_router app) ''/api/info'' (H_info config)\<rparr>" "ns_factories ns = factories"
    "m_config ns = config" "listening (set (listen_ports config)) ns"
    using f l initEpoll_fields [OF n2] by (simp_all add: ns listening_def)
qed

end
