(* ===== verification/Net_Serving.thy ===== *)
theory Net_Serving
  imports Http_Static Net_Policy
begin

text \<open>
  One request through the whole server: the read event of the main thread, the task of a worker, the registration with epoll
  that the answer makes, the write event, and the task that sends. The theory \<open>Http_Static\<close> has what happens on the connection.
\<close>

section \<open>A worker with one task\<close>

text \<open>A number of steps of worker \<open>w\<close>.\<close>

fun worker_rounds :: "('wh, 'd) net_env \<Rightarrow> ('wh, 'd) net_server \<Rightarrow> nat \<Rightarrow> nat \<Rightarrow> ('wh, 'd) net_server result option" where
  "worker_rounds env ns w 0 = Some (Inr ns)"
| "worker_rounds env ns w (Suc n) =
     (case worker_round env ns w of Some (Inr ns) \<Rightarrow> worker_rounds env ns w n | r \<Rightarrow> r)"

definition idle :: "('wh, 'd) net_server \<Rightarrow> nat \<Rightarrow> bool" where
  "idle ns w \<longleftrightarrow> w < length (m_threads (m_thread_pool ns)) \<and> m_threads (m_thread_pool ns) ! w = At_loop \<and>
     m_tasks (m_thread_pool ns) = [] \<and> \<not> m_stop (m_thread_pool ns)"

definition taken :: "net_task thread_pool \<Rightarrow> nat \<Rightarrow> net_task \<Rightarrow> net_task thread_pool" where
  "taken p w t = p\<lparr>m_threads := (m_threads p)[w := Executing t], added := added p @ [t], started := started p @ [t]\<rparr>"

definition executed :: "net_task thread_pool \<Rightarrow> nat \<Rightarrow> net_task \<Rightarrow> net_task thread_pool" where
  "executed p w t = p\<lparr>m_threads := (m_threads p)[w := At_loop], finished := finished p @ [t]\<rparr>"

lemma idle_take:
  assumes "idle ns w"
  shows "worker_rounds env (add_task ns t) w 2 = Some (Inr (ns\<lparr>m_thread_pool := taken (m_thread_pool ns) w t\<rparr>))"
  using assms
  by (simp add: numeral_2_eq_2 worker_round_def idle_def add_task_def addTask_def worker_step_def taken_def)

lemma net_run_take:
  assumes "net_run obs my ns0 tr (add_task n t)" "idle n w"
  shows "net_run obs my ns0 tr (n\<lparr>m_thread_pool := taken (m_thread_pool n) w t\<rparr>)"
proof -
  let ?a = "add_task n t" and ?p = "m_thread_pool (add_task n t)"
  define b where "b = ?a\<lparr>m_thread_pool := ?p\<lparr>m_threads := (m_threads ?p)[w := At_wait]\<rparr>\<rparr>"
  have "worker_round env ?a w = Some (Inr b)" "worker_calls obs env ?a w = []" for env
    using assms(2) by (simp_all add: worker_round_def idle_def add_task_def addTask_def worker_step_def worker_calls_def b_def)
  from net_run.work [OF assms(1) this(1)] this(2) have "net_run obs my ns0 tr b" by simp
  moreover have "worker_round env b w = Some (Inr (n\<lparr>m_thread_pool := taken (m_thread_pool n) w t\<rparr>))" "worker_calls obs env b w = []" for env
    using assms(2) by (simp_all add: worker_round_def idle_def add_task_def addTask_def worker_step_def worker_calls_def taken_def b_def)
  ultimately show ?thesis using net_run.work [of obs my ns0 tr b _ w] by fastforce
qed

lemma execute_round:
  assumes "m_threads (m_thread_pool ns) ! w = Executing t" "w < length (m_threads (m_thread_pool ns))"
    and "run_task env ns t = Inr n" "m_thread_pool n = m_thread_pool ns"
  shows "worker_round env ns w = Some (Inr (release (n\<lparr>m_thread_pool := executed (m_thread_pool ns) w t\<rparr>) (task_obj t)))"
  using assms by (simp add: worker_round_def worker_step_def executed_def)

lemma taken_at: "w < length (m_threads p) \<Longrightarrow> m_threads (taken p w t) ! w = Executing t"
  "length (m_threads (taken p w t)) = length (m_threads p)"
  by (simp_all add: taken_def)

section \<open>A request\<close>

definition registered :: "('wh, 'd) net_server \<Rightarrow> int \<Rightarrow> epoll_events \<Rightarrow> bool" where
  "registered ns fd ev = (case ns_epoll ns fd of None \<Rightarrow> False | Some r \<Rightarrow> reg_events r = ev)"

text \<open>What the task that worker \<open>w\<close> executes puts on the wire.\<close>

definition task_wire :: "('wh, 'd) net_env \<Rightarrow> ('wh, 'd) net_server \<Rightarrow> nat \<Rightarrow> string" where
  "task_wire env ns w =
     (case m_threads (m_thread_pool ns) ! w of
        Executing (Task_write i fd) \<Rightarrow> (case write_task env ns i fd of Inr (wire, _) \<Rightarrow> wire | Inl _ \<Rightarrow> [])
      | _ \<Rightarrow> [])"

text \<open>A read event, the steps of a worker on its task, the write event epoll then reports, and the steps on that task. The
  events come only when the descriptor is registered for them. The bytes on the wire come back with the state.\<close>

definition serve_request ::
  "'d mysql \<Rightarrow> ('wh, 'd) net_env \<Rightarrow> ('wh, 'd) net_env \<Rightarrow> ('wh, 'd) net_server \<Rightarrow> int \<Rightarrow> nat \<Rightarrow> (string \<times> ('wh, 'd) net_server) option" where
  "serve_request my env1 env2 ns fd w =
     (if \<not> registered ns fd EPOLLIN then None
      else case handle_event my env1 ns (fd, True, False) of Inl _ \<Rightarrow> None | Inr ns1 \<Rightarrow>
           (case worker_rounds env1 ns1 w 3 of
              Some (Inr ns2) \<Rightarrow>
                if \<not> registered ns2 fd EPOLLOUT then None
                else (case handle_event my env2 ns2 (fd, False, True) of Inl _ \<Rightarrow> None | Inr ns3 \<Rightarrow>
                       (case worker_rounds env2 ns3 w 2 of
                          Some (Inr ns4) \<Rightarrow>
                            (case worker_round env2 ns4 w of
                               Some (Inr ns5) \<Rightarrow> Some (task_wire env2 ns4 w, ns5)
                             | _ \<Rightarrow> None)
                        | _ \<Rightarrow> None))
            | _ \<Rightarrow> None))"

text \<open>Descriptor \<open>fd\<close> is the client of connection object \<open>i\<close>.\<close>

definition client :: "('wh, 'd) net_server \<Rightarrow> int \<Rightarrow> nat \<Rightarrow> http_conn \<Rightarrow> bool" where
  "client ns fd i c \<longleftrightarrow> map_of (m_users ns) fd = Some i \<and> ns_conns ns i = Some (Http c) \<and> m_sockfd c = fd \<and> \<not> m_is_closed c \<and>
     ns_epoll ns fd \<noteq> None \<and> fd \<noteq> -1 \<and> fd \<notin> set (m_listen_fds ns) \<and> fd \<noteq> m_signal_fd ns"

lemma client_conn: "client ns fd i c \<Longrightarrow> getConn_of ns fd = Some i"
  by (simp add: client_def getConn_of_def object_isClosed_def)

lemma client_referenced: "map_of (m_users ns) fd = Some i \<Longrightarrow> referenced ns i"
  by (force simp: referenced_def dest: map_of_SomeD)

lemma release_referenced: "referenced ns i \<Longrightarrow> release ns i = ns"
  by (simp add: release_def)

lemma after_read_answer:
  assumes "ns_conns ns i = Some (Http c1)" "ns_epoll ns fd = Some r" "m_sockfd c1 = fd"
    and "http_process (he_ssl (ne_handlers env)) (he_json (ne_handlers env)) (ne_fs env) (ne_root env) (run_handler (ne_handlers env))
           c1 (ns_app ns) (ne_clk env) = Inr (True, c2, app)"
    and "m_sockfd c2 = fd" "\<not> m_is_closed c2"
  shows "after_read env ns i fd =
    Inr (refreshTimer (modFd (ns\<lparr>ns_conns := (ns_conns ns)(i \<mapsto> Http c2), ns_app := app\<rparr>) fd EPOLLOUT) fd (ne_now env))"
  using assms by (simp add: after_read_def process_object_def object_isClosed_def Let_def)

lemma modFd_more [simp]:
  "ns_app (modFd ns fd ev) = ns_app ns" "m_listen_fds (modFd ns fd ev) = m_listen_fds ns" "m_signal_fd (modFd ns fd ev) = m_signal_fd ns"
  "ns_trig_mode (modFd ns fd ev) = ns_trig_mode ns" "ns_ws (modFd ns fd ev) = ns_ws ns" "ns_open (modFd ns fd ev) = ns_open ns"
  by (simp_all add: modFd_def modFd_full_def)

lemma modFd_epoll [simp]: "(ns_epoll (modFd ns fd ev) f = None) = (ns_epoll ns f = None)"
  by (auto simp: modFd_def modFd_full_def)

lemma modFd_registered: "ns_epoll ns fd \<noteq> None \<Longrightarrow> registered (modFd ns fd ev) fd ev"
  by (simp add: registered_def modFd_def modFd_full_def)

lemma refreshTimer_fields [simp]:
  "m_users (refreshTimer ns fd now) = m_users ns" "ns_conns (refreshTimer ns fd now) = ns_conns ns" "ns_app (refreshTimer ns fd now) = ns_app ns"
  "ns_epoll (refreshTimer ns fd now) = ns_epoll ns" "m_listen_fds (refreshTimer ns fd now) = m_listen_fds ns"
  "m_signal_fd (refreshTimer ns fd now) = m_signal_fd ns" "ns_open (refreshTimer ns fd now) = ns_open ns"
  "m_config (refreshTimer ns fd now) = m_config ns"
  by (simp_all add: refreshTimer_def)

lemma worker_rounds_add:
  "worker_rounds env ns w (m + n) = (case worker_rounds env ns w m of Some (Inr ns) \<Rightarrow> worker_rounds env ns w n | r \<Rightarrow> r)"
  by (induction m arbitrary: ns) (auto split: option.splits sum.splits)

lemma idle_execute:
  assumes "idle n w" "run_task env (n\<lparr>m_thread_pool := taken (m_thread_pool n) w t\<rparr>) t = Inr n'"
    and "m_thread_pool n' = taken (m_thread_pool n) w t"
  shows "worker_rounds env (add_task n t) w 3 =
    Some (Inr (release (n'\<lparr>m_thread_pool := executed (taken (m_thread_pool n) w t) w t\<rparr>) (task_obj t)))"
proof -
  have w: "w < length (m_threads (m_thread_pool n))" using assms(1) by (simp add: idle_def)
  have "worker_round env (n\<lparr>m_thread_pool := taken (m_thread_pool n) w t\<rparr>) w =
    Some (Inr (release (n'\<lparr>m_thread_pool := executed (taken (m_thread_pool n) w t) w t\<rparr>) (task_obj t)))"
    using execute_round [of "n\<lparr>m_thread_pool := taken (m_thread_pool n) w t\<rparr>" w t env n'] assms(2,3) w taken_at(1) [OF w] taken_at(2) by simp
  with worker_rounds_add [of env "add_task n t" w 2 1] idle_take [OF assms(1)] show ?thesis by simp
qed

lemma idle_executed:
  "idle n w \<Longrightarrow> m_thread_pool n' = executed (taken (m_thread_pool n) w t) w t \<Longrightarrow> idle n' w"
  by (simp add: idle_def executed_def taken_def)

text \<open>The task of a read event is \<open>Task_read\<close> or, in the actor model 0, \<open>Task_process\<close> after the read in the main thread. Both
  come to \<open>after_read\<close>.\<close>

lemma read_event:
  assumes "client ns fd i c" "http_read (ns_trig_mode ns) c (ne_recv env) = (True, c1)"
  shows "\<exists>n t. handle_event my env ns (fd, True, False) = Inr (add_task n t) \<and> m_thread_pool n = m_thread_pool ns \<and> task_obj t = i \<and>
    (\<forall>p. let n1 = ns\<lparr>m_thread_pool := p, ns_conns := (ns_conns ns)(i \<mapsto> Http c1)\<rparr>
         in run_task env (n\<lparr>m_thread_pool := p\<rparr>) t = after_read env n1 i fd \<and>
            task_calls obs env (n\<lparr>m_thread_pool := p\<rparr>) t = obs env n1 i)"
proof -
  note cl = assms(1) [unfolded client_def]
  define t where "t = (if actor_model (m_config ns) \<noteq> 0 then Task_read i fd else Task_process i fd)"
  define n where "n = (if actor_model (m_config ns) \<noteq> 0 then ns else ns\<lparr>ns_conns := (ns_conns ns)(i \<mapsto> Http c1)\<rparr>)"
  have ev: "handle_event my env ns (fd, True, False) = Inr (add_task n t)"
    using cl client_conn [OF assms(1)] assms(2) by (simp add: handle_event_def handleReadEvent_def read_object_def n_def t_def)
  have swap: "ns\<lparr>ns_conns := C, m_thread_pool := p\<rparr> = ns\<lparr>m_thread_pool := p, ns_conns := C\<rparr>" for C p by (cases ns) simp
  have "let n1 = ns\<lparr>m_thread_pool := p, ns_conns := (ns_conns ns)(i \<mapsto> Http c1)\<rparr>
        in run_task env (n\<lparr>m_thread_pool := p\<rparr>) t = after_read env n1 i fd \<and>
           task_calls obs env (n\<lparr>m_thread_pool := p\<rparr>) t = obs env n1 i" for p
    using cl assms(2) by (cases "actor_model (m_config ns) = 0")
      (simp_all add: n_def t_def read_object_def task_calls_def swap Let_def)
  with ev show ?thesis by (intro exI [of _ n] exI [of _ t]) (simp add: n_def t_def)
qed

text \<open>A read event and the steps of a worker on its task, as part of a run.\<close>

lemma after_read_pool: "after_read env ns i fd = Inr ns' \<Longrightarrow> m_thread_pool ns' = m_thread_pool ns"
proof -
  have "m_thread_pool n = m_thread_pool ns" if "process_object env ns i = Inr (ok, n)" for ok n
    using that by (auto simp: process_object_def Let_def close_fd_def elim!: rbind_eq_InrE split: option.splits base_conn.splits)
  then show "after_read env ns i fd = Inr ns' \<Longrightarrow> m_thread_pool ns' = m_thread_pool ns"
    by (auto simp: after_read_def Let_def elim!: rbind_eq_InrE)
qed

lemma read_run:
  assumes "net_run obs my ns0 tr ns" "client ns fd i c" "idle ns w" "http_read (ns_trig_mode ns) c (ne_recv env) = (True, c1)"
    and "\<And>p. \<exists>n. after_read env (ns\<lparr>m_thread_pool := p, ns_conns := (ns_conns ns)(i \<mapsto> Http c1)\<rparr>) i fd = Inr n"
  shows "\<exists>p ns'. net_run obs my ns0 (tr @ obs env (ns\<lparr>m_thread_pool := p, ns_conns := (ns_conns ns)(i \<mapsto> Http c1)\<rparr>) i) ns'"
proof -
  obtain n t where ev: "handle_event my env ns (fd, True, False) = Inr (add_task n t)" and pool: "m_thread_pool n = m_thread_pool ns"
    and task: "run_task env (n\<lparr>m_thread_pool := p\<rparr>) t = after_read env (ns\<lparr>m_thread_pool := p, ns_conns := (ns_conns ns)(i \<mapsto> Http c1)\<rparr>) i fd"
      "task_calls obs env (n\<lparr>m_thread_pool := p\<rparr>) t = obs env (ns\<lparr>m_thread_pool := p, ns_conns := (ns_conns ns)(i \<mapsto> Http c1)\<rparr>) i" for p
    using read_event [where my = my and obs = obs, OF assms(2,4)] by (auto simp: Let_def)
  let ?p = "taken (m_thread_pool ns) w t"
  obtain n2 where n2: "run_task env (n\<lparr>m_thread_pool := ?p\<rparr>) t = Inr n2" using assms(5) task(1) by auto
  have n2p: "m_thread_pool n2 = ?p" using after_read_pool [OF n2 [unfolded task(1)]] by simp
  have w: "w < length (m_threads (m_thread_pool ns))" "idle n w" using assms(3) pool by (simp_all add: idle_def)
  have ex: "m_threads (m_thread_pool (n\<lparr>m_thread_pool := ?p\<rparr>)) ! w = Executing t" "w < length (m_threads (m_thread_pool (n\<lparr>m_thread_pool := ?p\<rparr>)))"
    using taken_at(1) [OF w(1)] taken_at(2) w(1) by simp_all
  have run: "net_run obs my ns0 tr (n\<lparr>m_thread_pool := ?p\<rparr>)"
    using net_run_take [OF net_run.event [OF assms(1) ev] w(2)] pool by simp
  have "worker_calls obs env (n\<lparr>m_thread_pool := ?p\<rparr>) w = task_calls obs env (n\<lparr>m_thread_pool := ?p\<rparr>) t"
    unfolding worker_calls_def ex(1) by simp
  with net_run.work [OF run execute_round [OF ex n2]] n2p task(2) show ?thesis by auto
qed

lemma read_stage:
  assumes "client ns fd i c" "idle ns w" "http_read (ns_trig_mode ns) c (ne_recv env) = (True, c1)" "m_sockfd c1 = fd"
    and "http_process (he_ssl (ne_handlers env)) (he_json (ne_handlers env)) (ne_fs env) (ne_root env) (run_handler (ne_handlers env))
           c1 (ns_app ns) (ne_clk env) = Inr (True, c2, app)"
    and "m_sockfd c2 = fd" "\<not> m_is_closed c2"
  shows "\<exists>ns1 ns2. handle_event my env ns (fd, True, False) = Inr ns1 \<and> worker_rounds env ns1 w 3 = Some (Inr ns2) \<and>
    client ns2 fd i c2 \<and> idle ns2 w \<and> registered ns2 fd EPOLLOUT"
proof -
  obtain r where r: "ns_epoll ns fd = Some r" using assms(1) by (auto simp: client_def)
  note cl = assms(1) [unfolded client_def]
  obtain n t where ev: "handle_event my env ns (fd, True, False) = Inr (add_task n t)"
    and pool: "m_thread_pool n = m_thread_pool ns" and obj: "task_obj t = i"
    and task: "run_task env (n\<lparr>m_thread_pool := p\<rparr>) t = after_read env (ns\<lparr>m_thread_pool := p, ns_conns := (ns_conns ns)(i \<mapsto> Http c1)\<rparr>) i fd" for p
    using read_event [where my = my and obs = access_call, OF assms(1,3)] by (auto simp: Let_def)
  let ?p = "taken (m_thread_pool ns) w t"
  define m where "m = modFd (ns\<lparr>m_thread_pool := ?p, ns_conns := (ns_conns ns)(i \<mapsto> Http c2), ns_app := app\<rparr>) fd EPOLLOUT"
  have reg: "registered m fd EPOLLOUT" unfolding m_def using r by (intro modFd_registered) simp
  define ns2 where "ns2 = (refreshTimer m fd (ne_now env))\<lparr>m_thread_pool := executed ?p w t\<rparr>"
  have "run_task env (n\<lparr>m_thread_pool := ?p\<rparr>) t = Inr (refreshTimer m fd (ne_now env))"
    unfolding task m_def
    using after_read_answer [of "ns\<lparr>m_thread_pool := ?p, ns_conns := (ns_conns ns)(i \<mapsto> Http c1)\<rparr>" i c1 fd r env c2 app] assms(4-7) r by simp
  moreover have "referenced ns2 i" using cl by (intro client_referenced [of _ fd]) (simp add: ns2_def m_def)
  moreover have "idle n w" using assms(2) pool by (simp add: idle_def)
  ultimately have w3: "worker_rounds env (add_task n t) w 3 = Some (Inr ns2)"
    using idle_execute [of n w env t "refreshTimer m fd (ne_now env)"] pool obj by (simp add: m_def ns2_def release_referenced)
  have "client ns2 fd i c2" using cl assms(6,7) by (simp add: client_def ns2_def m_def del: not_None_eq)
  moreover have "registered ns2 fd EPOLLOUT" using reg by (simp add: registered_def ns2_def)
  moreover have "idle ns2 w" using idle_executed [OF assms(2), of ns2 t] by (simp add: ns2_def)
  ultimately show ?thesis using ev w3 by blast
qed

text \<open>The write event: what the task sends, and what becomes of the connection. A connection that is kept is initialised again and
  waits for the next request; the other is closed, and its object goes when no task refers to it any more.\<close>

lemma write_stage:
  assumes "client ns fd i c" "idle ns w" "http_write c (ne_file env) (ne_send1 env) = (OK, wire, c')" "same_peer c c'"
  shows "\<exists>ns1 ns2 ns3. handle_event my env ns (fd, False, True) = Inr ns1 \<and> worker_rounds env ns1 w 2 = Some (Inr ns2) \<and>
    worker_round env ns2 w = Some (Inr ns3) \<and> task_wire env ns2 w = wire \<and>
    (if m_keep_alive (m_http_base c)
     then client ns3 fd i (http_init c' fd (m_address c)) \<and> registered ns3 fd EPOLLIN \<and> idle ns3 w
     else fd \<notin> fst ` set (m_users ns3) \<and> ns_epoll ns3 fd = None \<and> \<not> ns_open ns3 fd)"
proof -
  note cl = assms(1) [unfolded client_def]
  note peer = assms(4) [unfolded same_peer_def]
  define t where "t = Task_write i fd"
  define n where "n = ns\<lparr>m_thread_pool := taken (m_thread_pool ns) w t\<rparr>"
  have len: "w < length (m_threads (m_thread_pool ns))" using assms(2) by (simp add: idle_def)
  have ev: "handle_event my env ns (fd, False, True) = Inr (add_task ns t)"
    using cl client_conn [OF assms(1)] by (simp add: handle_event_def handleWriteEvent_def t_def)
  have exec: "m_threads (m_thread_pool n) ! w = Executing t" "w < length (m_threads (m_thread_pool n))"
    using len taken_at(1) [OF len] taken_at(2) by (simp_all add: n_def)
  define n' where "n' = (if m_keep_alive (m_http_base c)
    then refreshTimer (modFd (n\<lparr>ns_conns := (ns_conns n)(i \<mapsto> Http (http_init c' fd (m_address c)))\<rparr>) fd EPOLLIN) fd (ne_now env)
    else closeConnection (n\<lparr>ns_conns := (ns_conns n)(i \<mapsto> Http c')\<rparr>) fd)"
  have wt: "write_task env n i fd = Inr (wire, n')"
    using cl assms(3) peer by (simp add: write_task_def n_def n'_def Let_def)
  have wire: "task_wire env n w = wire" using exec(1) wt by (simp add: task_wire_def t_def)
  have pool: "m_thread_pool n' = m_thread_pool n" by (simp add: n'_def)
  define ns3 where "ns3 = release (n'\<lparr>m_thread_pool := executed (m_thread_pool n) w t\<rparr>) i"
  have round: "worker_round env n w = Some (Inr ns3)"
    using execute_round [OF exec, of env n'] wt pool by (simp add: t_def ns3_def)
  have "if m_keep_alive (m_http_base c)
     then client ns3 fd i (http_init c' fd (m_address c)) \<and> registered ns3 fd EPOLLIN \<and> idle ns3 w
     else fd \<notin> fst ` set (m_users ns3) \<and> ns_epoll ns3 fd = None \<and> \<not> ns_open ns3 fd"
  proof (cases "m_keep_alive (m_http_base c)")
    case True
    let ?m = "n\<lparr>ns_conns := (ns_conns n)(i \<mapsto> Http (http_init c' fd (m_address c)))\<rparr>"
    have reg: "registered (modFd ?m fd EPOLLIN) fd EPOLLIN" using cl by (intro modFd_registered) (simp add: n_def)
    have "referenced (n'\<lparr>m_thread_pool := executed (m_thread_pool n) w t\<rparr>) i"
      using cl True by (intro client_referenced [of _ fd]) (simp add: n'_def n_def)
    then have eq: "ns3 = n'\<lparr>m_thread_pool := executed (m_thread_pool n) w t\<rparr>" by (simp add: ns3_def release_referenced)
    have "idle ns3 w" using idle_executed [OF assms(2), of ns3 t] by (simp add: eq n_def)
    with True reg cl show ?thesis
      by (simp add: client_def eq n'_def n_def registered_def http_init_fields del: not_None_eq)
  next
    case False
    let ?m = "n\<lparr>ns_conns := (ns_conns n)(i \<mapsto> Http c')\<rparr>"
    have "fd \<notin> fst ` set (m_users n') \<and> ns_epoll n' fd = None \<and> \<not> ns_open n' fd"
    proof -
      let ?e = "epoll_removeFd (?m\<lparr>m_users := AList.delete fd (m_users ?m)\<rparr>) fd"
      have eq: "n' = release (close_object ?e i) i"
        using False cl peer by (simp add: n'_def closeConnection_def Let_def n_def)
      have "fd \<notin> fst ` set (m_users (close_object ?e i))" by (auto simp: AList.delete_eq)
      moreover have "ns_epoll (close_object ?e i) fd = None" by (intro close_object_kernel) simp
      moreover have "\<not> ns_open (close_object ?e i) fd"
        using cl peer by (simp add: close_object_def http_closeConn_def Let_def close_fd_def)
      ultimately show ?thesis unfolding eq by (simp add: release_kernel)
    qed
    with False show ?thesis by (simp add: ns3_def release_kernel)
  qed
  with ev wire round idle_take [OF assms(2), of env t] show ?thesis unfolding n_def by blast
qed

text \<open>C3. A page through the whole server: an idle worker and a client whose connection was just accepted or just finished a
  request with keep-alive. The client sends a GET request for a file under the web root, for a path without a route that the interceptor
  lists leave open, within the rate limit. Then the read event, the task of the worker, the write event that the registration now
  asks for and the task that answers it put exactly the header of a 200 answer and the whole file on the wire, in both trigger
  modes and with both actor models. Afterwards a keep-alive connection is initialised and registered for the next request; any
  other is gone from \<open>m_users\<close> and epoll, and its descriptor is closed.\<close>

theorem server_serves_page:
  assumes "client ns fd i c" "c = http_init old fd ip" "idle ns w" "registered ns fd EPOLLIN" "ns_trig_mode ns = LT \<or> ns_trig_mode ns = ET"
    and "ne_recv env1 = [Received (request_text ''GET'' url ''HTTP/1.1'' hs []), Recv_would_block]"
    and "page_request (ne_fs env1) (ne_root env1) (ns_app ns) (ne_clk env1 0) ip url hs b page" "ne_file env2 = page"
    and "send_all (static_header (m_keep_alive b) url (int (length page))) (ne_send1 env2) = (OK, head, Sent k # rest)" "length page \<le> k"
  shows "\<exists>ns'. serve_request my env1 env2 ns fd w = Some (static_header (m_keep_alive b) url (int (length page)) @ page, ns') \<and>
    (if m_keep_alive b
     then registered ns' fd EPOLLIN \<and> idle ns' w \<and> (\<exists>old'. client ns' fd i (http_init old' fd ip))
     else fd \<notin> fst ` set (m_users ns') \<and> ns_epoll ns' fd = None \<and> \<not> ns_open ns' fd)"
proof -
  let ?s = "request_text ''GET'' url ''HTTP/1.1'' hs []" and ?h = "static_header (m_keep_alive b) url (int (length page))"
  have fd: "fd \<noteq> -1" using assms(1) by (simp add: client_def)
  note init = http_init_fields [OF fd, of old ip, folded assms(2)]
  define c1 where "c1 = c\<lparr>m_read_buf := ?s @ replicate (READ_BUFFER_SIZE - length ?s) NUL, m_read_idx := length ?s\<rparr>"
  have "?s \<noteq> []" by (simp add: request_text_def CRLF_def)
  then have read: "http_read (ns_trig_mode ns) c (ne_recv env1) = (True, c1)"
    unfolding c1_def assms(6) using init fd assms(5,7) by (intro read_fresh) (simp_all add: page_request_def)
  obtain c2 app where pr: "http_process (he_ssl (ne_handlers env1)) (he_json (ne_handlers env1)) (ne_fs env1) (ne_root env1)
      (run_handler (ne_handlers env1)) c1 (ns_app ns) (ne_clk env1) = Inr (True, c2, app)"
    and f: "take (m_write_idx c2) (m_write_buf c2) = ?h" "m_file_fd c2 = fs_open (ne_fs env1) (ne_root env1 @ url)"
      "m_file_offset c2 = 0" "m_file_response_size c2 = int (length page)" "m_file_bytes_sent c2 = 0" "\<not> m_header_sent c2"
    and p: "m_sockfd c2 = fd" "m_address c2 = ip" "\<not> m_is_closed c2" "m_keep_alive (m_http_base c2) = m_keep_alive b"
    using page_process [where clk = "ne_clk env1", OF fd assms(2,7) refl c1_def] by blast
  have "m_sockfd c1 = fd" using init by (simp add: c1_def)
  from read_stage [OF assms(1,3) read this pr p(1,3), of my] obtain ns1 ns2
    where 1: "handle_event my env1 ns (fd, True, False) = Inr ns1" "worker_rounds env1 ns1 w 3 = Some (Inr ns2)"
      "client ns2 fd i c2" "idle ns2 w" "registered ns2 fd EPOLLOUT" by blast
  have "m_file_fd c2 \<noteq> -1" "page \<noteq> []" using f(2) assms(7) by (auto simp: page_request_def serves_def)
  from page_write [OF f(1) this(1) f(3-6) this(2) assms(9,10)] obtain c3
    where wr: "http_write c2 (ne_file env2) (ne_send1 env2) = (OK, ?h @ page, c3)" "same_peer c2 c3" using assms(8) by blast
  from write_stage [OF 1(3,4) wr, of my] 1 assms(4) p show ?thesis by (fastforce simp: serve_request_def split: if_splits)
qed

text \<open>The server of the theory \<open>Net_Properties\<close> with its one connection.\<close>

lemma demo_net_conn:
  "ns_conns demo_net 0 = Some (Http (http_init http_conn_new 7 ''10.0.0.1''))" "m_thread_pool demo_net = ThreadPool_new 4"
  "registered demo_net 7 EPOLLIN" "ns_trig_mode demo_net = LT"
  "sv_limiter (ns_app demo_net) = rl_empty" "m_interceptorClose (sv_interceptor (ns_app demo_net))"
  "m_get_routes (sv_router (ns_app demo_net)) ''/login.html'' = None"
proof -
  let ?cfg = "ServerConfig_new 0 0"
  obtain ns where ns: "net_init (NetServer_new False ?cfg [http_port ?cfg \<mapsto> HttpConn] demo_app) ?cfg 6 [Listening 3, Listening 4, Listening 5] True = Some ns"
    and f: "m_thread_pool ns = ThreadPool_new 4" "ns_trig_mode ns = LT" "ns_epoll ns 7 = None"
      "sv_limiter (ns_app ns) = rl_empty" "m_interceptorClose (sv_interceptor (ns_app ns))"
      "m_get_routes (sv_router (ns_app ns)) ''/login.html'' = None"
    by (simp add: net_init_def Let_def listen_ports_def initEpoll_def register_listener_def addFd_full_def NetServer_new_def
        ServerConfig_new_def demo_app_def router_new_def registerGet_def)
  then have s: "demo_started = ns" by (simp add: demo_started_def Let_def)
  obtain n where n: "handle_event demo_mysql demo_net_env demo_started (3, True, False) = Inr n"
    and g: "ns_conns n 0 = Some (Http (http_init http_conn_new 7 ''10.0.0.1''))" "m_thread_pool n = m_thread_pool demo_started"
      "registered n 7 EPOLLIN" "ns_trig_mode n = ns_trig_mode demo_started" "ns_app n = ns_app demo_started"
    using demo_started_facts(2-) f(3)
    by (simp add: handle_event_def handleNewConnection_def demo_net_env_def Let_def refreshTimer_def addFd_def addFd_full_def
        registered_def flip: s)
  then have "demo_net = n" by (simp add: demo_net_def)
  with g f s show "ns_conns demo_net 0 = Some (Http (http_init http_conn_new 7 ''10.0.0.1''))" "m_thread_pool demo_net = ThreadPool_new 4"
    "registered demo_net 7 EPOLLIN" "ns_trig_mode demo_net = LT"
    "sv_limiter (ns_app demo_net) = rl_empty" "m_interceptorClose (sv_interceptor (ns_app demo_net))"
    "m_get_routes (sv_router (ns_app demo_net)) ''/login.html'' = None" by simp_all
qed

lemma demo_page:
  assumes "sv_limiter sv = rl_empty" "m_interceptorClose (sv_interceptor sv)" "m_get_routes (sv_router sv) ''/login.html'' = None"
  shows "\<exists>b. page_request demo_files ''/www'' sv 0 ''10.0.0.1'' ''/login.html'' [(''Host'', ''a'')] b ''hi'' \<and> \<not> m_keep_alive b"
proof -
  let ?hs = "[(''Host'', ''a'')]" and ?url = "''/login.html''"
  define b where "b = setHeader ((http_base_init ''10.0.0.1'')\<lparr>m_method := ''GET'', m_url := ?url, m_version := ''HTTP/1.1''\<rparr>) ''Host'' ''a''"
  have p: "word_plain ?url" "\<forall>h \<in> set ?hs. header_plain h"
    by (simp_all add: word_plain_def word_ok_def is_space_def NUL_def header_plain_def header_ok_def header_line_def CR_def)
  have e: "headers_effect ((http_base_init ''10.0.0.1'')\<lparr>m_method := ''GET'', m_url := ?url, m_version := ''HTTP/1.1''\<rparr>) ?hs = Inr b"
    by (simp add: header_effect_def b_def)
  have b: "m_content_length b = 0" "\<not> range_isValid (m_range b)" "\<not> m_keep_alive b"
    by (simp_all add: b_def setHeader_def http_base_init_def no_range_def)
  have "\<not> fst (isLimit (sv_limiter sv) ''access_ip'' ''10.0.0.1'' 0)" "\<not> shouldIntercept (sv_interceptor sv) type key" for type key
    using assms(1,2) by (simp_all add: isLimit_def rl_empty_def shouldIntercept_def isInterceptorClose_def)
  moreover have "serves demo_files (''/www'' @ ?url) ''hi''" by (simp add: serves_def demo_files_def NUL_def INT_MAX_def)
  moreover have "length (static_header False ?url 2) < WRITE_BUFFER_SIZE" by code_simp
  moreover have "length (request_text ''GET'' ?url ''HTTP/1.1'' ?hs []) \<le> READ_BUFFER_SIZE" by code_simp
  ultimately have "page_request demo_files ''/www'' sv 0 ''10.0.0.1'' ?url ?hs b ''hi''"
    unfolding page_request_def using p e b assms(3) by simp
  with b show ?thesis by blast
qed

theorem server_serves_page_witness:
  "\<exists>h ns'. serve_request demo_mysql
      (demo_net_env\<lparr>ne_recv := [Received (request_text ''GET'' ''/login.html'' ''HTTP/1.1'' [(''Host'', ''a'')] []), Recv_would_block],
                    ne_fs := demo_files, ne_root := ''/www'', ne_clk := (\<lambda>_. 0)\<rparr>)
      (demo_net_env\<lparr>ne_send1 := [Sent 1000, Sent 2], ne_file := ''hi''\<rparr>) demo_net 7 2 = Some (h @ ''hi'', ns') \<and> \<not> ns_open ns' 7"
proof -
  let ?e1 = "demo_net_env\<lparr>ne_recv := [Received (request_text ''GET'' ''/login.html'' ''HTTP/1.1'' [(''Host'', ''a'')] []), Recv_would_block],
    ne_fs := demo_files, ne_root := ''/www'', ne_clk := (\<lambda>_. 0)\<rparr>"
  let ?e2 = "demo_net_env\<lparr>ne_send1 := [Sent 1000, Sent 2], ne_file := ''hi''\<rparr>"
  obtain b where b: "page_request demo_files ''/www'' (ns_app demo_net) 0 ''10.0.0.1'' ''/login.html'' [(''Host'', ''a'')] b ''hi''" "\<not> m_keep_alive b"
    using demo_page [OF demo_net_conn(5-7)] by blast
  define h where "h = static_header (m_keep_alive b) ''/login.html'' (int (length ''hi''))"
  have "length (static_header False ''/login.html'' 2) = 119" by code_simp
  then have len: "length h = 119" using b(2) by (simp add: h_def)
  then have "h \<noteq> []" by auto
  then have send: "send_all h [Sent 1000, Sent 2] = (OK, h, [Sent 2])" using len by (intro send_all_whole) auto
  have cl: "client demo_net 7 0 (http_init http_conn_new 7 ''10.0.0.1'')"
    using demo_net_conn(1,3) demo_net_facts(2) demo_net_signal_fd
    by (auto simp: client_def http_init_fields registered_def split: option.splits)
  have idle: "idle demo_net 2" using demo_net_conn(2) by (simp add: idle_def ThreadPool_new_def numeral_2_eq_2)
  have "ne_recv ?e1 = [Received (request_text ''GET'' ''/login.html'' ''HTTP/1.1'' [(''Host'', ''a'')] []), Recv_would_block]" by simp
  moreover have "page_request (ne_fs ?e1) (ne_root ?e1) (ns_app demo_net) (ne_clk ?e1 0) ''10.0.0.1'' ''/login.html'' [(''Host'', ''a'')] b ''hi''"
    using b(1) by simp
  moreover have "ne_file ?e2 = ''hi''" "send_all h (ne_send1 ?e2) = (OK, h, Sent 2 # [])" using send by simp_all
  ultimately show ?thesis
    using server_serves_page [OF cl refl idle demo_net_conn(3) disjI1 [OF demo_net_conn(4)], of ?e1 "''/login.html''" "[(''Host'', ''a'')]" b "''hi''" ?e2
        h 2 "[]" demo_mysql] b(2)
    by (auto simp: h_def)
qed

end
