(* ===== verification/Net_Reuse.thy ===== *)
theory Net_Reuse
  imports Net_Serving
begin

text \<open>
  A descriptor that is used again. A queued task refers to its connection object, which keeps the object alive, but names the client by
  its descriptor; when the connection is closed while the task waits and the kernel gives the descriptor to the next client, the
  task acts on that client.
\<close>

text \<open>C40. A stale task closes another client: when the descriptor \<open>fd\<close> of a closed connection \<open>i\<close> now belongs to the open
  connection \<open>j\<close>, executing the read task of \<open>i\<close> that is still in the queue finds nothing to read, closes \<open>fd\<close> and so takes the new
  client out of \<open>m_users\<close> and epoll, and closes its descriptor.\<close>

theorem stale_task_closes_other:
  assumes "net_reachable my ns" "(fd, j) \<in> set (m_users ns)" "\<not> object_isClosed ns j"
    and "ns_conns ns i = Some (Http c)" "m_is_closed c" "m_sockfd c = -1"
  shows "\<exists>ns'. run_task env ns (Task_read i fd) = Inr ns' \<and> fd \<notin> fst ` set (m_users ns') \<and> ns_epoll ns' fd = None \<and>
    (\<forall>h. ns_conns ns j = Some (Http h) \<longrightarrow> \<not> ns_open ns' fd)"
proof -
  have "ns\<lparr>ns_conns := (ns_conns ns)(i \<mapsto> Http c)\<rparr> = ns" using assms(4) by (simp add: fun_upd_idem)
  then have "read_object env ns i = Inr (False, ns)"
    using assms(4,6) by (simp add: read_object_def http_read_def)
  then have "run_task env ns (Task_read i fd) = Inr (closeConnection ns fd)" by simp
  with closeConnection_gone [OF reachable_ok [OF assms(1)] assms(2,3)] show ?thesis by blast
qed

section \<open>How it comes about\<close>

lemma closeConnection_no_user: "map_of (m_users ns) fd = None \<Longrightarrow> closeConnection ns fd = ns"
  by (simp add: closeConnection_def)

lemma closeConnection_user_gone:
  assumes "server_ok ns" "client ns fd i c"
  shows "map_of (m_users (closeConnection ns fd)) fd = None"
  using closeConnection_gone [OF assms(1), of fd i] assms(2)
  by (auto simp: client_def object_isClosed_def map_of_eq_None_iff dest: map_of_SomeD)

lemma close_repeated:
  assumes "server_ok ns" "client ns fd i c" "set fds = {fd}"
  shows "foldl closeConnection ns fds = closeConnection ns fd"
proof -
  have skip: "foldl closeConnection n fs = n" if "map_of (m_users n) fd = None" "set fs \<subseteq> {fd}" for fs and n :: "('a, 'b) net_server"
    using that by (induction fs) (auto simp: closeConnection_no_user)
  obtain fs where "fds = fd # fs" "set fs \<subseteq> {fd}" using assms(3) by (cases fds) auto
  with skip [OF closeConnection_user_gone [OF assms(1,2)]] show ?thesis by simp
qed

lemma client_close:
  assumes "client ns fd i c" "distinct (map fst (m_users ns))" "i \<in> task_obj ` set (m_tasks (m_thread_pool ns))"
    "\<forall>(f, k) \<in> set (m_users ns). f = fd"
  shows "m_users (closeConnection ns fd) = []" "ns_conns (closeConnection ns fd) i = Some (Http (http_closeConn c))"
    "m_thread_pool (closeConnection ns fd) = m_thread_pool ns"
proof -
  let ?e = "epoll_removeFd (ns\<lparr>m_users := AList.delete fd (m_users ns)\<rparr>) fd"
  note cl = assms(1) [unfolded client_def]
  have ref: "referenced (close_object ?e i) i" using assms(3) by (simp add: referenced_def)
  have eq: "closeConnection ns fd = close_object ?e i" using cl ref by (simp add: closeConnection_def Let_def release_referenced)
  show "m_users (closeConnection ns fd) = []" using assms(4) by (auto simp: eq AList.delete_eq filter_empty_conv)
  show "ns_conns (closeConnection ns fd) i = Some (Http (http_closeConn c))"
    using cl close_object_conns [of ?e i "Http c"] by (simp add: eq)
  show "m_thread_pool (closeConnection ns fd) = m_thread_pool ns" by (simp add: eq)
qed

text \<open>A server in the actor model 1 with one client on descriptor 7, whose read task waits in the queue.\<close>

definition demo_reactor :: "(unit, demo_db) net_server" where
  "demo_reactor =
     (let cfg = (ServerConfig_new 0 0)\<lparr>actor_model := 1\<rparr>
      in the (net_init (NetServer_new False cfg [http_port cfg \<mapsto> HttpConn] demo_app) cfg 6 [Listening 3, Listening 4, Listening 5] True))"

lemma demo_reactor_facts:
  "net_reachable my demo_reactor" "m_users demo_reactor = []" "m_tasks (m_thread_pool demo_reactor) = []"
  "actor_model (m_config demo_reactor) = 1" "m_listen_fds demo_reactor = [5, 4, 3]" "m_signal_fd demo_reactor = 6"
  "m_listenFdToPort demo_reactor 3 = Some 9006" "ns_factories demo_reactor 9006 = Some HttpConn" "ns_epoll demo_reactor 7 = None"
  "ns_alloc demo_reactor = 0" "m_timer_manager demo_reactor = tm_init"
proof -
  let ?cfg = "(ServerConfig_new 0 0)\<lparr>actor_model := 1\<rparr>"
  obtain ns where ns: "net_init (NetServer_new False ?cfg [http_port ?cfg \<mapsto> HttpConn] demo_app) ?cfg 6 [Listening 3, Listening 4, Listening 5] True = Some ns"
    and f: "m_users ns = []" "m_tasks (m_thread_pool ns) = []" "actor_model (m_config ns) = 1" "m_listen_fds ns = [5, 4, 3]" "m_signal_fd ns = 6"
      "m_listenFdToPort ns 3 = Some 9006" "ns_factories ns 9006 = Some HttpConn" "ns_epoll ns 7 = None" "ns_alloc ns = 0" "m_timer_manager ns = tm_init"
    by (simp add: net_init_def Let_def listen_ports_def initEpoll_def register_listener_def addFd_full_def NetServer_new_def
        ServerConfig_new_def ThreadPool_new_def)
  then have "demo_reactor = ns" by (simp add: demo_reactor_def Let_def)
  with f net_reachable.start [OF ns] show "net_reachable my demo_reactor" "m_users demo_reactor = []" "m_tasks (m_thread_pool demo_reactor) = []"
    "actor_model (m_config demo_reactor) = 1" "m_listen_fds demo_reactor = [5, 4, 3]" "m_signal_fd demo_reactor = 6"
    "m_listenFdToPort demo_reactor 3 = Some 9006" "ns_factories demo_reactor 9006 = Some HttpConn" "ns_epoll demo_reactor 7 = None"
    "ns_alloc demo_reactor = 0" "m_timer_manager demo_reactor = tm_init" by simp_all
qed

text \<open>The kernel gives descriptor 7 to a client that connects.\<close>

lemma accept_seven:
  assumes "3 \<in> set (m_listen_fds ns)" "m_listenFdToPort ns 3 = Some 9006" "ns_factories ns 9006 = Some HttpConn" "map_of (m_users ns) 7 = None"
  shows "handle_event my demo_net_env ns (3, True, False) =
    Inr (refreshTimer ((addFd (ns\<lparr>ns_open := (ns_open ns)(7 := True)\<rparr>) 7 EPOLLIN)\<lparr>m_listenFdToPort := (m_listenFdToPort ns)(3 \<mapsto> 9006),
      ns_alloc := Suc (ns_alloc ns), m_users := AList.update 7 (ns_alloc ns) (m_users ns),
      ns_conns := (ns_conns ns)(ns_alloc ns \<mapsto> Http (http_init http_conn_new 7 ''10.0.0.1''))\<rparr>) 7 0)"
  using assms by (simp add: handle_event_def handleNewConnection_def demo_net_env_def createConn_def Let_def)

lemma demo_stale:
  "\<exists>(ns :: (unit, demo_db) net_server) j c. net_reachable demo_mysql ns \<and> (7, j) \<in> set (m_users ns) \<and> \<not> object_isClosed ns j \<and> Task_read 0 7 \<in> set (m_tasks (m_thread_pool ns)) \<and>
     ns_conns ns 0 = Some (Http c) \<and> m_is_closed c \<and> m_sockfd c = -1"
proof -
  note f = demo_reactor_facts
  let ?c = "http_init http_conn_new 7 ''10.0.0.1''"
  obtain s1 where s1: "handle_event demo_mysql demo_net_env demo_reactor (3, True, False) = Inr s1"
    and g: "m_users s1 = [(7, 0)]" "client s1 7 0 ?c" "m_tasks (m_thread_pool s1) = []" "actor_model (m_config s1) = 1"
      "m_timer_manager s1 = addTimer tm_init 7 (Some (Close_connection 7)) 1000000 False 0"
      "3 \<in> set (m_listen_fds s1)" "m_listenFdToPort s1 3 = Some 9006" "ns_factories s1 9006 = Some HttpConn"
    using f accept_seven [of demo_reactor demo_mysql]
    by (simp add: client_def http_init_fields addFd_def addFd_full_def refreshTimer_def)
  define s2 where "s2 = add_task s1 (Task_read 0 7)"
  have e2: "handle_event demo_mysql demo_net_env s1 (7, True, False) = Inr s2"
    using g(2,4) client_conn [OF g(2)] by (simp add: handle_event_def handleReadEvent_def client_def s2_def)
  have r2: "net_reachable demo_mysql s2"
    using net_reachable.event [OF net_reachable.event [OF f(1) s1] e2] .
  have c2: "client s2 7 0 ?c" "m_users s2 = [(7, 0)]" "Task_read 0 7 \<in> set (m_tasks (m_thread_pool s2))"
    using g by (simp_all add: client_def s2_def add_task_def addTask_def)
  show ?thesis
  proof (rule tick_timers_eq [OF reachable_ok [OF r2], of "\<lambda>_. 1000000 * ns_per_ms"])
    show "mono (\<lambda>_::nat. 1000000 * ns_per_ms)" by (simp add: mono_def)
  next
    fix m' fired
    assume t: "tick_timers (\<lambda>_. 1000000 * ns_per_ms) s2 = Some ((foldl closeConnection s2 (map (m_fd \<circ> snd) fired))\<lparr>m_timer_manager := m'\<rparr>)"
      and fired: "\<forall>t \<in> set fired. m_timer_map (m_timer_manager s2) (m_fd (snd t)) = Some t \<and> (\<exists>j::nat. expire t \<le> 1000000 * ns_per_ms)"
      and due: "\<forall>fd t. m_timer_map (m_timer_manager s2) fd = Some t \<and> expire t \<le> 1000000 * ns_per_ms \<longrightarrow> t \<in> set fired"
    define u :: "net_cb timer_ref" where "u = (0, TimerNode 7 (Some (Close_connection 7)) 1000000 False 0)"
    have u: "m_timer_map (m_timer_manager s2) = [7 \<mapsto> u]" "m_fd (snd u) = 7" "expire u \<le> 1000000 * ns_per_ms"
      using g(5) by (simp_all add: s2_def add_task_def addTimer_def tm_init_def tm_insert_def u_def TimerNode_def Let_def)
    have "m_fd (snd t) = 7" if "t \<in> set fired" for t using bspec [OF fired that] u(1) by (simp split: if_splits)
    moreover have "u \<in> set fired" using due [THEN spec [of _ 7], THEN spec [of _ u]] u(1,3) by simp
    ultimately have "set (map (m_fd \<circ> snd) fired) = {7}" using u(2) by force
    note cl = close_repeated [OF reachable_ok [OF r2] c2(1) this]
    define s3 where "s3 = (closeConnection s2 7)\<lparr>m_timer_manager := m'\<rparr>"
    have r3: "net_reachable demo_mysql s3"
      using net_reachable.timers [OF r2 _ t] by (simp add: cl s3_def mono_def)
    have "0 \<in> task_obj ` set (m_tasks (m_thread_pool s2))" using c2(3) by (force intro: image_eqI [of _ _ "Task_read 0 7"])
    then have cc: "m_users s3 = []" "ns_conns s3 0 = Some (Http (http_closeConn ?c))" "m_thread_pool s3 = m_thread_pool s2"
      using client_close [OF c2(1)] c2(2) by (simp_all add: s3_def)
    have "policy s3 = policy s2" using kept_closeConnection [of s2 s2 7] by (simp add: kept_def policy_def s3_def)
    then have "3 \<in> set (m_listen_fds s3)" "m_listenFdToPort s3 3 = Some 9006" "ns_factories s3 9006 = Some HttpConn"
      using g(6-8) by (simp_all add: policy_def s2_def add_task_def)
    from accept_seven [OF this, of demo_mysql] cc(1) obtain s4 where e4: "handle_event demo_mysql demo_net_env s3 (3, True, False) = Inr s4"
      and s4: "m_users s4 = [(7, ns_alloc s3)]" "m_thread_pool s4 = m_thread_pool s3"
        "ns_conns s4 = (ns_conns s3)(ns_alloc s3 \<mapsto> Http (http_init http_conn_new 7 ''10.0.0.1''))" by auto
    have "ns_alloc s3 \<noteq> 0" using reachable_ok [OF r3] cc(2) by (auto simp: server_ok_def core_ok_def)
    then have "ns_conns s4 0 = Some (Http (http_closeConn ?c))" using s4(3) cc(2) by simp
    moreover have "m_is_closed (http_closeConn ?c)" "m_sockfd (http_closeConn ?c) = -1"
      by (simp_all add: http_closeConn_def http_init_fields Let_def)
    moreover have "\<not> object_isClosed s4 (ns_alloc s3)" using s4(3) by (simp add: object_isClosed_def http_init_fields)
    ultimately show ?thesis
      using net_reachable.event [OF r3 e4] s4(1,2) cc(3) c2(3) by (intro exI [of _ s4] exI [of _ "ns_alloc s3"] exI [of _ "http_closeConn ?c"]) simp
  qed
qed

theorem stale_task_closes_other_witness:
  "\<exists>(ns :: (unit, demo_db) net_server) j ns'. net_reachable demo_mysql ns \<and> Task_read 0 7 \<in> set (m_tasks (m_thread_pool ns)) \<and> (7, j) \<in> set (m_users ns) \<and>
     \<not> object_isClosed ns j \<and> run_task demo_net_env ns (Task_read 0 7) = Inr ns' \<and> 7 \<notin> fst ` set (m_users ns')"
proof -
  obtain ns :: "(unit, demo_db) net_server" and j c where s: "net_reachable demo_mysql ns" "(7, j) \<in> set (m_users ns)" "\<not> object_isClosed ns j"
    "Task_read 0 7 \<in> set (m_tasks (m_thread_pool ns))" "ns_conns ns 0 = Some (Http c)" "m_is_closed c" "m_sockfd c = -1"
    using demo_stale by blast
  from stale_task_closes_other [OF s(1-3,5-7), of demo_net_env] s(1-4) show ?thesis by blast
qed

end
