(* ===== verification/Init.thy ===== *)
theory Init
  imports Net_Properties Config_Manager Async_Log Http_Serving
begin

text \<open>
  The start of the program: \<open>src/init.h\<close>, \<open>init.cpp\<close>, \<open>main.cpp\<close> and the hooks of \<open>src/config/router_config.cpp\<close>,
  \<open>rate_limiter_config.cpp\<close> and \<open>interceptor_config.cpp\<close>.

  The singletons the functions reach through \<open>getInstance()\<close> are the record \<open>modules\<close>; a hook holds a function. The file
  system, the JSON library and the database client are arguments, and so are the values of what C++ leaves uninitialised.
\<close>

section \<open>Hooks\<close>

definition setRouteRegisterFunc :: "('r \<Rightarrow> 'r) list \<Rightarrow> ('r \<Rightarrow> 'r) \<Rightarrow> ('r \<Rightarrow> 'r) list" where
  "setRouteRegisterFunc funcs func = funcs @ [func]"

definition registerAllRoutes :: "('r \<Rightarrow> 'r) list \<Rightarrow> 'r \<Rightarrow> 'r" where
  "registerAllRoutes funcs r = foldl (\<lambda>r func. func r) r funcs"

definition setRateLimiterFunc :: "(rate_limiter \<Rightarrow> rate_limiter) \<Rightarrow> (rate_limiter \<Rightarrow> rate_limiter) option" where
  "setRateLimiterFunc func = Some func"

definition registerAllRateLimiter :: "(rate_limiter \<Rightarrow> rate_limiter) option \<Rightarrow> rate_limiter \<Rightarrow> rate_limiter" where
  "registerAllRateLimiter limiter_func rl = (case limiter_func of None \<Rightarrow> rl | Some func \<Rightarrow> func rl)"

definition setInterceptorFunc :: "(interceptor \<Rightarrow> interceptor) \<Rightarrow> (interceptor \<Rightarrow> interceptor) option" where
  "setInterceptorFunc func = Some func"

definition registerAllInterceptor :: "(interceptor \<Rightarrow> interceptor) option \<Rightarrow> interceptor \<Rightarrow> interceptor" where
  "registerAllInterceptor interceptor_func it = (case interceptor_func of None \<Rightarrow> it | Some func \<Rightarrow> func it)"

section \<open>Modules\<close>

datatype config_cb = Cb_log_close

record ('wh, 'd) modules =
  md_log :: async_log
  md_config :: "config_cb config_manager"
  m_register_funcs :: "((http_handler, 'wh) router \<Rightarrow> (http_handler, 'wh) router) list"
  m_limiter_func :: "(rate_limiter \<Rightarrow> rate_limiter) option"
  m_interceptor_func :: "(interceptor \<Rightarrow> interceptor) option"
  md_app :: "('wh, 'd) app_server"
  md_factories :: conn_factories

text \<open>The singletons as their constructors leave them; the flags of the limiter and the interceptor are uninitialised.\<close>

definition modules_new :: "bool \<Rightarrow> bool \<Rightarrow> string \<Rightarrow> 'd \<Rightarrow> ('wh, 'd) modules" where
  "modules_new any_rl any_ic root d =
     \<lparr>md_log = Log_new, md_config = ConfigManager_new root, m_register_funcs = [], m_limiter_func = None, m_interceptor_func = None,
      md_app = \<lparr>sv_sessions = session_init, sv_tokens = token_init, sv_limiter = rl_empty\<lparr>m_rate_limiter_close := any_rl\<rparr>,
        sv_interceptor = \<lparr>m_typeInterceptorMap = Map.empty, m_typeWhiteListMap = Map.empty, m_typeInterceptorEnableMap = Map.empty,
          m_interceptorClose = any_ic\<rparr>, sv_router = router_new, sv_ext = (pool_new, d)\<rparr>,
      md_factories = Map.empty\<rparr>"

section \<open>init.cpp\<close>

definition initConfigManager ::
  "json_lib \<Rightarrow> (string \<Rightarrow> string option) \<Rightarrow> ('wh, 'd) modules \<Rightarrow> ('wh, 'd) modules result" where
  "initConfigManager J files md =
     rbind (config_init J (md_config md) False [] files) (\<lambda>cm.
       Inr (md\<lparr>md_config := registerCallback cm ''log_close'' Cb_log_close\<rparr>))"

definition initLog :: "bool \<Rightarrow> server_config \<Rightarrow> ('wh, 'd) modules \<Rightarrow> ('wh, 'd) modules" where
  "initLog file_ok config md = md\<lparr>md_log := log_init (md_log md) DEBUG (log_close config = 0) file_ok\<rparr>"

definition registerAllRoutesImpl :: "(http_handler, 'wh) router \<Rightarrow> (http_handler, 'wh) router" where
  "registerAllRoutesImpl rt =
     (let rt = TestController_registerRoutes rt;
          rt = UserController_registerRoutes rt
      in TestTxController_registerRoutes rt)"

definition initRouter :: "('wh, 'd) modules \<Rightarrow> ('wh, 'd) modules" where
  "initRouter md =
     (let funcs = setRouteRegisterFunc (m_register_funcs md) registerAllRoutesImpl
      in md\<lparr>m_register_funcs := funcs,
            md_app := (md_app md)\<lparr>sv_router := registerAllRoutes funcs (sv_router (md_app md))\<rparr>\<rparr>)"

definition registerAllRateLimiterImpl :: "rate_limiter \<Rightarrow> rate_limiter" where
  "registerAllRateLimiterImpl rl =
     (let rl = registerLimitRule rl ''access_ip'' 20 10 in registerLimitRule rl ''login_ip'' 5 180)"

definition initRateLimiter :: "server_config \<Rightarrow> ('wh, 'd) modules \<Rightarrow> ('wh, 'd) modules" where
  "initRateLimiter config md =
     (let rl = rl_init (sv_limiter (md_app md)) (rate_limiter_close config);
          func = setRateLimiterFunc registerAllRateLimiterImpl;
          rl = (if \<not> isLimiterClose rl then registerAllRateLimiter func rl else rl)
      in md\<lparr>m_limiter_func := func, md_app := (md_app md)\<lparr>sv_limiter := rl\<rparr>\<rparr>)"

definition open_pages :: "string list" where
  "open_pages = [''/login.html'', ''/register'', ''/index.html'', ''/'', ''/logo.jpg'', ''/api/hello'', ''/login'', ''/welcome.html'',
     ''/video.mp4'', ''/test_transaction.html'', ''/api/tx_test'', ''/ws_test.html'']"

definition banned_pages :: "string list" where
  "banned_pages = [''/forbidden'', ''/hack.html'', ''/internal/debug'', ''/admin/deleteAll'', ''/api/hack'', ''/shutdown'']"

definition registerAllInterceptorImpl :: "interceptor \<Rightarrow> interceptor" where
  "registerAllInterceptorImpl it =
     (let it = registerTypeRule it ''login_unrequired'' open_pages True
      in registerTypeRule it ''uri_blacklist'' banned_pages False)"

definition initInterceptor :: "server_config \<Rightarrow> ('wh, 'd) modules \<Rightarrow> ('wh, 'd) modules" where
  "initInterceptor config md =
     (let it = interceptor_init (sv_interceptor (md_app md)) (interceptor_close config);
          func = setInterceptorFunc registerAllInterceptorImpl;
          it = (if \<not> isInterceptorClose it then registerAllInterceptor func it else it)
      in md\<lparr>m_interceptor_func := func, md_app := (md_app md)\<lparr>sv_interceptor := it\<rparr>\<rparr>)"

definition initSqlConnPool ::
  "'d mysql \<Rightarrow> server_config \<Rightarrow> string \<Rightarrow> string \<Rightarrow> string \<Rightarrow> int \<Rightarrow> ('wh, 'd) modules \<Rightarrow> ('wh, 'd) modules result" where
  "initSqlConnPool my config db_username db_password db_name db_port md =
     (case pool_init my (fst (sv_ext (md_app md))) ''localhost'' db_port db_username db_password db_name (conn_num config)
             (snd (sv_ext (md_app md))) of
        (r, p, d) \<Rightarrow> rbind r (\<lambda>_. Inr (md\<lparr>md_app := (md_app md)\<lparr>sv_ext := (p, d)\<rparr>\<rparr>)))"

definition initConnFactory :: "server_config \<Rightarrow> ('wh, 'd) modules \<Rightarrow> ('wh, 'd) modules" where
  "initConnFactory config md =
     (let fs = registerFactory (md_factories md) (http_port config) HttpConn;
          fs = registerFactory fs (test_port config) HttpConn
      in md\<lparr>md_factories := registerFactory fs (websocket_port config) WebSocketConn\<rparr>)"

definition initAllModules ::
  "json_lib \<Rightarrow> 'd mysql \<Rightarrow> (string \<Rightarrow> string option) \<Rightarrow> bool \<Rightarrow> server_config \<Rightarrow> string \<Rightarrow> string \<Rightarrow> string \<Rightarrow> int \<Rightarrow>
   ('wh, 'd) modules \<Rightarrow> ('wh, 'd) modules result" where
  "initAllModules J my files file_ok config db_username db_password db_name db_port md =
     (let md = initLog file_ok config md
      in rbind (initConfigManager J files md) (\<lambda>md.
         let md = initRouter md;
             md = initRateLimiter config md;
             md = initInterceptor config md
         in rbind (initSqlConnPool my config db_username db_password db_name db_port md) (\<lambda>md.
            Inr (initConnFactory config md))))"

section \<open>main.cpp\<close>

text \<open>Up to the event loop; \<open>None\<close> is an exit inside \<open>NetServer::init\<close>.\<close>

definition main_start ::
  "json_lib \<Rightarrow> 'd mysql \<Rightarrow> (string \<Rightarrow> string option) \<Rightarrow> bool \<Rightarrow> string list \<Rightarrow> int \<Rightarrow> int \<Rightarrow> bool \<Rightarrow> int \<Rightarrow> listen_outcome list \<Rightarrow> bool \<Rightarrow>
   ('wh, 'd) modules \<Rightarrow> ('wh, 'd) net_server option result" where
  "main_start J my files file_ok argv any_log_write any_opt_linger any_called signal_fd outs epoll_ok md =
     rbind (parseArgs argv (ServerConfig_new any_log_write any_opt_linger)) (\<lambda>config.
     rbind (initAllModules J my files file_ok config ''webuser'' ''webpwd'' ''littlewebserver'' 3306 md) (\<lambda>md.
     Inr (net_init (NetServer_new any_called (ServerConfig_new any_log_write any_opt_linger) (md_factories md) (md_app md))
            config signal_fd outs epoll_ok)))"

section \<open>The state after the start\<close>

lemma initAllModules_state:
  fixes md' :: "('wh, 'd) modules"
  assumes "initAllModules J my files file_ok config u p n port (modules_new any_rl any_ic root d) = Inr md'"
  shows "sv_interceptor (md_app md') = sv_interceptor (md_app (initInterceptor config (modules_new any_rl any_ic root d :: ('wh, 'd) modules)))"
    "sv_limiter (md_app md') = sv_limiter (md_app (initRateLimiter config (modules_new any_rl any_ic root d :: ('wh, 'd) modules)))"
    "sv_router (md_app md') = registerAllRoutesImpl router_new"
    "md_factories md' = Map.empty(http_port config \<mapsto> HttpConn, test_port config \<mapsto> HttpConn, websocket_port config \<mapsto> WebSocketConn)"
    "sv_tokens (md_app md') = token_init" "sv_sessions (md_app md') = session_init"
  using assms
  by (auto simp: initAllModules_def initLog_def initConfigManager_def initRouter_def initRateLimiter_def initInterceptor_def
      initSqlConnPool_def initConnFactory_def modules_new_def registerAllRoutes_def setRouteRegisterFunc_def registerFactory_def Let_def
      elim!: rbind_eq_InrE split: prod.splits)

lemma init_rules:
  assumes "\<not> interceptor_close config"
  shows "shouldIntercept (sv_interceptor (md_app (initInterceptor config (modules_new any_rl any_ic root d)))) ''login_unrequired'' url \<longleftrightarrow> url \<notin> set open_pages"
    "shouldIntercept (sv_interceptor (md_app (initInterceptor config (modules_new any_rl any_ic root d)))) ''uri_blacklist'' url \<longleftrightarrow> url \<in> set banned_pages"
  using assms
  by (simp_all add: initInterceptor_def modules_new_def interceptor_init_def isInterceptorClose_def registerAllInterceptor_def
      setInterceptorFunc_def registerAllInterceptorImpl_def registerTypeRule_def shouldIntercept_def List.member_iff Let_def)

text \<open>What a request without a valid token is answered under that policy.\<close>

definition policy_answer ::
  "openssl \<Rightarrow> json_lib \<Rightarrow> ('h, 'wh, 'x) handler_sem \<Rightarrow> http_conn \<Rightarrow> ('h, 'wh, 'x) server \<Rightarrow> session_manager \<Rightarrow> (http_conn \<times> ('h, 'wh, 'x) server) result" where
  "policy_answer ssl J run c sv sm =
     (let url = m_url (m_http_base c); ka = m_keep_alive (m_http_base c)
      in if url \<in> set banned_pages
         then rbind (sendRESTfulJson J ka (m_http_response c) 403 forbidden_message []) (\<lambda>res. Inr (c\<lparr>m_http_response := res\<rparr>, sv))
         else if url \<notin> set open_pages
         then rbind (sendRESTfulJson J ka (m_http_response c) 401 unauthenticated_message []) (\<lambda>res.
                Inr (c\<lparr>m_http_response := res\<rparr>, sv\<lparr>sv_sessions := sm\<rparr>))
         else rbind (dispatch run (sv_router sv) (m_method (m_http_base c)) url (m_http_base c) (m_http_response c) (sv\<lparr>sv_sessions := sm\<rparr>))
                (\<lambda>(res, sv). Inr (c\<lparr>m_http_response := res\<rparr>, sv)))"

lemma answer_by_policy:
  assumes "\<And>url. shouldIntercept (sv_interceptor sv) ''login_unrequired'' url \<longleftrightarrow> url \<notin> set open_pages"
    "\<And>url. shouldIntercept (sv_interceptor sv) ''uri_blacklist'' url \<longleftrightarrow> url \<in> set banned_pages"
    and "\<not> isTokenValid ssl (sv_tokens sv) (getToken (m_http_base c))" "\<not> m_authenticated (m_http_base c)"
  shows "\<exists>sm. m_sessions sm = m_sessions (sv_sessions sv) \<and> answerRequest ssl J run c sv t1 t2 t3 = policy_answer ssl J run c sv sm"
proof -
  obtain sm where sm: "parseAuthContext ssl (m_http_base c) (sv_sessions sv) (sv_tokens sv) t1 t2 t3 =
      (m_http_base c, sm, sv_tokens sv)" "m_sessions sm = m_sessions (sv_sessions sv)"
    using parseAuthContext_refused [OF assms(3)] by blast
  with assms(1,2,4) show ?thesis
    by (intro exI [of _ sm]) (simp add: answerRequest_def policy_answer_def Let_def)
qed

text \<open>The access policy of \<open>init.cpp\<close>, for any server that still has the interceptor of the start.\<close>

lemma init_policy:
  fixes md' :: "('wh, 'd) modules"
  assumes "initAllModules J my files file_ok config u p n port (modules_new any_rl any_ic root d) = Inr md'"
    and "\<not> interceptor_close config" "sv_interceptor sv = sv_interceptor (md_app md')"
    and "\<not> isTokenValid ssl (sv_tokens sv) (getToken (m_http_base c))" "\<not> m_authenticated (m_http_base c)"
  shows "\<exists>sm. m_sessions sm = m_sessions (sv_sessions sv) \<and> answerRequest ssl J run c sv t1 t2 t3 = policy_answer ssl J run c sv sm"
proof (rule answer_by_policy [OF _ _ assms(4,5)])
  show "shouldIntercept (sv_interceptor sv) ''login_unrequired'' url \<longleftrightarrow> url \<notin> set open_pages"
    "shouldIntercept (sv_interceptor sv) ''uri_blacklist'' url \<longleftrightarrow> url \<in> set banned_pages" for url
    using init_rules [OF assms(2), of any_rl any_ic root d url] by (simp_all add: assms(3) initAllModules_state(1) [OF assms(1)])
qed

definition demo_modules :: "(unit, demo_db) modules" where
  "demo_modules = projr (initAllModules demo_json demo_mysql (\<lambda>_. None) True (ServerConfig_new 0 0) ''webuser'' ''webpwd'' ''littlewebserver'' 3306
     (modules_new False False ''/srv'' demo_db0))"

lemma demo_modules_init:
  "initAllModules demo_json demo_mysql (\<lambda>_. None) True (ServerConfig_new 0 0) ''webuser'' ''webpwd'' ''littlewebserver'' 3306
     (modules_new False False ''/srv'' demo_db0) = Inr demo_modules"
  "m_conn_queue (fst (sv_ext (md_app demo_modules))) = [1, 2, 3, 4]"
proof -
  obtain p d where p: "pool_init demo_mysql pool_new ''localhost'' 3306 ''webuser'' ''webpwd'' ''littlewebserver'' 4 demo_db0 = (Inr (), p, d)"
    and q: "m_conn_queue p = [1, 2, 3, 4]"
    by (simp add: pool_init_def demo_mysql_def demo_db0_def pool_new_def eval_nat_numeral)
  then obtain md :: "(unit, demo_db) modules" where md: "initAllModules demo_json demo_mysql (\<lambda>_. None) True (ServerConfig_new 0 0)
      ''webuser'' ''webpwd'' ''littlewebserver'' 3306 (modules_new False False ''/srv'' demo_db0) = Inr md"
    and x: "sv_ext (md_app md) = (p, d)"
    by (auto simp: initAllModules_def initLog_def initConfigManager_def config_init_def loadFromFile_def initRouter_def initRateLimiter_def
        initInterceptor_def initSqlConnPool_def initConnFactory_def modules_new_def ServerConfig_new_def Let_def)
  then have "demo_modules = md" by (simp add: demo_modules_def)
  with md x q show "initAllModules demo_json demo_mysql (\<lambda>_. None) True (ServerConfig_new 0 0) ''webuser'' ''webpwd'' ''littlewebserver'' 3306
     (modules_new False False ''/srv'' demo_db0) = Inr demo_modules" "m_conn_queue (fst (sv_ext (md_app demo_modules))) = [1, 2, 3, 4]"
    by simp_all
qed

text \<open>The program as \<open>main\<close> starts it is one of the reachable servers.\<close>

lemma main_reachable:
  "main_start J my files file_ok argv lw ol called sfd outs ok md = Inr (Some ns) \<Longrightarrow> net_reachable my ns"
  by (auto simp: main_start_def elim!: rbind_eq_InrE intro: net_reachable.start)

end
