(* ===== verification/Started.thy ===== *)
theory Started
  imports Init Net_Policy Net_Serving
begin

text \<open>
  The program as \<open>main\<close> starts it, running: the access policy and the request limit of \<open>init.cpp\<close> hold in every state of every
  run, and accepting a connection never fails for want of a factory.
\<close>

section \<open>The start\<close>

lemma main_start_state:
  fixes ns :: "('wh, 'd) net_server"
  assumes "main_start J my files file_ok argv lw ol called sfd outs ok (modules_new any_rl any_ic root d) = Inr (Some ns)"
  shows "steady ns" "net_reachable my ns"
    "sv_interceptor (ns_app ns) = sv_interceptor (md_app (initInterceptor (net_server.m_config ns) (modules_new any_rl any_ic root d :: ('wh, 'd) modules)))"
    "sv_limiter (ns_app ns) = sv_limiter (md_app (initRateLimiter (net_server.m_config ns) (modules_new any_rl any_ic root d :: ('wh, 'd) modules)))"
proof -
  obtain config md' c0 where md: "initAllModules J my files file_ok config ''webuser'' ''webpwd'' ''littlewebserver'' 3306
      (modules_new any_rl any_ic root d) = Inr md'"
    and ns: "net_init (NetServer_new called c0 (md_factories md') (md_app md')) config sfd outs ok = Some ns"
    using assms by (auto simp: main_start_def elim!: rbind_eq_InrE)
  note m = initAllModules_state [OF md] and n = net_init_state [OF ns]
  show "net_reachable my ns" using ns by (rule net_reachable.start)
  show "sv_interceptor (ns_app ns) = sv_interceptor (md_app (initInterceptor (net_server.m_config ns) (modules_new any_rl any_ic root d :: ('wh, 'd) modules)))"
    "sv_limiter (ns_app ns) = sv_limiter (md_app (initRateLimiter (net_server.m_config ns) (modules_new any_rl any_ic root d :: ('wh, 'd) modules)))"
    using m(1,2) n(1,3) by simp_all
  have "m_ws_routes (sv_router (ns_app ns)) = Map.empty"
    using n(1) m(3) by (simp add: registerAllRoutesImpl_def TestController_registerRoutes_def UserController_registerRoutes_def
        TestTxController_registerRoutes_def registerGet_def registerPost_def router_new_def Let_def)
  moreover have "\<exists>k. ns_factories ns p = Some k" if "p \<in> set (listen_ports config)" for p
    using that n(2) m(4) by (auto simp: listen_ports_def)
  ultimately show "steady ns" using n(4) unfolding steady_def listening_def by (metis domD ranI subsetD)
qed

section \<open>Properties\<close>

text \<open>C5. The access policy: in every state of every run of a server started with the interceptor on, a request without a valid token
  is answered with the 403 envelope exactly when its path is one of the six banned ones, otherwise with the 401 envelope exactly
  when it is none of the twelve open ones, and only otherwise handed to the router; in the first two cases no handler runs and
  the state stays as it is but for the timers of the session table.\<close>

theorem access_policy:
  fixes ns0 :: "('wh, 'd) net_server"
  assumes "main_start J my files file_ok argv lw ol called sfd outs ok (modules_new any_rl any_ic root d) = Inr (Some ns0)"
    and "\<not> interceptor_close (net_server.m_config ns0)" "net_run obs my ns0 tr ns"
    and "\<not> isTokenValid ssl (sv_tokens (ns_app ns)) (getToken (m_http_base c))" "\<not> m_authenticated (m_http_base c)"
  shows "\<exists>sm. m_sessions sm = m_sessions (sv_sessions (ns_app ns)) \<and>
    answerRequest ssl J' run c (ns_app ns) t1 t2 t3 =
      (let url = m_url (m_http_base c); ka = m_keep_alive (m_http_base c); sv = ns_app ns
       in if url \<in> set banned_pages
          then rbind (sendRESTfulJson J' ka (m_http_response c) 403 forbidden_message []) (\<lambda>res. Inr (c\<lparr>m_http_response := res\<rparr>, sv))
          else if url \<notin> set open_pages
          then rbind (sendRESTfulJson J' ka (m_http_response c) 401 unauthenticated_message []) (\<lambda>res.
                 Inr (c\<lparr>m_http_response := res\<rparr>, sv\<lparr>sv_sessions := sm\<rparr>))
          else rbind (dispatch run (sv_router sv) (m_method (m_http_base c)) url (m_http_base c) (m_http_response c) (sv\<lparr>sv_sessions := sm\<rparr>))
                 (\<lambda>(res, sv). Inr (c\<lparr>m_http_response := res\<rparr>, sv)))"
proof -
  note st = main_start_state [OF assms(1)]
  have "policy ns = policy ns0" using unobserved.run_policy [OF assms(3) st(2,1)] by simp
  then have ic: "sv_interceptor (ns_app ns) = sv_interceptor (md_app (initInterceptor (net_server.m_config ns0)
      (modules_new any_rl any_ic root d :: ('wh, 'd) modules)))" using st(3) by (simp add: policy_def)
  have "shouldIntercept (sv_interceptor (ns_app ns)) ''login_unrequired'' url \<longleftrightarrow> url \<notin> set open_pages"
    "shouldIntercept (sv_interceptor (ns_app ns)) ''uri_blacklist'' url \<longleftrightarrow> url \<in> set banned_pages" for url
    unfolding ic by (rule init_rules [OF assms(2)])+
  from answer_by_policy [OF this assms(4,5), of J' run t1 t2 t3] show ?thesis by (simp add: policy_answer_def Let_def)
qed

text \<open>C21. Accepting a connection is total: in every state of every run of the program as \<open>main\<close> starts it, whatever the ports were and
  whichever of them could be bound, the event of a listening descriptor is handled without dereferencing a null pointer.\<close>

theorem accept_total:
  assumes "main_start J my files file_ok argv lw ol called sfd outs ok (modules_new any_rl any_ic root d) = Inr (Some ns0)"
    and "net_run obs my ns0 tr ns" "fd \<in> set (m_listen_fds ns)"
  shows "\<exists>ns'. handle_event my env ns (fd, i, o') = Inr ns' \<and>
    (fd < 0 \<or> fst (ne_accept env) < 0 \<or> (\<exists>j. map_of (m_users ns') (fst (ne_accept env)) = Some j \<and> ns_conns ns' j \<noteq> None))"
proof -
  note st = main_start_state [OF assms(1)]
  have "steady ns" using unobserved.run_policy [OF assms(2) st(2,1)] by blast
  then obtain p k where p: "m_listenFdToPort ns fd = Some p" "ns_factories ns p = Some k" using assms(3) unfolding steady_def by blast
  obtain cfd addr where acc: "ne_accept env = (cfd, addr)" by (cases "ne_accept env")
  obtain c where "createConn (ns_factories ns) p = Some c" using p(2) by (simp add: createConn_def)
  with p acc assms(3) show ?thesis
    by (auto simp: handle_event_def handleNewConnection_def Let_def refreshTimer_def update_conv split: option.splits)
qed

lemma started_rules:
  fixes ns0 :: "('wh, 'd) net_server"
  assumes "main_start J my files file_ok argv lw ol called sfd outs ok (modules_new any_rl any_ic root d) = Inr (Some ns0)"
    and "\<not> rate_limiter_close (net_server.m_config ns0)"
  shows "rl_rule (limiter ns0) (''access_ip'', ip) = Some (20, 10)" "rl_rule (limiter ns0) (''login_ip'', ip) = Some (5, 180)"
    "rl_view (limiter ns0) (ty, ip) = None"
  using assms(2) main_start_state(4) [OF assms(1)]
  by (simp_all add: limiter_def initRateLimiter_def rl_init_def modules_new_def isLimiterClose_def registerAllRateLimiter_def
      setRateLimiterFunc_def registerAllRateLimiterImpl_def registerLimitRule_def rl_empty_def rl_rule_def rl_view_def Let_def)



section \<open>A run\<close>

text \<open>The program started without arguments, on descriptors 3, 4 and 5.\<close>

definition demo_main :: "(unit, demo_db) net_server" where
  "demo_main = the (projr (main_start demo_json demo_mysql (\<lambda>_. None) True [] 0 0 False 6 [Listening 3, Listening 4, Listening 5] True
     (modules_new False False ''/srv'' demo_db0)))"

lemma demo_main_facts:
  "main_start demo_json demo_mysql (\<lambda>_. None) True [] 0 0 False 6 [Listening 3, Listening 4, Listening 5] True
     (modules_new False False ''/srv'' demo_db0) = Inr (Some demo_main)"
  "m_users demo_main = []" "m_thread_pool demo_main = ThreadPool_new 4" "ns_trig_mode demo_main = LT" "m_listen_fds demo_main = [5, 4, 3]"
  "m_signal_fd demo_main = 6" "m_listenFdToPort demo_main 3 = Some 9006" "ns_factories demo_main 9006 = Some HttpConn"
  "ns_epoll demo_main 7 = None" "ns_alloc demo_main = 0" "net_server.m_config demo_main = ServerConfig_new 0 0"
  "ns_app demo_main = (md_app demo_modules)\<lparr>sv_router := registerGet (sv_router (md_app demo_modules)) ''/api/info'' (H_info (ServerConfig_new 0 0))\<rparr>"
proof -
  let ?cfg = "ServerConfig_new 0 0"
  obtain ns where ns: "net_init (NetServer_new False ?cfg (md_factories demo_modules) (md_app demo_modules)) ?cfg 6
      [Listening 3, Listening 4, Listening 5] True = Some ns"
    and f: "m_users ns = []" "m_thread_pool ns = ThreadPool_new 4" "ns_trig_mode ns = LT" "m_listen_fds ns = [5, 4, 3]"
      "m_signal_fd ns = 6" "m_listenFdToPort ns 3 = Some 9006" "ns_factories ns = md_factories demo_modules" "ns_epoll ns 7 = None" "ns_alloc ns = 0"
    by (simp add: net_init_def Let_def listen_ports_def initEpoll_def register_listener_def addFd_full_def NetServer_new_def ServerConfig_new_def)
  have "main_start demo_json demo_mysql (\<lambda>_. None) True [] 0 0 False 6 [Listening 3, Listening 4, Listening 5] True
     (modules_new False False ''/srv'' demo_db0) = Inr (Some ns)"
    using ns demo_modules_init(1) by (simp add: main_start_def parseArgs_def)
  moreover from this have "demo_main = ns" by (simp add: demo_main_def)
  moreover have "md_factories demo_modules 9006 = Some HttpConn"
    using initAllModules_state(4) [OF demo_modules_init(1)] by (simp add: ServerConfig_new_def)
  ultimately show "main_start demo_json demo_mysql (\<lambda>_. None) True [] 0 0 False 6 [Listening 3, Listening 4, Listening 5] True
     (modules_new False False ''/srv'' demo_db0) = Inr (Some demo_main)"
    "m_users demo_main = []" "m_thread_pool demo_main = ThreadPool_new 4" "ns_trig_mode demo_main = LT" "m_listen_fds demo_main = [5, 4, 3]"
    "m_signal_fd demo_main = 6" "m_listenFdToPort demo_main 3 = Some 9006" "ns_factories demo_main 9006 = Some HttpConn"
    "ns_epoll demo_main 7 = None" "ns_alloc demo_main = 0" "net_server.m_config demo_main = ServerConfig_new 0 0"
    "ns_app demo_main = (md_app demo_modules)\<lparr>sv_router := registerGet (sv_router (md_app demo_modules)) ''/api/info'' (H_info (ServerConfig_new 0 0))\<rparr>"
    using f net_init_state(1,3) [OF ns] by simp_all
qed

theorem access_policy_witness:
  "\<exists>c' sv'. answerRequest demo_ssl demo_json (\<lambda>h b r s. Inl Null_dereference) demo_secret (ns_app demo_main) 1 2 3 = Inr (c', sv') \<and>
     sv_router sv' = sv_router (ns_app demo_main)"
proof -
  have base: "m_http_base demo_secret = (http_base_init [])\<lparr>m_method := ''GET'', m_url := ''/secret''\<rparr>"
    by (simp add: demo_secret_def)
  have tok: "\<not> isTokenValid demo_ssl (sv_tokens (ns_app demo_main)) (getToken (m_http_base demo_secret))"
    "\<not> m_authenticated (m_http_base demo_secret)" "m_url (m_http_base demo_secret) = ''/secret''"
    by (simp_all add: base getToken_def getHeader_def http_base_init_def isTokenValid_def)
  have "\<not> interceptor_close (net_server.m_config demo_main)" by (simp add: demo_main_facts(11) ServerConfig_new_def)
  from access_policy [OF demo_main_facts(1) this net_run.start tok(1,2), of demo_json "\<lambda>h b r s. Inl Null_dereference" 1 2 3] tok(3)
  show ?thesis
    by (auto simp: open_pages_def banned_pages_def Let_def sendRESTfulJson_def buildRESTfulJson_def sendJson_def demo_json_def less_char_def)
qed

theorem accept_total_witness:
  "\<exists>ns' j. handle_event demo_mysql demo_net_env demo_main (3, True, False) = Inr ns' \<and> map_of (m_users ns') 7 = Some j"
  using accept_total [OF demo_main_facts(1) net_run.start, of 3 demo_net_env True False] demo_main_facts(5)
  by (auto simp: demo_net_env_def)

text \<open>A client connects, and worker 2 processes the first byte it sends.\<close>

lemma demo_accept:
  "\<exists>ns. handle_event demo_mysql demo_net_env demo_main (3, True, False) = Inr ns \<and>
     client ns 7 0 (http_init http_conn_new 7 ''10.0.0.1'') \<and> idle ns 2 \<and> ns_trig_mode ns = LT \<and> ns_app ns = ns_app demo_main"
  using demo_main_facts(2-11)
  by (simp add: handle_event_def handleNewConnection_def demo_net_env_def Let_def refreshTimer_def addFd_def addFd_full_def createConn_def
      client_def idle_def ThreadPool_new_def numeral_2_eq_2 http_init_fields)

lemma partial_process:
  assumes "c1 = (http_init old fd ip)\<lparr>m_read_buf := ''G'' @ replicate (READ_BUFFER_SIZE - 1) NUL, m_read_idx := 1\<rparr>" "fd \<noteq> -1"
    and "\<not> fst (isLimit (sv_limiter sv) ''access_ip'' ip (clk 0))"
  shows "\<exists>sv'. http_process ssl J fs root run c1 sv clk = Inr (False, c1, sv')"
proof -
  have "c_str (replicate n NUL) = []" for n by (cases n) (simp_all add: c_str_def)
  then have "c_str (''G'' @ replicate (READ_BUFFER_SIZE - 1) NUL) = ''G''" by (subst c_str_append) (simp_all add: NUL_def)
  moreover have "NUL \<in> set (''G'' @ replicate (READ_BUFFER_SIZE - 1) NUL)" by (simp add: READ_BUFFER_SIZE_def)
  ultimately have "strstr (''G'' @ replicate (READ_BUFFER_SIZE - 1) NUL) CRLF = Inr None" by (simp add: strstr_def CRLF_def)
  then have "parseHttpRequest J c1 = Inr (False, c1)"
    using assms(1,2) by (simp add: parseHttpRequest_def parse_line_state_def http_init_fields)
  with assms show ?thesis
    by (cases "isLimit (sv_limiter sv) ''access_ip'' ip (clk 0)") (simp add: http_process_def http_init_fields)
qed

lemma demo_run:
  "\<exists>ns b. net_run access_call demo_mysql demo_main [(''10.0.0.1'', 5, b)] ns"
proof -
  let ?env = "demo_net_env\<lparr>ne_recv := [Received ''G'', Recv_would_block], ne_clk := (\<lambda>_. 5)\<rparr>"
  obtain ns where acc: "handle_event demo_mysql demo_net_env demo_main (3, True, False) = Inr ns"
    and cl: "client ns 7 0 (http_init http_conn_new 7 ''10.0.0.1'')" and idle: "idle ns 2" and lt: "ns_trig_mode ns = LT"
    using demo_accept by blast
  have run: "net_run access_call demo_mysql demo_main [] ns" using net_run.event [OF net_run.start acc] .
  have limit: "\<not> fst (isLimit (sv_limiter (ns_app ns)) ''access_ip'' ''10.0.0.1'' 5)"
  proof -
    have "limiter ns = limiter demo_main"
      using kept_event [OF acc main_start_state(1) [OF demo_main_facts(1)]] by (simp add: kept_def)
    moreover have "rl_view (limiter demo_main) (''access_ip'', ip) = None" for ip
      using main_start_state(4) [OF demo_main_facts(1)]
      by (simp add: limiter_def initRateLimiter_def rl_init_def modules_new_def isLimiterClose_def registerAllRateLimiter_def
        setRateLimiterFunc_def registerAllRateLimiterImpl_def registerLimitRule_def rl_empty_def rl_view_def Let_def)
    ultimately show ?thesis by (auto simp: isLimit_def rl_view_def limiter_def split: option.splits)
  qed
  define c where "c = http_init http_conn_new 7 ''10.0.0.1''"
  define c1 where "c1 = c\<lparr>m_read_buf := ''G'' @ replicate (READ_BUFFER_SIZE - 1) NUL, m_read_idx := 1\<rparr>"
  have read: "http_read LT c [Received ''G'', Recv_would_block] = (True, c1)"
    unfolding c_def c1_def using read_fresh [of "http_init http_conn_new 7 ''10.0.0.1''" "''G''" LT]
    by (simp add: http_init_fields READ_BUFFER_SIZE_def)
  have p: "\<exists>sv'. http_process (he_ssl (ne_handlers ?env)) (he_json (ne_handlers ?env)) (ne_fs ?env) (ne_root ?env)
      (run_handler (ne_handlers ?env)) c1 (ns_app ns) (ne_clk ?env) = Inr (False, c1, sv')"
    using partial_process [OF c1_def [unfolded c_def], of "ns_app ns" "ne_clk ?env" "he_ssl (ne_handlers ?env)" "he_json (ne_handlers ?env)"
        "ne_fs ?env" "ne_root ?env" "run_handler (ne_handlers ?env)"] limit by simp
  have "\<exists>n. after_read ?env (ns\<lparr>m_thread_pool := p, ns_conns := (ns_conns ns)(0 \<mapsto> Http c1)\<rparr>) 0 7 = Inr n" for p
    using p by (auto simp: after_read_def process_object_def Let_def)
  with read_run [where env = ?env, OF run cl [folded c_def] idle] read lt obtain p ns'
    where "net_run access_call demo_mysql demo_main ([] @ access_call ?env (ns\<lparr>m_thread_pool := p, ns_conns := (ns_conns ns)(0 \<mapsto> Http c1)\<rparr>) 0) ns'"
    by fastforce
  moreover have "access_call ?env (ns\<lparr>m_thread_pool := p, ns_conns := (ns_conns ns)(0 \<mapsto> Http c1)\<rparr>) 0 =
      [(''10.0.0.1'', 5, fst (isLimit (limiter ns) ''access_ip'' ''10.0.0.1'' 5))]"
    by (simp add: access_call_def limiter_def c1_def c_def http_init_fields)
  ultimately show ?thesis by auto
qed


text \<open>The same client tries to log in, with no name and no password.\<close>

lemma process_returns:
  assumes "parseHttpRequest J c = Inr (True, c1)" "isLimit (sv_limiter sv) ''access_ip'' (m_address c) (clk 0) = (False, rl)"
    and "answered_by ssl c1 (sv\<lparr>sv_limiter := rl\<rparr>) (clk 1) (clk 2) (clk 3) = Some (h, b)"
    and "\<And>sm tm. \<exists>r. run h b (m_http_response c1) (sv\<lparr>sv_limiter := rl, sv_sessions := sm, sv_tokens := tm\<rparr>) = Inr r"
  shows "\<exists>r. http_process ssl J fs root run c sv clk = Inr r"
proof -
  obtain b' sm tm where a: "parseAuthContext ssl (m_http_base c1) (sv_sessions sv) (sv_tokens sv) (clk 1) (clk 2) (clk 3) = (b', sm, tm)"
    by (metis prod_cases3)
  obtain res sv' where r: "run h b (m_http_response c1) (sv\<lparr>sv_limiter := rl, sv_sessions := sm, sv_tokens := tm\<rparr>) = Inr (res, sv')"
    using assms(4) by fastforce
  have "\<exists>x. answerRequest ssl J run c1 (sv\<lparr>sv_limiter := rl\<rparr>) (clk 1) (clk 2) (clk 3) = Inr x"
    using assms(3) a r by (auto simp: answered_by_def answerRequest_def dispatch_def Let_def split: if_splits)
  then show ?thesis
    using assms(1,2) by (auto simp: http_process_def handleRequest_def split: prod.splits)
qed

lemma parseAuthContext_ip: "parseAuthContext ssl b sm tm t1 t2 t3 = (b', sm', tm') \<Longrightarrow> m_ip b' = m_ip b"
  by (auto simp: parseAuthContext_def setUsername_def Let_def split: if_splits prod.splits)

lemma parseAuthContext_form: "parseAuthContext ssl b sm tm t1 t2 t3 = (b', sm', tm') \<Longrightarrow> m_form_data b' = m_form_data b"
  by (auto simp: parseAuthContext_def setUsername_def Let_def split: if_splits prod.splits)

definition login_text :: string where
  "login_text = request_text ''POST'' ''/login'' ''HTTP/1.1'' [] []"

lemma login_parsed:
  assumes "c = http_init old fd ip" "fd \<noteq> -1"
    and "c1 = c\<lparr>m_read_buf := login_text @ replicate (READ_BUFFER_SIZE - length login_text) NUL, m_read_idx := length login_text\<rparr>"
  shows "\<exists>c2. parseHttpRequest J c1 = Inr (True, c2) \<and> m_method (m_http_base c2) = ''POST'' \<and> m_url (m_http_base c2) = ''/login'' \<and>
    m_ip (m_http_base c2) = ip \<and> m_form_data (m_http_base c2) = Map.empty"
proof -
  note init = http_init_fields [OF assms(2), of old ip, folded assms(1)]
  have w: "word_plain ''POST''" "word_plain ''/login''" "word_plain ''HTTP/1.1''" by (simp_all add: word_plain_def word_ok_def is_space_def NUL_def)
  have hold: "holds (m_read_buf c1) (m_read_idx c1) (request_text ''POST'' ''/login'' ''HTTP/1.1'' [] [] @ [])"
    by (simp add: assms(3) holdsI login_text_def)
  have "\<exists>buf b'. parseHttpRequest J c1 = Inr (True, c1\<lparr>m_http_base := b', m_read_buf := buf, m_read_idx := length ([]::string),
      m_parse_state := PARSE_DONE\<rparr>) \<and>
    parseBody J ((http_base_init ip)\<lparr>m_method := ''POST'', m_url := ''/login'', m_version := ''HTTP/1.1''\<rparr>) [] (int (length ([]::string))) = Inr b' \<and>
    holds buf (length ([]::string)) []"
    by (rule parse_request [OF _ hold w]) (use init in \<open>simp_all add: assms(3) http_base_init_def\<close>)
  then show ?thesis by (auto simp: parseBody_def getHeader_def http_base_init_def contains_sub_def Let_def)
qed

lemma login_returns:
  assumes "m_form_data req = Map.empty" "m_conn_queue (fst (sv_ext sv)) = [1, 2, 3, 4]"
  shows "\<exists>r. run_handler demo_env H_login req res sv = Inr r"
proof -
  obtain lim rl where l: "isLimit (sv_limiter sv) ''login_ip'' (m_ip req) (he_clk demo_env 0) = (lim, rl)" by fastforce
  have "user_server (he_mysql demo_env) (\<lambda>d s. (db_sql d, db_bound d)) [''ann'' \<mapsto> ''secret'']"
    using demo_user_server by (simp add: demo_env_def)
  from checkUser_user_server [OF this, of "fst (sv_ext sv)" "[]" "[]" "snd (sv_ext sv)"] assms(2)
  obtain p d where "service_login (he_mysql demo_env) (fst (sv_ext sv)) [] [] (snd (sv_ext sv)) = (Inr False, p, d)"
    by (cases "checkUser (he_mysql demo_env) (fst (sv_ext sv)) [] [] (snd (sv_ext sv))") (auto simp: service_login_def)
  moreover have "form_value req k = []" for k using assms(1) by (simp add: form_value_def)
  moreover obtain r where "sendRESTfulJson (he_json demo_env) (m_keep_alive req) res 429 busy_message [] = Inr r"
    by (simp add: sendRESTfulJson_def buildRESTfulJson_def sendJson_def demo_json_def demo_env_def less_char_def)
  ultimately show ?thesis using l by (cases lim) (auto simp: run_handler_def login_def Let_def)
qed

lemma demo_main_app:
  "find_route (sv_router (ns_app demo_main)) ''POST'' ''/login'' = Some H_login"
  "\<not> shouldIntercept (sv_interceptor (ns_app demo_main)) ''uri_blacklist'' ''/login''"
  "\<not> shouldIntercept (sv_interceptor (ns_app demo_main)) ''login_unrequired'' ''/login''"
  "m_conn_queue (fst (sv_ext (ns_app demo_main))) = [1, 2, 3, 4]"
  "\<not> fst (isLimit (sv_limiter (ns_app demo_main)) ''access_ip'' ip t)"
proof -
  note st = main_start_state [OF demo_main_facts(1)] and app = demo_main_facts(12)
  show "find_route (sv_router (ns_app demo_main)) ''POST'' ''/login'' = Some H_login"
    by (simp add: app initAllModules_state(3) [OF demo_modules_init(1)] registerAllRoutesImpl_def TestController_registerRoutes_def
        UserController_registerRoutes_def TestTxController_registerRoutes_def find_route_register Let_def)
  have "\<not> interceptor_close (net_server.m_config demo_main)" "\<not> rate_limiter_close (net_server.m_config demo_main)"
    by (simp_all add: demo_main_facts(11) ServerConfig_new_def)
  note rules = init_rules [OF this(1)] and limits = started_rules(3) [OF demo_main_facts(1) this(2)]
  show "\<not> shouldIntercept (sv_interceptor (ns_app demo_main)) ''uri_blacklist'' ''/login''"
    "\<not> shouldIntercept (sv_interceptor (ns_app demo_main)) ''login_unrequired'' ''/login''"
    unfolding st(3) rules by (simp_all add: banned_pages_def open_pages_def)
  show "m_conn_queue (fst (sv_ext (ns_app demo_main))) = [1, 2, 3, 4]" by (simp add: app demo_modules_init(2))
  show "\<not> fst (isLimit (sv_limiter (ns_app demo_main)) ''access_ip'' ip t)"
    using limits [of "''access_ip''" ip] by (auto simp: isLimit_def rl_view_def limiter_def split: option.splits)
qed

lemma demo_login_run:
  "\<exists>ns b. net_run login_call demo_mysql demo_main [(''10.0.0.1'', 0, b)] ns"
proof -
  let ?env = "demo_net_env\<lparr>ne_recv := [Received login_text, Recv_would_block], ne_clk := (\<lambda>_. 5)\<rparr>"
  obtain ns where acc: "handle_event demo_mysql demo_net_env demo_main (3, True, False) = Inr ns"
    and cl: "client ns 7 0 (http_init http_conn_new 7 ''10.0.0.1'')" and idle: "idle ns 2" and lt: "ns_trig_mode ns = LT"
    and app: "ns_app ns = ns_app demo_main" using demo_accept by blast
  have run: "net_run login_call demo_mysql demo_main [] ns" using net_run.event [OF net_run.start acc] .
  define c where "c = http_init http_conn_new 7 ''10.0.0.1''"
  define c1 where "c1 = c\<lparr>m_read_buf := login_text @ replicate (READ_BUFFER_SIZE - length login_text) NUL, m_read_idx := length login_text\<rparr>"
  have "length login_text = 24" by code_simp
  then have "login_text \<noteq> []" "length login_text \<le> READ_BUFFER_SIZE" by (auto simp: READ_BUFFER_SIZE_def)
  then have read: "http_read LT c [Received login_text, Recv_would_block] = (True, c1)"
    unfolding c_def c1_def by (intro read_fresh) (simp_all add: http_init_fields)
  obtain c2 where p: "parseHttpRequest demo_json c1 = Inr (True, c2)" and c2: "m_method (m_http_base c2) = ''POST''"
    "m_url (m_http_base c2) = ''/login''" "m_ip (m_http_base c2) = ''10.0.0.1''" "m_form_data (m_http_base c2) = Map.empty"
    using login_parsed [OF c_def _ c1_def] by auto
  note sv = demo_main_app [folded app]
  obtain rl where l: "isLimit (sv_limiter (ns_app ns)) ''access_ip'' ''10.0.0.1'' 5 = (False, rl)"
    using sv(5) by (cases "isLimit (sv_limiter (ns_app ns)) ''access_ip'' ''10.0.0.1'' 5") (metis fst_conv)
  let ?sv = "(ns_app ns)\<lparr>sv_limiter := rl\<rparr>"
  obtain b sm tm where a: "parseAuthContext demo_ssl (m_http_base c2) (sv_sessions ?sv) (sv_tokens ?sv) 5 5 5 = (b, sm, tm)"
    by (metis prod_cases3)
  have ans: "answered_by demo_ssl c2 ?sv 5 5 5 = Some (H_login, b)"
    using sv(1-3) a c2 parseAuthContext_frame [OF a] by (simp add: answered_by_def)
  have b: "m_ip b = ''10.0.0.1''" "m_form_data b = Map.empty"
    using parseAuthContext_ip [OF a] parseAuthContext_form [OF a] c2 by simp_all
  have pb: "processed_by demo_ssl demo_json c1 (ns_app ns) (\<lambda>_. 5) = Some (H_login, b)"
    using p l ans by (simp add: processed_by_def c1_def c_def http_init_fields)
  have "\<exists>r. http_process demo_ssl demo_json (ne_fs ?env) (ne_root ?env) (run_handler demo_env) c1 (ns_app ns) (\<lambda>_. 5) = Inr r"
  proof (rule process_returns)
    show "parseHttpRequest demo_json c1 = Inr (True, c2)" by (rule p)
    show "isLimit (sv_limiter (ns_app ns)) ''access_ip'' (m_address c1) 5 = (False, rl)"
      using l by (simp add: c1_def c_def http_init_fields)
    show "answered_by demo_ssl c2 ?sv 5 5 5 = Some (H_login, b)" by (rule ans)
    show "\<exists>r. run_handler demo_env H_login b (m_http_response c2) ((ns_app ns)\<lparr>sv_limiter := rl, sv_sessions := sm, sv_tokens := tm\<rparr>) = Inr r"
      for sm tm using b(2) sv(4) by (intro login_returns) simp_all
  qed
  then obtain ok c3 app where returns: "http_process demo_ssl demo_json (ne_fs ?env) (ne_root ?env) (run_handler demo_env) c1 (ns_app ns) (\<lambda>_. 5) =
      Inr (ok, c3, app)" by (metis prod_cases3)
  have env: "ne_handlers ?env = demo_env" "ne_clk ?env = (\<lambda>_. 5)" "he_ssl demo_env = demo_ssl" "he_json demo_env = demo_json"
    by (simp_all add: demo_net_env_def demo_env_def)
  have ar: "\<exists>n. after_read ?env (ns\<lparr>m_thread_pool := p, ns_conns := (ns_conns ns)(0 \<mapsto> Http c1)\<rparr>) 0 7 = Inr n" for p
    by (simp add: after_read_def process_object_def env Let_def) (use returns in simp)
  obtain p ns' where "net_run login_call demo_mysql demo_main ([] @ login_call ?env (ns\<lparr>m_thread_pool := p, ns_conns := (ns_conns ns)(0 \<mapsto> Http c1)\<rparr>) 0) ns'"
    using read_run [where env = ?env, OF run cl [folded c_def] idle _ ar] read lt by fastforce
  moreover have "\<exists>d. login_call ?env (ns\<lparr>m_thread_pool := p, ns_conns := (ns_conns ns)(0 \<mapsto> Http c1)\<rparr>) 0 = [(''10.0.0.1'', 0, d)]"
    using pb b by (simp add: login_call_def demo_net_env_def demo_env_def Let_def)
  ultimately show ?thesis by (simp only: append.simps) metis
qed


end
