(* ===== verification/Signal_Utils.thy ===== *)
theory Signal_Utils
  imports Net_Properties
begin

text \<open>
  Signals: \<open>src/util/signal_utils.h\<close> and \<open>signal_utils.cpp\<close>, and what they do to the server.

  The state has the disposition of the signals the program registers, the pipe and the bytes in it. The write end does not block,
  so a byte that finds the pipe full is lost; \<open>room\<close> says whether there is space. A signal is delivered at any point between two steps.
\<close>

section \<open>Model\<close>

datatype sig_handler = SIG_IGN | Handle_signal

record signal_utils =
  sig_pipe_fd :: "int \<times> int"
  sig_actions :: "nat \<rightharpoonup> sig_handler"
  sig_bytes :: "nat list"

definition SIGINT :: nat where "SIGINT = 2"
definition SIGPIPE :: nat where "SIGPIPE = 13"
definition SIGTERM :: nat where "SIGTERM = 15"

definition signal_utils_new :: signal_utils where
  "signal_utils_new = \<lparr>sig_pipe_fd = (-1, -1), sig_actions = Map.empty, sig_bytes = []\<rparr>"

text \<open>\<open>None\<close> is \<open>exit\<close>; the assertion on \<open>sigaction\<close> holds for the signals it is called with.\<close>

definition initSignalPipe :: "signal_utils \<Rightarrow> (int \<times> int) option \<Rightarrow> signal_utils option" where
  "initSignalPipe su fds = map_option (\<lambda>fds. su\<lparr>sig_pipe_fd := fds\<rparr>) fds"

definition registerSignal :: "signal_utils \<Rightarrow> nat \<Rightarrow> sig_handler \<Rightarrow> signal_utils" where
  "registerSignal su sig h = su\<lparr>sig_actions := (sig_actions su)(sig \<mapsto> h)\<rparr>"

definition SignalUtils_init :: "signal_utils \<Rightarrow> (int \<times> int) option \<Rightarrow> signal_utils option" where
  "SignalUtils_init su fds =
     map_option (\<lambda>su.
       let su = registerSignal su SIGPIPE SIG_IGN;
           su = registerSignal su SIGINT Handle_signal
       in registerSignal su SIGTERM Handle_signal) (initSignalPipe su fds)"

definition getSignalReadFd :: "signal_utils \<Rightarrow> int" where
  "getSignalReadFd su = fst (sig_pipe_fd su)"

definition handleSignal :: "bool \<Rightarrow> signal_utils \<Rightarrow> nat \<Rightarrow> signal_utils" where
  "handleSignal room su sig = (if room then su\<lparr>sig_bytes := sig_bytes su @ [sig mod 256]\<rparr> else su)"

text \<open>A signal without a registered action ends the process.\<close>

definition deliver :: "bool \<Rightarrow> signal_utils \<Rightarrow> nat \<Rightarrow> signal_utils option" where
  "deliver room su sig =
     (case sig_actions su sig of
        None \<Rightarrow> None
      | Some SIG_IGN \<Rightarrow> Some su
      | Some Handle_signal \<Rightarrow> Some (handleSignal room su sig))"

section \<open>Shutting down\<close>

lemma foldl_kernel:
  "\<not> ns_open ns fd \<Longrightarrow> \<not> ns_open (foldl close_object ns is) fd" "\<not> ns_open ns fd \<Longrightarrow> \<not> ns_open (foldl release ns is) fd"
  by (induction "is" arbitrary: ns) (simp_all add: close_object_kernel release_kernel)

definition shutdown_core :: "('wh, 'd) net_server \<Rightarrow> ('wh, 'd) net_server" where
  "shutdown_core ns =
     (let ns = foldl close_fd ns (filter (\<lambda>fd. 0 \<le> fd) (m_listen_fds ns)); ids = map snd (m_users ns); ns = foldl close_object ns ids
      in foldl release (ns\<lparr>m_users := []\<rparr>) ids)"

lemma shutdown_fields:
  "ns_open (net_shutdown my ns) = ns_open (shutdown_core ns)" "m_users (net_shutdown my ns) = []" "\<not> m_is_running (net_shutdown my ns)"
  "m_stop (m_thread_pool (net_shutdown my ns))" "m_listen_fds (net_shutdown my ns) = m_listen_fds ns"
proof -
  have u: "m_users (foldl release ns is) = m_users ns" "m_listen_fds (foldl release ns is) = m_listen_fds ns"
    "m_listen_fds (foldl close_object ns is) = m_listen_fds ns" for ns :: "('a, 'b) net_server" and "is"
    by (induction "is" arbitrary: ns) simp_all
  have l: "m_listen_fds (foldl close_fd ns is) = m_listen_fds ns" for ns :: "('a, 'b) net_server" and "is"
    by (induction "is" arbitrary: ns) (simp_all add: close_fd_def)
  show "ns_open (net_shutdown my ns) = ns_open (shutdown_core ns)" "m_users (net_shutdown my ns) = []" "\<not> m_is_running (net_shutdown my ns)"
    "m_stop (m_thread_pool (net_shutdown my ns))" "m_listen_fds (net_shutdown my ns) = m_listen_fds ns"
    by (simp_all add: net_shutdown_def shutdown_core_def Let_def pool_stop_def u l)
qed

lemma close_fds: "ns_open (foldl close_fd ns fds) fd \<longleftrightarrow> ns_open ns fd \<and> fd \<notin> set fds"
proof (induction fds arbitrary: ns)
  case (Cons f fds)
  show ?case using Cons.IH [of "close_fd ns f"] by (auto simp: close_fd_def)
qed simp

lemma close_objects:
  assumes "ns_conns ns i = Some (Http h)" "\<not> m_is_closed h" "m_sockfd h = fd" "fd \<noteq> -1" "i \<in> set ids"
  shows "\<not> ns_open (foldl close_object ns ids) fd"
  using assms
proof (induction ids arbitrary: ns)
  case (Cons j ids)
  show ?case
  proof (cases "j = i")
    case True
    with Cons.prems have "\<not> ns_open (close_object ns j) fd"
      by (simp add: close_object_def http_closeConn_def Let_def close_fd_def)
    then have "\<not> ns_open (foldl close_object (close_object ns j) ids) fd"
      by (rule foldl_kernel)
    then show ?thesis by simp
  next
    case False
    with Cons.IH [of "close_object ns j"] Cons.prems show ?thesis by simp
  qed
qed simp

lemma shutdown_closes:
  assumes "server_ok ns" "fd \<in> set (m_listen_fds ns) \<and> 0 \<le> fd \<or> \<not> ns_open ns fd \<or>
    (\<exists>i h. (fd, i) \<in> set (m_users ns) \<and> ns_conns ns i = Some (Http h) \<and> \<not> m_is_closed h)"
  shows "\<not> ns_open (net_shutdown my ns) fd"
proof -
  define n1 where "n1 = foldl close_fd ns (filter (\<lambda>fd. 0 \<le> fd) (m_listen_fds ns))"
  define n2 where "n2 = foldl close_object n1 (map snd (m_users n1))"
  have conns: "ns_conns (foldl close_fd ns l) = ns_conns ns \<and> m_users (foldl close_fd ns l) = m_users ns" for l
    by (induction l arbitrary: ns) (simp_all add: close_fd_def)
  have "\<not> ns_open n2 fd"
  proof (cases "\<exists>i h. (fd, i) \<in> set (m_users ns) \<and> ns_conns ns i = Some (Http h) \<and> \<not> m_is_closed h")
    case True
    then obtain i h where i: "(fd, i) \<in> set (m_users ns)" "ns_conns ns i = Some (Http h)" "\<not> m_is_closed h" by blast
    have "m_sockfd h = fd" "fd \<noteq> -1" using server_ok_user [OF assms(1) i(1)] i(2,3) by (auto simp: user_ok_def)
    moreover have "i \<in> set (map snd (m_users n1))" using i(1) conns by (force simp: n1_def)
    ultimately show ?thesis unfolding n2_def using i(2,3) conns by (intro close_objects [of _ i h]) (simp_all add: n1_def)
  next
    case False
    then have "\<not> ns_open n1 fd" unfolding n1_def close_fds using assms(2) by auto
    then show ?thesis unfolding n2_def by (rule foldl_kernel)
  qed
  then have "\<not> ns_open (n2\<lparr>m_users := []\<rparr>) fd" by simp
  then have "\<not> ns_open (foldl release (n2\<lparr>m_users := []\<rparr>) (map snd (m_users n1))) fd"
    by (rule foldl_kernel)
  then show ?thesis by (simp add: shutdown_fields shutdown_core_def Let_def n1_def n2_def)
qed

text \<open>What one or more shutdowns leave of the server \<open>ns\<close>.\<close>

definition shut_down :: "('wh, 'd) net_server \<Rightarrow> ('wh, 'd) net_server \<Rightarrow> bool" where
  "shut_down ns ns' \<longleftrightarrow>
     \<not> m_is_running ns' \<and> m_users ns' = [] \<and> m_stop (m_thread_pool ns') \<and>
     (\<forall>fd \<in> set (m_listen_fds ns). 0 \<le> fd \<longrightarrow> \<not> ns_open ns' fd) \<and>
     (\<forall>(fd, i) \<in> set (m_users ns). \<forall>h. ns_conns ns i = Some (Http h) \<and> \<not> m_is_closed h \<longrightarrow> \<not> ns_open ns' fd)"

lemma shut_down_first: "server_ok ns \<Longrightarrow> shut_down ns (net_shutdown my ns)"
  unfolding shut_down_def by (intro conjI shutdown_fields ballI impI allI case_prodI2; rule shutdown_closes) auto

lemma shut_down_again:
  assumes "shut_down ns n" "server_ok n"
  shows "shut_down ns (net_shutdown my n)"
  unfolding shut_down_def
  by (intro conjI shutdown_fields ballI impI allI case_prodI2; rule shutdown_closes [OF assms(2)])
     (use assms(1) in \<open>auto simp: shut_down_def\<close>)

lemma signals_shut_down:
  assumes "server_ok n" "shut_down ns n \<or> n = ns \<and> (\<exists>sig \<in> set sigs. sig = 2 \<or> sig = 15)"
  shows "shut_down ns (handleSignalEvent my n sigs)"
  using assms
proof (induction sigs arbitrary: n)
  case (Cons sig sigs)
  define n' where "n' = (if sig = 2 \<or> sig = 15 then net_shutdown my n else n)"
  have ok: "server_ok n'" using Cons.prems(1) by (simp add: n'_def server_ok_shutdown)
  have "shut_down ns n' \<or> n' = ns \<and> (\<exists>sig \<in> set sigs. sig = 2 \<or> sig = 15)"
    using Cons.prems shut_down_first [of n my] shut_down_again [of ns n my] by (auto simp: n'_def)
  from Cons.IH [OF ok this] show ?case by (simp add: handleSignalEvent_def n'_def)
qed (simp add: handleSignalEvent_def)



end
