(* ===== verification/Sys_Utils.thy ===== *)
theory Sys_Utils
  imports Prelude
begin

text \<open>
  System calls: \<open>src/util/sys_utils.h\<close> and \<open>sys_utils.cpp\<close>. What \<open>fcntl\<close> and \<open>readlink\<close> answer is an argument. \<open>getThreadIdStr\<close> prints a thread id
  and has no model of its own.
\<close>

section \<open>Model\<close>

definition O_NONBLOCK :: int where "O_NONBLOCK = 2048"

text \<open>\<open>get\<close> is the answer of \<open>fcntl(fd, F_GETFL)\<close>, \<open>set_ok\<close> whether \<open>F_SETFL\<close> works; the second component is the flags that are set.\<close>

definition setNonBlocking :: "int \<Rightarrow> bool \<Rightarrow> int \<times> int option" where
  "setNonBlocking get set_ok =
     (if get < 0 then (-1, None)
      else if \<not> set_ok then (-1, None)
      else (get, Some (or get O_NONBLOCK)))"

definition setReuseAddr :: "int \<Rightarrow> int" where
  "setReuseAddr fd = 0"

text \<open>\<open>path::parent_path()\<close> of a path without a trailing slash: everything before the slashes in front of the last name; the
  parent of a name directly under the root is the root.\<close>

definition parent_path :: "string \<Rightarrow> string" where
  "parent_path p =
     (let dir = rev (dropWhile (\<lambda>c. c \<noteq> CHR ''/'') (rev p));
          cut = rev (dropWhile (\<lambda>c. c = CHR ''/'') (rev dir))
      in if dir \<noteq> [] \<and> cut = [] then ''/'' else cut)"

text \<open>\<open>readlink(''/proc/self/exe'')\<close> fails or gives the path of the program.\<close>

definition getRootPath :: "string option \<Rightarrow> string" where
  "getRootPath exe = (case exe of None \<Rightarrow> ''./'' | Some path \<Rightarrow> parent_path (parent_path path))"

section \<open>Lemmas\<close>

lemma setNonBlocking_flag:
  assumes "setNonBlocking get set_ok = (r, Some flags)"
  shows "0 \<le> r \<and> bit flags 11 \<and> (\<forall>k. bit r k \<longrightarrow> bit flags k)"
proof -
  have "bit O_NONBLOCK 11" unfolding O_NONBLOCK_def by code_simp
  with assms show ?thesis by (auto simp: setNonBlocking_def bit_or_iff split: if_splits)
qed

lemma dropWhile_name:
  assumes "CHR ''/'' \<notin> set name"
  shows "dropWhile (\<lambda>c. c \<noteq> CHR ''/'') (rev name @ CHR ''/'' # r) = CHR ''/'' # r"
  using assms by (subst dropWhile_append2) auto

lemma parent_path_dir:
  assumes "CHR ''/'' \<notin> set name" "dir \<noteq> []" "last dir \<noteq> CHR ''/''"
  shows "parent_path (dir @ ''/'' @ name) = dir"
proof -
  obtain d c where d: "dir = d @ [c]" "c \<noteq> CHR ''/''" using assms(2,3) by (metis append_butlast_last_id)
  show ?thesis using d(2) dropWhile_name [OF assms(1), of "rev dir"] by (simp add: parent_path_def Let_def d(1))
qed

text \<open>A program at \<open>root/bin/name\<close> finds its root.\<close>

lemma getRootPath_of_program:
  assumes "CHR ''/'' \<notin> set name" "CHR ''/'' \<notin> set bin" "bin \<noteq> []" "root \<noteq> []" "last root \<noteq> CHR ''/''"
  shows "getRootPath (Some (root @ ''/'' @ bin @ ''/'' @ name)) = root"
proof -
  have "last bin \<noteq> CHR ''/''" using assms(2,3) by (metis last_in_set)
  with parent_path_dir [OF assms(1), of "root @ ''/'' @ bin"] assms(3) have "parent_path (root @ ''/'' @ bin @ ''/'' @ name) = root @ ''/'' @ bin"
    by simp
  with parent_path_dir [OF assms(2,4,5)] show ?thesis by (simp add: getRootPath_def)
qed

end
