(* ===== verification/Spec2Isabelle.thy ===== *)
theory Spec2Isabelle
  imports Cache_Adapter Session_Manager Token_Manager Rate_Limiter Interceptor Server_Config
    Config_Manager Http_Serving Http_Static Websocket_Conn Tcp_Conn Controllers Thread_Pool Async_Log
    Net_Server Net_Invariant Net_Properties Http_Buffers Net_Policy Net_Serving Net_Reuse Init Started Signal_Utils Sys_Utils
begin

text \<open>
  \<^bold>\<open>ModularNetServer: a verification of the server's components\<close>

  The program is an HTTP and WebSocket server in C++ around epoll. \<open>main.cpp\<close> reads the command line, \<open>init.cpp\<close> sets up the
  singletons (log, configuration, router, rate limiter, interceptor, database pool, connection factory), and \<open>NetServer\<close> runs
  the event loop: it accepts connections, hands reading, processing and writing to a pool of threads, and closes idle
  connections with a heap of timers. A connection parses requests, asks limiter and interceptor, checks the token of the
  request, runs the handler the router has for its path or sends a file. Handlers log users in with the help of the
  database classes, the session manager and the token manager. A two-level cache (LRU in memory, Redis behind it) is part
  of the library.

  \<^bold>\<open>Theories and sources\<close> (paths under \<open>src/\<close>)

  \<^item> \<open>Prelude\<close>: exceptions and results (\<open>cpp_exn\<close>, \<open>result\<close>, \<open>rbind\<close>), 32-bit \<open>int\<close> (\<open>wrap32\<close>), \<open>std::stoi\<close>, \<open>std::to_string\<close>, C strings,
    searching in strings, association lists.
  \<^item> \<open>Lru_Cache\<close> (\<open>cache/lru_cache.h\<close>): the list of nodes and the index as a store of addresses; \<open>Redis_Client\<close>
    (\<open>cache/redis_client.cpp\<close>); \<open>Cache_Adapter\<close> (\<open>cache/cache_adapter.cpp\<close>).
  \<^item> \<open>Timer_Manager\<close> (\<open>timer/\<close>), \<open>Timed_Table\<close> (what session and token tables share), \<open>Session_Manager\<close> (\<open>session/\<close>),
    \<open>Token_Manager\<close> (\<open>token/\<close>), \<open>Crypto_Utils\<close> (\<open>util/crypto_utils.cpp\<close>).
  \<^item> \<open>Rate_Limiter\<close>, \<open>Interceptor\<close> (\<open>util/\<close>), \<open>Server_Config\<close>, \<open>Config_Manager\<close> (\<open>config/\<close>), \<open>Json_Value\<close> (the values of the JSON library).
  \<^item> \<open>Http_Base\<close>, \<open>Http_Request\<close>, \<open>Http_Response\<close>, \<open>Http_Conn\<close> (\<open>conn/http/\<close>), \<open>Router\<close> (\<open>router/\<close>), \<open>Base_Conn\<close> (\<open>conn/base_conn.h\<close>);
    \<open>Http_Serving\<close> and \<open>Http_Static\<close> hold the properties of a connection.
  \<^item> \<open>Websocket_Frame\<close>, \<open>Websocket_Conn\<close> (\<open>conn/websocket/\<close>), \<open>Tcp_Conn\<close> (\<open>conn/tcp/\<close>).
  \<^item> \<open>Sql_Pool\<close>, \<open>Sql_Executor\<close> (\<open>db/\<close>), \<open>User_Dao\<close> (\<open>mvc/dao\<close>, \<open>mvc/service\<close>), \<open>Controllers\<close> (\<open>mvc/controller\<close>).
  \<^item> \<open>Thread_Pool\<close> (\<open>threadpool/\<close>), \<open>Async_Log\<close> (\<open>log/\<close>), \<open>Sys_Utils\<close> and \<open>Signal_Utils\<close> (\<open>util/\<close>).
  \<^item> \<open>Net_Server\<close> (\<open>net/\<close>, \<open>conn/conn_factory_manager.cpp\<close>), with its invariant in \<open>Net_Invariant\<close> and its runs in \<open>Net_Properties\<close>;
    \<open>Init\<close> (\<open>init.cpp\<close>, \<open>main.cpp\<close>, the hooks of \<open>config/\<close>).
  \<^item> The server as a whole: \<open>Http_Buffers\<close> (the arrays of the connections in every reachable state), \<open>Net_Policy\<close> (what a run keeps, and
    the calls of the limiter it makes), \<open>Net_Serving\<close> (one request from the event to the wire), \<open>Net_Reuse\<close> (a descriptor that is used
    again while a task waits), \<open>Started\<close> (the runs of the program as \<open>main\<close> starts it).

  A class is a record with the fields of the class, a member function a function on that record with its name (prefixed
  where two classes use one name). A handler is a value of \<open>http_handler\<close>, and \<open>run_handler\<close> is what calling it does. Connection
  objects live in a store that \<open>m_users\<close> and the tasks refer to, and are destroyed when the last reference goes. Every
  \<open>throw\<close>, every read past a buffer and every null dereference is an \<open>Inl\<close> of \<open>cpp_exn\<close>.

  \<^bold>\<open>The outside\<close>. The JSON library, OpenSSL, hiredis, libmysqlclient, the file system, the kernel and the clock are arguments.
  What is assumed of them is a named predicate in the statement (\<open>json_lib_ok\<close>, \<open>redis_server\<close>, \<open>user_server\<close>, \<open>tx_server\<close>,
  \<open>serves\<close>), and each witness has a concrete instance. A call of \<open>recv\<close>, \<open>send\<close> or \<open>sendfile\<close> takes its answer from a list.

  \<^bold>\<open>Interfaces\<close>. \<open>kv_cache\<close> (LRU cache), \<open>connected_redis\<close> and \<open>adapter_stack\<close> (the two levels of the cache), \<open>timer_service\<close> (what the tables
  need of timers), \<open>keyed_limiter\<close> (windows per key), \<open>resource_pool\<close> (lending and returning) and \<open>limiter_account\<close> (the
  calls of the limiter that a run makes) are locales, interpreted on the model of the class that provides them.

  \<^bold>\<open>What is shown\<close>

  \<^item> The running server (C1, C2, C4, C9, C40): whatever the order of events, timers and tasks, references lead to objects, the buffers of
    connections keep their bounds and every open connection has a timer that will close it; a tick closes exactly what is due and
    returns; a termination signal ends the loop and closes what is open. A task that outlives its connection can close another one.
  \<^item> The started program (C5 to C7, C21): in all its runs the access policy of \<open>init.cpp\<close> decides who reaches a handler, an address gets at
    most 39 requests past the limiter in ten seconds and at most nine attempts to log in within three minutes, and accepting a client never
    fails for want of a factory.
  \<^item> A request (C3, C17, C18, C20, C32 to C36): a GET for a file goes through events, tasks and workers and ends as the header and the file
    on the wire; complete requests are parsed exactly; forms, ranges and responses are read and written back unchanged; an
    authenticated request has a token that was issued and is alive.
  \<^item> Users (C8, C12, C13): a login succeeds for the stored password only; pooled connections are neither lost nor shared; a transaction is
    visible exactly when it reports success.
  \<^item> Caches (C10, C11): the linked structure refines a recency list, the two levels together behave like one table.
  \<^item> Threads (C14, C15, C23): tasks are executed once and in order, the pool comes to rest, log entries keep their order.
  \<^item> Timers, sessions, tokens (C16, C19, C24 to C26), limits and rules (C27, C28), configuration (C29 to C31), WebSocket (C22, C37 to C39).

  Theorems without a number complete these (\<open>static_page\<close>, \<open>cookie_lookup\<close>, \<open>lru_retention\<close>, \<open>refresh_defers\<close>, \<open>rate_burst\<close>, \<open>handshake_target\<close>) or record
  behaviour that surprises: \<open>write_restarts\<close>, \<open>rebind_lost\<close>, \<open>ws_close_needs_two\<close>, \<open>session_never_reclaimed\<close>, \<open>restful_envelope\<close>,
  \<open>shutdown_can_hang\<close>, \<open>destructor_drops_queue\<close>.

  \<^bold>\<open>Loops\<close>. \<open>TimerManager::tick\<close> is a partial function whose value \<open>None\<close> is not returning; C24 and C2 show where it returns. The
  header loop of the parser has a measure. \<open>eventLoop\<close> runs over a list of rounds, one per return of \<open>epoll_wait\<close>, and the watch thread of the
  configuration over a list of readings of the file: both are as long as the run that is looked at. Threads are steps of a relation;
  \<open>pool_fuel\<close> in C15 bounds the number of steps the workers can make on their own.

  \<^bold>\<open>Not modelled\<close>. The vendored JSON library, the test program of the cache and the static pages. Logging calls are left out of the other
  components. The functions of \<open>TcpConn\<close> without a \<open>return\<close> have the outcome \<open>Missing_return\<close>. One handler or one task is one step of the
  server: the sections of two tasks under different locks do not interleave.

  \<^bold>\<open>Next\<close>. The sharing of one connection between a task and a timer at the grain of single locks; a successful login through the
  whole server.
\<close>

end
